theory Spec2Isabelle
  imports Main "HOL-Library.Word"
begin

unbundle bit_operations_syntax

section \<open>Data model\<close>

text \<open>
  A centroid code (\<^verbatim>\<open>bccTetCentroid\<close>) is a \<^verbatim>\<open>std::array<unsigned short, 3>\<close>:
  three unsigned 16-bit coordinates holding twice the geometric centroid of a tetrahedron.
  The array is a triple of 16-bit words; \<open>at3\<close> and \<open>set3\<close> are the subscript read and
  write for the axis indices 0, 1 and 2.
\<close>

type_synonym ushort = "16 word"
type_synonym bccTetCentroid = "ushort \<times> ushort \<times> ushort"

fun at3 :: "'a \<times> 'a \<times> 'a \<Rightarrow> nat \<Rightarrow> 'a" where
  "at3 (x, y, z) i = (if i = 0 then x else if i = 1 then y else z)"

fun set3 :: "'a \<times> 'a \<times> 'a \<Rightarrow> nat \<Rightarrow> 'a \<Rightarrow> 'a \<times> 'a \<times> 'a" where
  "set3 (x, y, z) i v = (if i = 0 then (v, y, z) else if i = 1 then (x, v, z) else (x, y, v))"

text \<open>
  C++ promotes an \<^verbatim>\<open>unsigned short\<close> operand to \<^verbatim>\<open>int\<close> before any arithmetic, bit test
  or comparison: \<open>rd tc i\<close> is the promoted value of \<^verbatim>\<open>tc[i]\<close>. A compound assignment
  \<^verbatim>\<open>tc[i] += d\<close> (also \<^verbatim>\<open>-=\<close>, \<^verbatim>\<open>++\<close>, \<^verbatim>\<open>--\<close>) computes in \<^verbatim>\<open>int\<close> and converts the result
  back to \<^verbatim>\<open>unsigned short\<close>, that is modulo \<open>2 ^ 16\<close>: \<open>plusAssign tc i d\<close>.
\<close>

definition rd :: "bccTetCentroid \<Rightarrow> nat \<Rightarrow> int" where
  "rd tc i = uint (at3 tc i)"

definition plusAssign :: "bccTetCentroid \<Rightarrow> nat \<Rightarrow> int \<Rightarrow> bccTetCentroid" where
  "plusAssign tc i d = set3 tc i (word_of_int (rd tc i + d))"

datatype error = LogicError | AssertionFailed | OutOfBounds

section \<open>Centroid algebra\<close>

text \<open>
  Modelled from the spec: \<^verbatim>\<open>centroidHalfAxisSize\<close> is declared inline in the header
  \<^verbatim>\<open>vnBccTetrahedra.h\<close>, which is not among the sources. The spec's \<^verbatim>\<open>decode\<close> "finds the
  lowest set bit common across the pattern, identifying level; finds which axis carries
  that bit to identify the half axis", and "fails (assertion/fatal) if none found".
  The search below tries the sizes 1, 2, 4, ... of the 16 bit positions and, at each size,
  the axes 0, 1, 2 in this order, which is the loop that \<^verbatim>\<open>insideTet\<close> of
  \<^verbatim>\<open>vnBccTetrahedra.cpp\<close> writes out for the same purpose. \<open>None\<close> is the failure.
\<close>

fun halfAxisSize_loop :: "nat \<Rightarrow> int \<Rightarrow> bccTetCentroid \<Rightarrow> (nat \<times> int) option" where
  "halfAxisSize_loop 0 sz tc = None"
| "halfAxisSize_loop (Suc n) sz tc =
     (if rd tc 0 AND sz \<noteq> 0 then Some (0, sz)
      else if rd tc 1 AND sz \<noteq> 0 then Some (1, sz)
      else if rd tc 2 AND sz \<noteq> 0 then Some (2, sz)
      else halfAxisSize_loop n (push_bit 1 sz) tc)"

definition centroidHalfAxisSize :: "bccTetCentroid \<Rightarrow> (nat \<times> int) option" where
  "centroidHalfAxisSize tc = halfAxisSize_loop 16 1 tc"

text \<open>
  A centroid code is valid when it decodes to a half axis \<open>hc\<close> and a size \<open>sz\<close> such that
  only the half axis carries the size bit and the two secondary axes differ in the next
  bit up. The second condition is the one \<^verbatim>\<open>centroidUpOneLevel\<close> asserts on entry
  (\<^verbatim>\<open>(tcUp[c1] & levelX2) != (tcUp[c2] & levelX2)\<close>); it places the four nodes of
  \<^verbatim>\<open>centroidToNodeLoci\<close> on the body-centred cubic lattice.
\<close>

definition valid_centroid :: "bccTetCentroid \<Rightarrow> bool" where
  "valid_centroid tc =
     (case centroidHalfAxisSize tc of
        None \<Rightarrow> False
      | Some (hc, sz) \<Rightarrow>
          rd tc ((hc + 1) mod 3) AND sz = 0 \<and> rd tc ((hc + 2) mod 3) AND sz = 0 \<and>
          rd tc ((hc + 1) mod 3) AND (2 * sz) \<noteq> rd tc ((hc + 2) mod 3) AND (2 * sz))"

section \<open>Face adjacency\<close>

text \<open>
  \<^verbatim>\<open>faceAdjacentMicrotet(tc, face, tcAdj)\<close> returns the face number of the adjacent
  tetrahedron and writes its centroid to \<^verbatim>\<open>tcAdj\<close>; the return value \<open>-1\<close> says that the
  adjacent centroid would leave the positive octant. The model returns the pair of the
  returned \<^verbatim>\<open>int\<close> and the contents of \<^verbatim>\<open>tcAdj\<close> at the return, so that an early return
  leaves \<^verbatim>\<open>tcAdj\<close> as far as the code had updated it. The check under \<^verbatim>\<open>#ifdef _DEBUG\<close> is
  not part of the release code and is left out.
\<close>

definition faceAdjacentMicrotet :: "bccTetCentroid \<Rightarrow> int \<Rightarrow> int \<times> bccTetCentroid" where
  "faceAdjacentMicrotet tc face =
     (let tcAdj = tc;
          ha = (if rd tc 0 AND 1 \<noteq> 0 then 0 else if rd tc 1 AND 1 \<noteq> 0 then 1 else 2);
          aha = (ha + 1) mod 3
      in if drop_bit 1 (rd tc ha + rd tc aha) AND 1 \<noteq> 0 then
           (if face < 1 \<or> face > 2 then
              (if rd tcAdj ha < 1 then (-1, tcAdj)
               else let tcAdj = plusAssign tcAdj ha (-1);
                        aha = (ha + 2) mod 3
                    in if face > 2 \<and> rd tcAdj aha < 1 then (-1, tcAdj)
                       else (1, plusAssign tcAdj aha (if face < 1 then 1 else -1)))
            else
              (let adjFace = (if face < 2 then 3 else 0);
                   tcAdj = plusAssign tcAdj ha 1
               in if face > 1 \<and> rd tcAdj aha < 1 then (-1, tcAdj)
                  else (adjFace, plusAssign tcAdj aha (if face < 2 then 1 else -1))))
         else
           (if face < 1 \<or> face > 2 then
              (let tcAdj = plusAssign tcAdj ha 1;
                   aha = (ha + 2) mod 3
               in if face < 1 \<and> rd tcAdj aha < 1 then (-1, tcAdj)
                  else (2, plusAssign tcAdj aha (if face < 1 then -1 else 1)))
            else
              (let adjFace = (if face < 2 then 0 else 3)
               in if rd tcAdj ha < 1 then (-1, tcAdj)
                  else let tcAdj = plusAssign tcAdj ha (-1)
                       in if face > 1 \<and> rd tcAdj aha < 1 then (-1, tcAdj)
                          else (adjFace, plusAssign tcAdj aha (if face < 2 then 1 else -1)))))"

text \<open>
  \<^verbatim>\<open>faceAdjacentCentroid\<close> is the same query for a tetrahedron of any size. It decodes the
  centroid first; a failed decode is the fatal error of \<^verbatim>\<open>centroidHalfAxisSize\<close>.
\<close>

definition faceAdjacentCentroid :: "bccTetCentroid \<Rightarrow> int \<Rightarrow> error + int \<times> bccTetCentroid" where
  "faceAdjacentCentroid tc face =
     (case centroidHalfAxisSize tc of
        None \<Rightarrow> Inl LogicError
      | Some (ha, sz) \<Rightarrow>
          (let tcAdj = plusAssign tc ha (- sz)
           in if face < 1 \<or> face > 2 then
                (let aha = (ha + 2) mod 3;
                     tcAdj = plusAssign tcAdj aha sz
                 in if drop_bit 1 (rd tc ha + rd tc aha) AND sz \<noteq> 0 then
                      (let tcAdj = plusAssign tcAdj ha (2 * sz)
                       in if face < sz then
                            (if rd tcAdj aha < 2 * sz then Inr (-1, tcAdj)
                             else Inr (2, plusAssign tcAdj aha (- (2 * sz))))
                          else Inr (2, tcAdj))
                    else
                      (if face > 2 then
                         (if rd tcAdj aha < 2 * sz then Inr (-1, tcAdj)
                          else Inr (1, plusAssign tcAdj aha (- (2 * sz))))
                       else Inr (1, tcAdj)))
              else
                (let aha = (ha + 1) mod 3;
                     tcAdj = plusAssign tcAdj aha sz
                 in if face > 1 \<and> rd tcAdj aha < 2 * sz then Inr (-1, tcAdj)
                    else
                      (let tcAdj = (if face > 1 then plusAssign tcAdj aha (- (2 * sz)) else tcAdj)
                       in if drop_bit 1 (rd tc ha + rd tc aha) AND sz \<noteq> 0 then
                            Inr (if face > 1 then 0 else 3, plusAssign tcAdj ha (2 * sz))
                          else Inr (if face > 1 then 3 else 0, tcAdj)))))"

section \<open>Promotion and subdivision\<close>

text \<open>
  \<^verbatim>\<open>centroidUpOneLevel(tcIn)\<close> returns the centroid of the tetrahedron one level up that
  contains \<open>tcIn\<close>. The two \<^verbatim>\<open>assert\<close>s of the code abort a build that compiles assertions
  in and do nothing in a build with \<^verbatim>\<open>NDEBUG\<close>; the first argument of the model says
  whether assertions are compiled in, and a failed assertion is the error
  \<open>AssertionFailed\<close>. A failed decode is the fatal error of \<^verbatim>\<open>centroidHalfAxisSize\<close>.
\<close>

definition centroidUpOneLevel :: "bool \<Rightarrow> bccTetCentroid \<Rightarrow> error + bccTetCentroid" where
  "centroidUpOneLevel asserts tcIn =
     (case centroidHalfAxisSize tcIn of
        None \<Rightarrow> Inl LogicError
      | Some (hc, levelBit) \<Rightarrow>
          (let levelX2 = push_bit 1 levelBit;
               levelX4 = push_bit 1 levelX2;
               c1 = (hc + 1) mod 3;
               c2 = (hc + 2) mod 3;
               tcUp = tcIn
           in if asserts \<and> \<not> (rd tcUp c1 AND levelX2 \<noteq> rd tcUp c2 AND levelX2)
              then Inl AssertionFailed
              else
                (let tcUp = plusAssign tcUp hc
                       (if rd tcUp hc AND levelX2 \<noteq> 0 then levelBit else - levelBit)
                 in if rd tcUp c1 AND levelX2 \<noteq> 0 \<and>
                       rd tcUp hc AND levelX4 \<noteq> rd tcUp c2 AND levelX4
                    then Inr tcUp
                    else if rd tcUp c2 AND levelX2 \<noteq> 0 \<and>
                       rd tcUp hc AND levelX4 \<noteq> rd tcUp c1 AND levelX4
                    then Inr tcUp
                    else
                      (let tcUp = set3 tcUp hc (at3 tcIn hc);
                           tcUp = plusAssign tcUp hc
                             (if rd tcUp hc AND levelX2 \<noteq> 0 then - levelBit else levelBit)
                       in if rd tcUp c1 AND levelX2 \<noteq> 0 then
                            (if rd tcUp c2 AND levelX4 \<noteq> 0
                             then Inr (plusAssign tcUp c1
                                    (if rd tcUp c1 AND levelX4 \<noteq> 0 then levelX2 else - levelX2))
                             else Inr (plusAssign tcUp c1
                                    (if rd tcUp c1 AND levelX4 \<noteq> 0 then - levelX2 else levelX2)))
                          else if asserts \<and> \<not> (rd tcUp c2 AND levelX2 \<noteq> 0)
                          then Inl AssertionFailed
                          else
                            (if rd tcUp c1 AND levelX4 \<noteq> 0
                             then Inr (plusAssign tcUp c2
                                    (if rd tcUp c2 AND levelX4 \<noteq> 0 then levelX2 else - levelX2))
                             else Inr (plusAssign tcUp c2
                                    (if rd tcUp c2 AND levelX4 \<noteq> 0 then - levelX2 else levelX2)))))))"

text \<open>
  \<^verbatim>\<open>subtetCentroids(macroCentroid, subCentroids)\<close> fills the eight children of a centroid
  above the finest level, and throws a logic error at the finest level. A child whose
  secondary coordinate would go negative is marked invalid: all three coordinates are
  set to \<^verbatim>\<open>USHRT_MAX\<close>. The array elements \<^verbatim>\<open>subCentroids[0..7]\<close> are the variables \<open>s0\<close> to
  \<open>s7\<close>; the code addresses elements 2 and 3 through \<^verbatim>\<open>up ? 3 : 2\<close> and \<^verbatim>\<open>up ? 2 : 3\<close>.
  The block under \<^verbatim>\<open>#ifdef _DEBUG\<close>, which asserts that promoting every valid child gives
  the parent back, is not part of the release code.
\<close>

definition markInvalid :: bccTetCentroid where
  "markInvalid = (65535, 65535, 65535)"

definition subtetCentroids :: "bccTetCentroid \<Rightarrow> error + bccTetCentroid list" where
  "subtetCentroids macroCentroid =
     (case centroidHalfAxisSize macroCentroid of
        None \<Rightarrow> Inl LogicError
      | Some (hc, level) \<Rightarrow>
          if level < 2 then Inl LogicError
          else
            (let levelUp = push_bit 1 level;
                 levelDown = drop_bit 1 level;
                 c1 = (hc + 1) mod 3;
                 c2 = (hc + 2) mod 3;
                 up = (rd macroCentroid hc AND levelUp = rd macroCentroid c2 AND levelUp);
                 s0 = plusAssign macroCentroid hc (if up then - levelDown else levelDown);
                 s1 = plusAssign macroCentroid hc (if up then - levelDown else levelDown);
                 s2 = plusAssign macroCentroid hc (if up then levelDown else - levelDown);
                 s3 = plusAssign macroCentroid hc (if up then levelDown else - levelDown);
                 s0 = (if rd s0 c1 < level then markInvalid else plusAssign s0 c1 (- level));
                 s1 = plusAssign s1 c1 level;
                 lo = (if up then s3 else s2);
                 hi = (if up then s2 else s3);
                 lo = (if rd lo c2 < level then markInvalid else plusAssign lo c2 (- level));
                 hi = plusAssign hi c2 level;
                 s2 = (if up then hi else lo);
                 s3 = (if up then lo else hi);
                 s4 = macroCentroid;
                 s4 = (if rd s4 c1 < levelDown then markInvalid else plusAssign s4 c1 (- levelDown));
                 s5 = plusAssign macroCentroid c1 levelDown;
                 s6 = macroCentroid;
                 s6 = (if rd s6 c2 < levelDown then markInvalid else plusAssign s6 c2 (- levelDown));
                 s7 = plusAssign macroCentroid c2 levelDown
             in Inr [s0, s1, s2, s3, s4, s5, s6, s7]))"

section \<open>Lattice store\<close>

text \<open>
  The store holds the index-aligned arrays \<^verbatim>\<open>_tetNodes\<close> (four node indices per
  tetrahedron, a \<^verbatim>\<open>std::array<int, 4>\<close>) and \<^verbatim>\<open>_tetCentroids\<close>, the multi-valued map
  \<^verbatim>\<open>_tetHash\<close> from a centroid to the tetrahedra that share it (a list of its entries, in
  the order an iteration visits them), the tetrahedron of every surface vertex
  \<^verbatim>\<open>_vertexTets\<close>, and the configured number of subdivision levels
  \<^verbatim>\<open>_tetSubdivisionLevels\<close>. A subscript outside an array is undefined behaviour in C++;
  the model reports it as the error \<open>OutOfBounds\<close>.
\<close>

type_synonym tetNodes4 = "int \<times> int \<times> int \<times> int"

fun at4 :: "'a \<times> 'a \<times> 'a \<times> 'a \<Rightarrow> int \<Rightarrow> 'a" where
  "at4 (a, b, c, d) i = (if i = 0 then a else if i = 1 then b else if i = 2 then c else d)"

record vnBccTetrahedra =
  tetNodes :: "tetNodes4 list"
  tetCentroids :: "bccTetCentroid list"
  tetHash :: "(bccTetCentroid \<times> int) list"
  vertexTets :: "int list"
  tetSubdivisionLevels :: int

definition subscript :: "'a list \<Rightarrow> int \<Rightarrow> error + 'a" where
  "subscript xs i = (if 0 \<le> i \<and> nat i < length xs then Inr (xs ! nat i) else Inl OutOfBounds)"

definition equal_range :: "vnBccTetrahedra \<Rightarrow> bccTetCentroid \<Rightarrow> int list" where
  "equal_range st tc = map snd (filter (\<lambda>kv. fst kv = tc) (tetHash st))"

text \<open>
  \<^verbatim>\<open>faceAdjacentMicrotets(tet, face, adjTets)\<close> collects, among the tetrahedra stored under
  the adjacent centroid, those whose three nodes of the adjacent face all occur among
  the three nodes of the queried face. It uses the face number and the centroid that
  \<^verbatim>\<open>faceAdjacentMicrotet\<close> left, whatever they are; the face nodes are
  \<^verbatim>\<open>tn[(face + i) & 3]\<close> for \<open>i = 0, 1, 2\<close>. \<open>scanCandidates\<close> is the \<^verbatim>\<open>while\<close> loop over
  the equal range.
\<close>

definition faceNodeList :: "tetNodes4 \<Rightarrow> int \<Rightarrow> int list" where
  "faceNodeList tn face = map (\<lambda>i. at4 tn ((face + i) AND 3)) [0, 1, 2]"

fun scanCandidates :: "vnBccTetrahedra \<Rightarrow> int set \<Rightarrow> int \<Rightarrow> int list \<Rightarrow> error + int list" where
  "scanCandidates st faceNodes adjFace [] = Inr []"
| "scanCandidates st faceNodes adjFace (t # ts) =
     (case subscript (tetNodes st) t of
        Inl e \<Rightarrow> Inl e
      | Inr tn \<Rightarrow>
          (case scanCandidates st faceNodes adjFace ts of
             Inl e \<Rightarrow> Inl e
           | Inr adjTets \<Rightarrow>
               if \<forall>n \<in> set (faceNodeList tn adjFace). n \<in> faceNodes
               then Inr (t # adjTets) else Inr adjTets))"

definition faceAdjacentMicrotets :: "vnBccTetrahedra \<Rightarrow> int \<Rightarrow> int \<Rightarrow> error + int \<times> int list" where
  "faceAdjacentMicrotets st tet face =
     (case subscript (tetCentroids st) tet of
        Inl e \<Rightarrow> Inl e
      | Inr tc \<Rightarrow>
          (let (adjFace, tcAdj) = faceAdjacentMicrotet tc face
           in case subscript (tetNodes st) tet of
                Inl e \<Rightarrow> Inl e
              | Inr tn \<Rightarrow>
                  (let faceNodes = set (faceNodeList tn face)
                   in case scanCandidates st faceNodes adjFace (equal_range st tcAdj) of
                        Inl e \<Rightarrow> Inl e
                      | Inr adjTets \<Rightarrow> Inr (adjFace, adjTets))))"

text \<open>
  The cut scenario of the spec's virtual-node isolation property: tetrahedron 0 with
  centroid \<open>(1, 2, 0)\<close> on the nodes 0, 1, 2, 3; across its face 1 lies the centroid
  \<open>(2, 3, 0)\<close>, stored twice, as tetrahedron 1 on the nodes 3, 2, 4, 1 (its face 3 has
  the nodes 1, 2, 3 of the queried face) and as the duplicate 2 on the disjoint nodes
  10, 11, 12, 13.
\<close>

definition cut_store :: vnBccTetrahedra where
  "cut_store =
     \<lparr>tetNodes = [(0, 1, 2, 3), (3, 2, 4, 1), (10, 11, 12, 13)],
      tetCentroids = [(1, 2, 0), (2, 3, 0), (2, 3, 0)],
      tetHash = [((1, 2, 0), 0), ((2, 3, 0), 2), ((2, 3, 0), 1)],
      vertexTets = [0], tetSubdivisionLevels = 1\<rparr>"

section \<open>Auxiliary notions for the proofs\<close>

text \<open>
  \<open>shift3 tc a b c\<close> adds an offset to each coordinate of a centroid, modulo \<open>2 ^ 16\<close>.
  Every sequence of compound assignments on a centroid is one such shift.
\<close>

definition shift3 :: "bccTetCentroid \<Rightarrow> int \<Rightarrow> int \<Rightarrow> int \<Rightarrow> bccTetCentroid" where
  "shift3 tc a b c =
     (word_of_int (rd tc 0 + a), word_of_int (rd tc 1 + b), word_of_int (rd tc 2 + c))"

text \<open>
  \<open>scaled k n\<close> is \<open>n\<close> in units of \<open>2 ^ k\<close>: the coordinates of a centroid of size
  \<open>2 ^ k\<close> and the offsets the code adds to them are multiples of this unit.
\<close>

definition scaled :: "nat \<Rightarrow> int \<Rightarrow> int" where
  "scaled k n = 2 ^ k * n"

text \<open>
  \<open>unit8 k q r\<close> is the coordinate \<open>8 * q + r\<close> in units of \<open>2 ^ k\<close>: the residue \<open>r\<close>
  modulo 8 holds the three bits that the promotion and subdivision code tests.
\<close>

definition unit8 :: "nat \<Rightarrow> int \<Rightarrow> int \<Rightarrow> int" where
  "unit8 k q r = scaled k (8 * q + r)"

text \<open>
  What crossing a face computes when the coordinates are integers. \<open>coords tc\<close> reads the
  three coordinates of a centroid as \<^verbatim>\<open>int\<close>s and \<open>addAt p i d\<close> is \<^verbatim>\<open>p[i] += d\<close> on a triple
  of integers. \<open>faceAdjacentMicrotet_unbounded\<close> and \<open>faceAdjacentCentroid_unbounded\<close> take
  the branches of \<^verbatim>\<open>faceAdjacentMicrotet\<close> and \<^verbatim>\<open>faceAdjacentCentroid\<close> (half axis, up or
  down tetrahedron, face group, all read from the argument \<^verbatim>\<open>tc\<close> as the code reads them) and
  apply the increments and decrements of the branch, but to integers: nothing is
  converted back to \<^verbatim>\<open>unsigned short\<close> and no boundary test cuts the computation short.
  A coordinate that the shift of the branch takes below zero is a negative number here.
  \<open>below_zero p\<close> says that some coordinate of \<open>p\<close> is negative, \<open>in_octant p\<close> that none is,
  and \<open>stored p\<close> is \<open>p\<close> written to a \<^verbatim>\<open>bccTetCentroid\<close>.
\<close>

definition coords :: "bccTetCentroid \<Rightarrow> int \<times> int \<times> int" where
  "coords tc = (rd tc 0, rd tc 1, rd tc 2)"

definition addAt :: "int \<times> int \<times> int \<Rightarrow> nat \<Rightarrow> int \<Rightarrow> int \<times> int \<times> int" where
  "addAt p i d = set3 p i (at3 p i + d)"

definition below_zero :: "int \<times> int \<times> int \<Rightarrow> bool" where
  "below_zero p = (at3 p 0 < 0 \<or> at3 p 1 < 0 \<or> at3 p 2 < 0)"

definition in_octant :: "int \<times> int \<times> int \<Rightarrow> bool" where
  "in_octant p = (0 \<le> at3 p 0 \<and> 0 \<le> at3 p 1 \<and> 0 \<le> at3 p 2)"

definition stored :: "int \<times> int \<times> int \<Rightarrow> bccTetCentroid" where
  "stored p = (word_of_int (at3 p 0), word_of_int (at3 p 1), word_of_int (at3 p 2))"

definition faceAdjacentMicrotet_unbounded :: "bccTetCentroid \<Rightarrow> int \<Rightarrow> int \<times> int \<times> int" where
  "faceAdjacentMicrotet_unbounded tc face =
     (let p = coords tc;
          ha = (if rd tc 0 AND 1 \<noteq> 0 then 0 else if rd tc 1 AND 1 \<noteq> 0 then 1 else 2);
          aha = (ha + 1) mod 3
      in if drop_bit 1 (rd tc ha + rd tc aha) AND 1 \<noteq> 0 then
           (if face < 1 \<or> face > 2 then
              (let p = addAt p ha (-1);
                   aha = (ha + 2) mod 3
               in addAt p aha (if face < 1 then 1 else -1))
            else
              (let p = addAt p ha 1
               in addAt p aha (if face < 2 then 1 else -1)))
         else
           (if face < 1 \<or> face > 2 then
              (let p = addAt p ha 1;
                   aha = (ha + 2) mod 3
               in addAt p aha (if face < 1 then -1 else 1))
            else
              (let p = addAt p ha (-1)
               in addAt p aha (if face < 2 then 1 else -1))))"

definition faceAdjacentCentroid_unbounded ::
  "bccTetCentroid \<Rightarrow> nat \<Rightarrow> int \<Rightarrow> int \<Rightarrow> int \<times> int \<times> int" where
  "faceAdjacentCentroid_unbounded tc ha sz face =
     (let p = addAt (coords tc) ha (- sz)
      in if face < 1 \<or> face > 2 then
           (let aha = (ha + 2) mod 3;
                p = addAt p aha sz
            in if drop_bit 1 (rd tc ha + rd tc aha) AND sz \<noteq> 0 then
                 (let p = addAt p ha (2 * sz)
                  in if face < sz then addAt p aha (- (2 * sz)) else p)
               else
                 (if face > 2 then addAt p aha (- (2 * sz)) else p))
         else
           (let aha = (ha + 1) mod 3;
                p = addAt p aha sz;
                p = (if face > 1 then addAt p aha (- (2 * sz)) else p)
            in if drop_bit 1 (rd tc ha + rd tc aha) AND sz \<noteq> 0 then addAt p ha (2 * sz)
               else p))"

text \<open>
  \<open>ishift tc a b c\<close> is the integer triple of the coordinates of \<open>tc\<close> with an offset added
  to each: the normal form of a sequence of \<open>addAt\<close> on \<open>coords tc\<close>.
\<close>

definition ishift :: "bccTetCentroid \<Rightarrow> int \<Rightarrow> int \<Rightarrow> int \<Rightarrow> int \<times> int \<times> int" where
  "ishift tc a b c = (rd tc 0 + a, rd tc 1 + b, rd tc 2 + c)"

section \<open>Node positions of a centroid\<close>

text \<open>
  \<^verbatim>\<open>centroidToNodeLoci(centroid, gridLoci)\<close> fills \<^verbatim>\<open>short gridLoci[4][3]\<close>, the lattice
  positions of the four nodes. A \<^verbatim>\<open>short\<close> is a 16-bit word read as two's complement
  (\<open>sint\<close>); the assignment of an \<^verbatim>\<open>unsigned short\<close> to a \<^verbatim>\<open>short\<close> keeps the 16 bits, and a
  compound assignment on a \<^verbatim>\<open>short\<close> computes in \<^verbatim>\<open>int\<close> and keeps the low 16 bits of
  the result. The rows \<^verbatim>\<open>gridLoci[0..3]\<close> are the variables \<open>g0\<close> to \<open>g3\<close>.
  \<open>centroidToNodeLoci_doubled\<close> is the array before the final loop, which halves every
  entry: \<^verbatim>\<open>gridLoci[j][i] *= 0.5f\<close> converts the \<^verbatim>\<open>short\<close> to \<^verbatim>\<open>float\<close> (exactly), halves it
  (exactly) and converts back, which truncates towards zero.
\<close>

type_synonym short3 = "16 word \<times> 16 word \<times> 16 word"

definition sn :: "short3 \<Rightarrow> nat \<Rightarrow> int" where
  "sn g i = sint (at3 g i)"

definition plusAssignShort :: "short3 \<Rightarrow> nat \<Rightarrow> int \<Rightarrow> short3" where
  "plusAssignShort g i d = set3 g i (word_of_int (sn g i + d))"

definition trunc_half :: "int \<Rightarrow> int" where
  "trunc_half y = (if 0 \<le> y then y div 2 else - ((- y) div 2))"

definition halve :: "short3 \<Rightarrow> short3" where
  "halve g = (word_of_int (trunc_half (sn g 0)), word_of_int (trunc_half (sn g 1)),
     word_of_int (trunc_half (sn g 2)))"

definition centroidToNodeLoci_doubled :: "bccTetCentroid \<Rightarrow> error + short3 list" where
  "centroidToNodeLoci_doubled centroid =
     (case centroidHalfAxisSize centroid of
        None \<Rightarrow> Inl LogicError
      | Some (hc, sz) \<Rightarrow>
          (let levelUpBit = push_bit 1 sz;
               c1 = (if hc < 2 then hc + 1 else 0);
               c2 = (if hc > 0 then hc - 1 else 2);
               g0 = centroid; g1 = centroid; g2 = centroid; g3 = centroid;
               (g0, g1, g2, g3) =
                 (if rd centroid hc AND levelUpBit = rd centroid c2 AND levelUpBit then
                    (let g0 = plusAssignShort g0 hc (- sz);
                         g1 = plusAssignShort g1 hc (- sz);
                         g2 = plusAssignShort g2 hc sz;
                         g3 = plusAssignShort g3 hc sz;
                         g2 = plusAssignShort g2 c2 levelUpBit;
                         g3 = plusAssignShort g3 c2 (- levelUpBit)
                     in (g0, g1, g2, g3))
                  else
                    (let g0 = plusAssignShort g0 hc sz;
                         g1 = plusAssignShort g1 hc sz;
                         g2 = plusAssignShort g2 hc (- sz);
                         g3 = plusAssignShort g3 hc (- sz);
                         g2 = plusAssignShort g2 c2 (- levelUpBit);
                         g3 = plusAssignShort g3 c2 levelUpBit
                     in (g0, g1, g2, g3)));
               g0 = plusAssignShort g0 c1 (- levelUpBit);
               g1 = plusAssignShort g1 c1 levelUpBit
           in Inr [g0, g1, g2, g3]))"

definition centroidToNodeLoci :: "bccTetCentroid \<Rightarrow> error + short3 list" where
  "centroidToNodeLoci centroid =
     (case centroidToNodeLoci_doubled centroid of
        Inl e \<Rightarrow> Inl e
      | Inr g \<Rightarrow> Inr (map halve g))"

text \<open>
  \<open>node_sum nodes i\<close> is the sum of coordinate \<open>i\<close> over the four nodes; the average of
  the nodes is the centroid code divided by 2 when this sum is twice the code.
\<close>

definition node_sum :: "short3 list \<Rightarrow> nat \<Rightarrow> int" where
  "node_sum nodes i = sum_list (map (\<lambda>g. sn g i) nodes)"

text \<open>
  \<open>exact_nodes c g\<close>, for the array \<open>g\<close> before the halving: there are four rows, every
  entry is even and is twice the halved entry, and over the four halved rows every
  coordinate sums to twice the centroid code (the average is the code divided by 2).
\<close>

definition exact_nodes :: "bccTetCentroid \<Rightarrow> short3 list \<Rightarrow> bool" where
  "exact_nodes c g =
     (length g = 4 \<and>
      (\<forall>row\<in>set g. \<forall>i\<in>{0, 1, 2}. even (sn row i) \<and> 2 * sn (halve row) i = sn row i) \<and>
      (\<forall>i\<in>{0, 1, 2}. node_sum (map halve g) i = 2 * rd c i))"

section \<open>Point location: the promotion loops\<close>




text \<open>
  \<^verbatim>\<open>vertexSolidLinePath\<close> starts with the same search for the target centroid, bounded by
  the configured \<^verbatim>\<open>_tetSubdivisionLevels\<close>:

  \<^verbatim>\<open>auto targetTets = _tetHash.equal_range(tc); int targetSize = 1;\<close>
  \<^verbatim>\<open>while (targetTets.first == targetTets.second) { tc = centroidUpOneLevel(tc);\<close>
  \<^verbatim>\<open>  ++targetSize; if (targetSize > _tetSubdivisionLevels) throw(std::logic_error(...)); }\<close>

  The body never assigns \<^verbatim>\<open>targetTets\<close>, so the condition of the loop does not change:
  once entered, the loop ends only by an exception. \<open>targetLoop\<close> is the loop after its
  condition has held once.
\<close>

function targetLoop ::
  "bool \<Rightarrow> vnBccTetrahedra \<Rightarrow> bccTetCentroid \<Rightarrow> int \<Rightarrow> nat \<Rightarrow> error \<times> nat" where
  "targetLoop asserts st tc targetSize n =
     (case centroidUpOneLevel asserts tc of
        Inl e \<Rightarrow> (e, Suc n)
      | Inr tc' \<Rightarrow>
          if targetSize + 1 > tetSubdivisionLevels st then (LogicError, Suc n)
          else targetLoop asserts st tc' (targetSize + 1) (Suc n))"
  by pat_completeness auto
termination
  by (relation "measure (\<lambda>(asserts, st, tc, targetSize, n).
        nat (tetSubdivisionLevels st - targetSize))") auto

declare targetLoop.simps [simp del]

definition vertexSolidLinePath_target ::
  "bool \<Rightarrow> vnBccTetrahedra \<Rightarrow> bccTetCentroid \<Rightarrow> (error + int list) \<times> nat" where
  "vertexSolidLinePath_target asserts st tc =
     (let targetTets = equal_range st tc
      in if targetTets = [] then
           (case targetLoop asserts st tc 1 0 of (e, n) \<Rightarrow> (Inl e, n))
         else (Inr targetTets, 0))"

section \<open>Point location: the solid line path\<close>

text \<open>
  The rest of \<^verbatim>\<open>vertexSolidLinePath\<close> walks from the tetrahedron of the start vertex
  towards the target. Its geometry is floating-point arithmetic on \<^verbatim>\<open>Vec3f\<close> and
  \<^verbatim>\<open>Mat3x3f\<close> (\<^verbatim>\<open>Robust_Solve_Linear_System\<close>, not among the sources); the model takes it
  as parameters and keeps the control flow. For a type \<open>'p\<close> of line parameters:
  \<^item> \<open>isect gl p\<close> is the face loop of the lambda \<^verbatim>\<open>tetIntersect\<close> on the node loci \<open>gl\<close>:
    \<open>Some (face, p')\<close> when a face with a line parameter above \<open>p\<close> is hit, \<open>None\<close> when
    the lambda returns \<^verbatim>\<open>false\<close>;
  \<^item> \<open>lt1 p\<close> and \<open>gt1 p\<close> are the comparisons \<^verbatim>\<open>p < 1.0f\<close> and \<^verbatim>\<open>p > 1.0f\<close>;
  \<^item> \<open>p0\<close> is the initial \<^verbatim>\<open>0.0f\<close>.
\<close>

record 'p lineOps =
  isect :: "short3 list \<Rightarrow> 'p \<Rightarrow> (int \<times> 'p) option"
  lt1 :: "'p \<Rightarrow> bool"
  gt1 :: "'p \<Rightarrow> bool"
  p0 :: 'p

text \<open>
  \<^verbatim>\<open>tetIntersect(tet, tetSize, tetFace, lineParam)\<close> reads the centroid of \<open>tet\<close>, computes
  its node loci, sets \<open>tetSize\<close> from the first coordinate in which nodes 0 and 1 differ
  (\<^verbatim>\<open>(gl[1][i] - gl[0][i]) >> 1\<close>; it keeps the old value when there is none) and runs
  the face loop.
\<close>

definition tetSizeOf :: "short3 list \<Rightarrow> int \<Rightarrow> int" where
  "tetSizeOf gl tetSize =
     (if sn (gl ! 0) 0 \<noteq> sn (gl ! 1) 0 then drop_bit 1 (sn (gl ! 1) 0 - sn (gl ! 0) 0)
      else if sn (gl ! 0) 1 \<noteq> sn (gl ! 1) 1 then drop_bit 1 (sn (gl ! 1) 1 - sn (gl ! 0) 1)
      else if sn (gl ! 0) 2 \<noteq> sn (gl ! 1) 2 then drop_bit 1 (sn (gl ! 1) 2 - sn (gl ! 0) 2)
      else tetSize)"

definition tetIntersect ::
  "vnBccTetrahedra \<Rightarrow> 'p lineOps \<Rightarrow> int \<Rightarrow> int \<Rightarrow> 'p \<Rightarrow> error + (int \<times> int \<times> 'p) option" where
  "tetIntersect st ops tet tetSize p =
     (case subscript (tetCentroids st) tet of
        Inl e \<Rightarrow> Inl e
      | Inr c \<Rightarrow>
          (case centroidToNodeLoci c of
             Inl e \<Rightarrow> Inl e
           | Inr gl \<Rightarrow>
               (case isect ops gl p of
                  None \<Rightarrow> Inr None
                | Some (tetFace, lineParam) \<Rightarrow> Inr (Some (tetSizeOf gl tetSize, tetFace, lineParam)))))"

text \<open>
  When the adjacent centroid is not populated the code looks up the hierarchy,

  \<^verbatim>\<open>do { tc = centroidUpOneLevel(tc); tit = _tetHash.find(tc); ++count; }\<close>
  \<^verbatim>\<open>while (count <= _tetSubdivisionLevels && tit == _tetHash.end());\<close>

  and, when nothing is found, calls \<^verbatim>\<open>subtetCentroids(tcAdj, subC8)\<close>, which throws at the
  finest level. Whatever it finds is not used: the equal range \<^verbatim>\<open>pr\<close> is still empty and
  the code returns \<open>-1\<close> right after. \<open>lookUp\<close> is the loop; it returns what \<^verbatim>\<open>find\<close> found
  last.
\<close>

function lookUp ::
  "bool \<Rightarrow> vnBccTetrahedra \<Rightarrow> bccTetCentroid \<Rightarrow> int \<Rightarrow> error + int list" where
  "lookUp asserts st tc count =
     (case centroidUpOneLevel asserts tc of
        Inl e \<Rightarrow> Inl e
      | Inr tc' \<Rightarrow>
          if count + 1 \<le> tetSubdivisionLevels st \<and> equal_range st tc' = []
          then lookUp asserts st tc' (count + 1)
          else Inr (equal_range st tc'))"
  by pat_completeness auto
termination
  by (relation "measure (\<lambda>(asserts, st, tc, count). nat (tetSubdivisionLevels st - count))") auto

declare lookUp.simps [simp del]

definition lookUpThenDown :: "bool \<Rightarrow> vnBccTetrahedra \<Rightarrow> bccTetCentroid \<Rightarrow> error + unit" where
  "lookUpThenDown asserts st tcAdj =
     (case lookUp asserts st tcAdj 1 of
        Inl e \<Rightarrow> Inl e
      | Inr tit \<Rightarrow>
          if tit \<noteq> [] then Inr ()
          else (case subtetCentroids tcAdj of Inl e \<Rightarrow> Inl e | Inr subC8 \<Rightarrow> Inr ()))"

text \<open>
  The scan of a populated equal range stops at the first tetrahedron that has a node in
  \<open>nodeSet\<close>, the nodes of the tetrahedron of the start vertex; \<^verbatim>\<open>assert(false)\<close> guards a
  case the code has not written (\<^verbatim>\<open>sizeNow > 3\<close>).
\<close>

fun scanShared ::
  "bool \<Rightarrow> vnBccTetrahedra \<Rightarrow> int list \<Rightarrow> int \<Rightarrow> int list \<Rightarrow> error + int option" where
  "scanShared asserts st nodeSet sizeNow [] = Inr None"
| "scanShared asserts st nodeSet sizeNow (t # ts) =
     (case subscript (tetNodes st) t of
        Inl e \<Rightarrow> Inl e
      | Inr tn2 \<Rightarrow>
          if asserts \<and> sizeNow > 3 then Inl AssertionFailed
          else if at4 tn2 0 \<in> set nodeSet \<or> at4 tn2 1 \<in> set nodeSet \<or>
                  at4 tn2 2 \<in> set nodeSet \<or> at4 tn2 3 \<in> set nodeSet
          then Inr (Some t)
          else scanShared asserts st nodeSet sizeNow ts)"

text \<open>
  \<open>walk\<close> is the loop \<^verbatim>\<open>while (p < 1.0f)\<close> with the two returns after it. Nothing in the
  code bounds the number of its iterations, so the model takes fuel and returns \<open>None\<close>
  when the fuel is used up. The face returned by \<^verbatim>\<open>faceAdjacentCentroid\<close> is not looked
  at, also when it is the boundary value. The assignment of \<^verbatim>\<open>tetNow\<close> when the equal
  range has one element is overwritten before it is read.
\<close>

fun walk ::
  "bool \<Rightarrow> vnBccTetrahedra \<Rightarrow> 'p lineOps \<Rightarrow> int list \<Rightarrow> nat \<Rightarrow> int \<Rightarrow> int \<Rightarrow> int \<Rightarrow> 'p \<Rightarrow>
     (error + int) option" where
  "walk asserts st ops nodeSet 0 tetNow sizeNow face p = None"
| "walk asserts st ops nodeSet (Suc fuel) tetNow sizeNow face p =
     (if \<not> lt1 ops p then Some (Inr (if gt1 ops p then tetNow else - 1))
      else
        (case subscript (tetCentroids st) tetNow of
           Inl e \<Rightarrow> Some (Inl e)
         | Inr tcNow \<Rightarrow>
             (case faceAdjacentCentroid tcNow face of
                Inl e \<Rightarrow> Some (Inl e)
              | Inr (adjFace, tcAdj) \<Rightarrow>
                  (let pr = equal_range st tcAdj
                   in case (if pr = [] then lookUpThenDown asserts st tcAdj else Inr ()) of
                        Inl e \<Rightarrow> Some (Inl e)
                      | Inr u \<Rightarrow>
                          (case scanShared asserts st nodeSet sizeNow pr of
                             Inl e \<Rightarrow> Some (Inl e)
                           | Inr None \<Rightarrow> Some (Inr (- 1))
                           | Inr (Some t) \<Rightarrow>
                               (case tetIntersect st ops t sizeNow p of
                                  Inl e \<Rightarrow> Some (Inl e)
                                | Inr None \<Rightarrow> Some (Inr (- 1))
                                | Inr (Some (sizeNow', face', p')) \<Rightarrow>
                                    walk asserts st ops nodeSet fuel t sizeNow' face' p'))))))"

text \<open>
  \<^verbatim>\<open>vertexSolidLinePath(vertex, materialTarget)\<close>, with the finest-level centroid \<open>tc\<close> of
  the target as computed by \<^verbatim>\<open>gridLocusToLowestTetCentroid\<close>. The local \<^verbatim>\<open>sizeNow\<close> is not
  initialised by the code; \<open>sizeNow0\<close> is the value it happens to hold. The result is the
  returned \<^verbatim>\<open>int\<close>: a tetrahedron index, or \<open>-1\<close>.
\<close>

definition vertexSolidLinePath ::
  "bool \<Rightarrow> vnBccTetrahedra \<Rightarrow> 'p lineOps \<Rightarrow> bccTetCentroid \<Rightarrow> int \<Rightarrow> int \<Rightarrow> nat \<Rightarrow>
     (error + int) option" where
  "vertexSolidLinePath asserts st ops tc vertex sizeNow0 fuel =
     (case fst (vertexSolidLinePath_target asserts st tc) of
        Inl e \<Rightarrow> Some (Inl e)
      | Inr targetTets \<Rightarrow>
          if length targetTets = 1 then Some (Inr (hd targetTets))
          else
            (case subscript (vertexTets st) vertex of
               Inl e \<Rightarrow> Some (Inl e)
             | Inr tetNow \<Rightarrow>
                 (case subscript (tetNodes st) tetNow of
                    Inl e \<Rightarrow> Some (Inl e)
                  | Inr tn \<Rightarrow>
                      (let nodeSet = [at4 tn 0, at4 tn 1, at4 tn 2, at4 tn 3]
                       in case tetIntersect st ops tetNow sizeNow0 (p0 ops) of
                            Inl e \<Rightarrow> Some (Inl e)
                          | Inr None \<Rightarrow> Some (Inr (- 1))
                          | Inr (Some (sizeNow, face, p)) \<Rightarrow>
                              walk asserts st ops nodeSet fuel tetNow sizeNow face p))))"

text \<open>
  A store with a virtual-noded junction away from the start: the start vertex lies in
  tetrahedron 0 (centroid \<open>(1, 2, 0)\<close>, nodes 0 to 3); the centroid \<open>(2, 3, 0)\<close> across its
  face 1 is stored twice, as the tetrahedra 1 and 2, on nodes that tetrahedron 0 does
  not have. The target lies in that centroid. \<open>junction_ops\<close> lets the segment leave
  tetrahedron 0 through face 1 at the line parameter one half (in thousandths).
\<close>

definition junction_store :: vnBccTetrahedra where
  "junction_store =
     \<lparr>tetNodes = [(0, 1, 2, 3), (10, 11, 12, 13), (20, 21, 22, 23)],
      tetCentroids = [(1, 2, 0), (2, 3, 0), (2, 3, 0)],
      tetHash = [((1, 2, 0), 0), ((2, 3, 0), 1), ((2, 3, 0), 2)],
      vertexTets = [0], tetSubdivisionLevels = 1\<rparr>"

definition junction_ops :: "int lineOps" where
  "junction_ops =
     \<lparr>isect = (\<lambda>gl p. if p < 500 then Some (1, 500) else None),
      lt1 = (\<lambda>p. p < 1000), gt1 = (\<lambda>p. p > 1000), p0 = 0\<rparr>"

section \<open>Bit tests, coordinate reads and coordinate updates\<close>

lemma and_pow2_int: "(a::int) AND 2 ^ k = (if bit a k then 2 ^ k else 0)"
  by (rule bit_eqI) (auto simp add: bit_and_iff bit_exp_iff)

lemma and_one_int: "(a::int) AND 1 = (if odd a then 1 else 0)"
  using and_pow2_int [of a 0] by (simp add: bit_0)

lemma and_two_int: "(a::int) AND 2 = (if odd (a div 2) then 2 else 0)"
  using and_pow2_int [of a 1] by (simp add: bit_iff_odd)

lemma and_four_int: "(a::int) AND 4 = (if odd (a div 4) then 4 else 0)"
  using and_pow2_int [of a 2] by (simp add: bit_iff_odd)

lemma rd_range: "0 \<le> rd tc i" "rd tc i < 65536"
  using uint_bounded [of "at3 tc i"] by (simp_all add: rd_def)

lemma Suc_Suc_0_eq_2: "Suc (Suc 0) = 2"
  by simp

lemma plusAssign_shift3:
  "plusAssign tc 0 d = shift3 tc d 0 0"
  "plusAssign tc (Suc 0) d = shift3 tc 0 d 0"
  "plusAssign tc 2 d = shift3 tc 0 0 d"
  by (cases tc; simp add: plusAssign_def shift3_def rd_def)+

lemma shift3_shift3: "shift3 (shift3 tc a b c) a' b' c' = shift3 tc (a + a') (b + b') (c + c')"
  by (simp add: shift3_def rd_def add.assoc)

lemma rd_shift3:
  "rd (shift3 tc a b c) 0 = (rd tc 0 + a) mod 65536"
  "rd (shift3 tc a b c) (Suc 0) = (rd tc (Suc 0) + b) mod 65536"
  "rd (shift3 tc a b c) 2 = (rd tc 2 + c) mod 65536"
  by (simp_all add: shift3_def rd_def uint_word_ariths uint_word_of_int take_bit_eq_mod mod_simps)

lemma shift3_zero: "shift3 tc 0 0 0 = tc"
  by (cases tc) (simp add: shift3_def rd_def)

lemmas pa_simps = Suc_Suc_0_eq_2 plusAssign_shift3 shift3_shift3 rd_shift3 shift3_zero

section \<open>Decoding a centroid\<close>

lemma loop_size_le:
  "halfAxisSize_loop n s tc = Some (h, s') \<Longrightarrow> 0 < s \<Longrightarrow> s \<le> s'"
proof (induction n arbitrary: s)
  case 0
  then show ?case by simp
next
  case (Suc n)
  show ?case
  proof (cases "halfAxisSize_loop (Suc n) s tc = halfAxisSize_loop n (push_bit 1 s) tc")
    case True
    with Suc.prems have "halfAxisSize_loop n (push_bit 1 s) tc = Some (h, s')" by simp
    from Suc.IH [OF this] Suc.prems(2) show ?thesis by (simp add: push_bit_eq_mult)
  next
    case False
    with Suc.prems show ?thesis by (auto split: if_splits)
  qed
qed

lemma loop_unfold:
  "0 < n \<Longrightarrow> halfAxisSize_loop n s tc =
     (if rd tc 0 AND s \<noteq> 0 then Some (0, s)
      else if rd tc 1 AND s \<noteq> 0 then Some (1, s)
      else if rd tc 2 AND s \<noteq> 0 then Some (2, s)
      else halfAxisSize_loop (n - 1) (push_bit 1 s) tc)"
  by (cases n) simp_all

lemma micro_half_axis:
  assumes "centroidHalfAxisSize tc = Some (hc, 1)"
  shows "hc = (if odd (rd tc 0) then 0 else if odd (rd tc 1) then 1 else 2) \<and> odd (rd tc hc)"
proof -
  have "halfAxisSize_loop 15 (push_bit 1 1) tc \<noteq> Some (hc, 1)"
    using loop_size_le [of 15 "push_bit 1 1" tc hc 1] by auto
  then show ?thesis
    using assms unfolding centroidHalfAxisSize_def
    by (subst (asm) loop_unfold) (auto simp add: and_one_int split: if_splits)
qed

lemma micro_facts:
  assumes v: "valid_centroid tc" and h: "centroidHalfAxisSize tc = Some (hc, 1)"
  shows "hc = 0 \<or> hc = 1 \<or> hc = 2" "odd (rd tc hc)"
    "even (rd tc ((hc + 1) mod 3))" "even (rd tc ((hc + 2) mod 3))"
    "odd (rd tc ((hc + 1) mod 3) div 2) \<noteq> odd (rd tc ((hc + 2) mod 3) div 2)"
  using v h micro_half_axis [OF h]
  by (auto simp add: valid_centroid_def and_one_int and_two_int split: if_splits)

lemma mod16_upper:
  fixes y :: int
  assumes "65536 \<le> y" "y < 131072"
  shows "y mod 65536 = y - 65536"
proof -
  have "(y - 65536) mod 65536 = y - 65536"
    using assms by (intro mod_pos_pos_trivial) linarith+
  then show ?thesis by (simp only: minus_mod_self2)
qed

lemma add_guard:
  fixes x s :: int
  assumes "0 \<le> x" "x < 65536" "0 < s" "s \<le> 32768"
  shows "((x + s) mod 65536 < 2 * s) = (x < s \<or> 65536 \<le> x + s)"
proof (cases "x + s < 65536")
  case True
  with assms have "(x + s) mod 65536 = x + s" by simp
  with True show ?thesis by simp
next
  case False
  with assms have "(x + s) mod 65536 = x + s - 65536"
    by (intro mod16_upper) linarith+
  with False assms show ?thesis by simp
qed

lemma face_adjacent_agree_axis0:
  assumes h: "centroidHalfAxisSize tc = Some (0, 1)"
    and p: "odd (rd tc 0)" "even (rd tc 1)" "even (rd tc 2)"
      "odd (rd tc 1 div 2) \<noteq> odd (rd tc 2 div 2)"
  shows "case faceAdjacentCentroid tc face of
           Inl e \<Rightarrow> False
         | Inr (f2, tc2) \<Rightarrow>
             f2 = fst (faceAdjacentMicrotet tc face) \<and>
             (f2 \<noteq> -1 \<longrightarrow> tc2 = snd (faceAdjacentMicrotet tc face))"
proof -
  note r = rd_range [of tc 0] rd_range [of tc 1] rd_range [of tc 2]
  have u: "odd ((rd tc 0 + rd tc 2) div 2) \<noteq> odd ((rd tc 0 + rd tc 1) div 2)"
    using p by presburger
  have b: "1 \<le> rd tc 0" "rd tc 1 \<le> 65534" "rd tc 2 \<le> 65534"
    using p r by presburger+
  have c1: "face < 1 \<Longrightarrow> odd ((rd tc 0 + rd tc 1) div 2) \<Longrightarrow> ?thesis"
    using p u b r h
    by (simp add: faceAdjacentCentroid_def faceAdjacentMicrotet_def Let_def
          and_one_int drop_bit_eq_div pa_simps)
  have c2: "face < 1 \<Longrightarrow> even ((rd tc 0 + rd tc 1) div 2) \<Longrightarrow> ?thesis"
    using p u b r h
    by (simp add: faceAdjacentCentroid_def faceAdjacentMicrotet_def Let_def
          and_one_int drop_bit_eq_div pa_simps)
  have c3: "face = 1 \<Longrightarrow> odd ((rd tc 0 + rd tc 1) div 2) \<Longrightarrow> ?thesis"
    using p u b r h
    by (simp add: faceAdjacentCentroid_def faceAdjacentMicrotet_def Let_def
          and_one_int drop_bit_eq_div pa_simps)
  have c4: "face = 1 \<Longrightarrow> even ((rd tc 0 + rd tc 1) div 2) \<Longrightarrow> ?thesis"
    using p u b r h
    by (simp add: faceAdjacentCentroid_def faceAdjacentMicrotet_def Let_def
          and_one_int drop_bit_eq_div pa_simps)
  have c5: "face = 2 \<Longrightarrow> odd ((rd tc 0 + rd tc 1) div 2) \<Longrightarrow> ?thesis"
    using p u b r h
    by (simp add: faceAdjacentCentroid_def faceAdjacentMicrotet_def Let_def
          and_one_int drop_bit_eq_div pa_simps)
  have c6: "face = 2 \<Longrightarrow> even ((rd tc 0 + rd tc 1) div 2) \<Longrightarrow> ?thesis"
    using p u b r h
    by (simp add: faceAdjacentCentroid_def faceAdjacentMicrotet_def Let_def
          and_one_int drop_bit_eq_div pa_simps)
  have c7: "face > 2 \<Longrightarrow> odd ((rd tc 0 + rd tc 1) div 2) \<Longrightarrow> ?thesis"
    using p u b r h
    by (simp add: faceAdjacentCentroid_def faceAdjacentMicrotet_def Let_def
          and_one_int drop_bit_eq_div pa_simps)
  have c8: "face > 2 \<Longrightarrow> even ((rd tc 0 + rd tc 1) div 2) \<Longrightarrow> ?thesis"
    using p u b r h
    by (simp add: faceAdjacentCentroid_def faceAdjacentMicrotet_def Let_def
          and_one_int drop_bit_eq_div pa_simps)
  have "face < 1 \<or> face = 1 \<or> face = 2 \<or> face > 2"
    by linarith
  with c1 c2 c3 c4 c5 c6 c7 c8 show ?thesis
    by blast
qed

lemma face_adjacent_agree_axis1:
  assumes h: "centroidHalfAxisSize tc = Some (1, 1)"
    and p: "odd (rd tc 1)" "even (rd tc 2)" "even (rd tc 0)"
      "odd (rd tc 2 div 2) \<noteq> odd (rd tc 0 div 2)"
  shows "case faceAdjacentCentroid tc face of
           Inl e \<Rightarrow> False
         | Inr (f2, tc2) \<Rightarrow>
             f2 = fst (faceAdjacentMicrotet tc face) \<and>
             (f2 \<noteq> -1 \<longrightarrow> tc2 = snd (faceAdjacentMicrotet tc face))"
proof -
  note r = rd_range [of tc 0] rd_range [of tc 1] rd_range [of tc 2]
  have u: "odd ((rd tc 1 + rd tc 0) div 2) \<noteq> odd ((rd tc 1 + rd tc 2) div 2)"
    using p by presburger
  have b: "1 \<le> rd tc 1" "rd tc 2 \<le> 65534" "rd tc 0 \<le> 65534"
    using p r by presburger+
  have c1: "face < 1 \<Longrightarrow> odd ((rd tc 1 + rd tc 2) div 2) \<Longrightarrow> ?thesis"
    using p u b r h
    by (simp add: faceAdjacentCentroid_def faceAdjacentMicrotet_def Let_def
          and_one_int drop_bit_eq_div pa_simps)
  have c2: "face < 1 \<Longrightarrow> even ((rd tc 1 + rd tc 2) div 2) \<Longrightarrow> ?thesis"
    using p u b r h
    by (simp add: faceAdjacentCentroid_def faceAdjacentMicrotet_def Let_def
          and_one_int drop_bit_eq_div pa_simps)
  have c3: "face = 1 \<Longrightarrow> odd ((rd tc 1 + rd tc 2) div 2) \<Longrightarrow> ?thesis"
    using p u b r h
    by (simp add: faceAdjacentCentroid_def faceAdjacentMicrotet_def Let_def
          and_one_int drop_bit_eq_div pa_simps)
  have c4: "face = 1 \<Longrightarrow> even ((rd tc 1 + rd tc 2) div 2) \<Longrightarrow> ?thesis"
    using p u b r h
    by (simp add: faceAdjacentCentroid_def faceAdjacentMicrotet_def Let_def
          and_one_int drop_bit_eq_div pa_simps)
  have c5: "face = 2 \<Longrightarrow> odd ((rd tc 1 + rd tc 2) div 2) \<Longrightarrow> ?thesis"
    using p u b r h
    by (simp add: faceAdjacentCentroid_def faceAdjacentMicrotet_def Let_def
          and_one_int drop_bit_eq_div pa_simps)
  have c6: "face = 2 \<Longrightarrow> even ((rd tc 1 + rd tc 2) div 2) \<Longrightarrow> ?thesis"
    using p u b r h
    by (simp add: faceAdjacentCentroid_def faceAdjacentMicrotet_def Let_def
          and_one_int drop_bit_eq_div pa_simps)
  have c7: "face > 2 \<Longrightarrow> odd ((rd tc 1 + rd tc 2) div 2) \<Longrightarrow> ?thesis"
    using p u b r h
    by (simp add: faceAdjacentCentroid_def faceAdjacentMicrotet_def Let_def
          and_one_int drop_bit_eq_div pa_simps)
  have c8: "face > 2 \<Longrightarrow> even ((rd tc 1 + rd tc 2) div 2) \<Longrightarrow> ?thesis"
    using p u b r h
    by (simp add: faceAdjacentCentroid_def faceAdjacentMicrotet_def Let_def
          and_one_int drop_bit_eq_div pa_simps)
  have "face < 1 \<or> face = 1 \<or> face = 2 \<or> face > 2"
    by linarith
  with c1 c2 c3 c4 c5 c6 c7 c8 show ?thesis
    by blast
qed

lemma face_adjacent_agree_axis2:
  assumes h: "centroidHalfAxisSize tc = Some (2, 1)"
    and p: "odd (rd tc 2)" "even (rd tc 0)" "even (rd tc 1)"
      "odd (rd tc 0 div 2) \<noteq> odd (rd tc 1 div 2)"
  shows "case faceAdjacentCentroid tc face of
           Inl e \<Rightarrow> False
         | Inr (f2, tc2) \<Rightarrow>
             f2 = fst (faceAdjacentMicrotet tc face) \<and>
             (f2 \<noteq> -1 \<longrightarrow> tc2 = snd (faceAdjacentMicrotet tc face))"
proof -
  note r = rd_range [of tc 0] rd_range [of tc 1] rd_range [of tc 2]
  have u: "odd ((rd tc 2 + rd tc 1) div 2) \<noteq> odd ((rd tc 2 + rd tc 0) div 2)"
    using p by presburger
  have b: "1 \<le> rd tc 2" "rd tc 0 \<le> 65534" "rd tc 1 \<le> 65534"
    using p r by presburger+
  have c1: "face < 1 \<Longrightarrow> odd ((rd tc 2 + rd tc 0) div 2) \<Longrightarrow> ?thesis"
    using p u b r h
    by (simp add: faceAdjacentCentroid_def faceAdjacentMicrotet_def Let_def
          and_one_int drop_bit_eq_div pa_simps)
  have c2: "face < 1 \<Longrightarrow> even ((rd tc 2 + rd tc 0) div 2) \<Longrightarrow> ?thesis"
    using p u b r h
    by (simp add: faceAdjacentCentroid_def faceAdjacentMicrotet_def Let_def
          and_one_int drop_bit_eq_div pa_simps)
  have c3: "face = 1 \<Longrightarrow> odd ((rd tc 2 + rd tc 0) div 2) \<Longrightarrow> ?thesis"
    using p u b r h
    by (simp add: faceAdjacentCentroid_def faceAdjacentMicrotet_def Let_def
          and_one_int drop_bit_eq_div pa_simps)
  have c4: "face = 1 \<Longrightarrow> even ((rd tc 2 + rd tc 0) div 2) \<Longrightarrow> ?thesis"
    using p u b r h
    by (simp add: faceAdjacentCentroid_def faceAdjacentMicrotet_def Let_def
          and_one_int drop_bit_eq_div pa_simps)
  have c5: "face = 2 \<Longrightarrow> odd ((rd tc 2 + rd tc 0) div 2) \<Longrightarrow> ?thesis"
    using p u b r h
    by (simp add: faceAdjacentCentroid_def faceAdjacentMicrotet_def Let_def
          and_one_int drop_bit_eq_div pa_simps)
  have c6: "face = 2 \<Longrightarrow> even ((rd tc 2 + rd tc 0) div 2) \<Longrightarrow> ?thesis"
    using p u b r h
    by (simp add: faceAdjacentCentroid_def faceAdjacentMicrotet_def Let_def
          and_one_int drop_bit_eq_div pa_simps)
  have c7: "face > 2 \<Longrightarrow> odd ((rd tc 2 + rd tc 0) div 2) \<Longrightarrow> ?thesis"
    using p u b r h
    by (simp add: faceAdjacentCentroid_def faceAdjacentMicrotet_def Let_def
          and_one_int drop_bit_eq_div pa_simps)
  have c8: "face > 2 \<Longrightarrow> even ((rd tc 2 + rd tc 0) div 2) \<Longrightarrow> ?thesis"
    using p u b r h
    by (simp add: faceAdjacentCentroid_def faceAdjacentMicrotet_def Let_def
          and_one_int drop_bit_eq_div pa_simps)
  have "face < 1 \<or> face = 1 \<or> face = 2 \<or> face > 2"
    by linarith
  with c1 c2 c3 c4 c5 c6 c7 c8 show ?thesis
    by blast
qed

text \<open>
  C9. For a valid centroid of the finest level (size 1) and every face argument,
  \<^verbatim>\<open>faceAdjacentCentroid\<close> returns without error, returns the same face number as
  \<^verbatim>\<open>faceAdjacentMicrotet\<close> (so both report the boundary value \<open>-1\<close> on the same inputs),
  and when that number is not \<open>-1\<close> both leave the same adjacent centroid.
\<close>

theorem faceAdjacentCentroid_agrees_on_microtets:
  assumes "valid_centroid tc" and "centroidHalfAxisSize tc = Some (hc, 1)"
  shows "case faceAdjacentCentroid tc face of
           Inl e \<Rightarrow> False
         | Inr (f2, tc2) \<Rightarrow>
             f2 = fst (faceAdjacentMicrotet tc face) \<and>
             (f2 \<noteq> -1 \<longrightarrow> tc2 = snd (faceAdjacentMicrotet tc face))"
proof -
  note m = micro_facts [OF assms]
  from m(1) show ?thesis
  proof (elim disjE)
    assume "hc = 0"
    with m(2-5) assms(2) show ?thesis
      by (intro face_adjacent_agree_axis0) (simp_all add: Suc_Suc_0_eq_2)
  next
    assume "hc = 1"
    with m(2-5) assms(2) show ?thesis
      by (intro face_adjacent_agree_axis1) (simp_all add: Suc_Suc_0_eq_2)
  next
    assume "hc = 2"
    with m(2-5) assms(2) show ?thesis
      by (intro face_adjacent_agree_axis2) (simp_all add: Suc_Suc_0_eq_2)
  qed
qed

theorem faceAdjacentCentroid_agrees_on_microtets_witness:
  "valid_centroid (1, 2, 0) \<and> centroidHalfAxisSize (1, 2, 0) = Some (0, 1) \<and>
   faceAdjacentCentroid (1, 2, 0) 3 = Inr (-1, (0, 2, 1)) \<and>
   fst (faceAdjacentMicrotet (1, 2, 0) 3) = -1 \<and>
   faceAdjacentCentroid (1, 2, 0) 1 = Inr (3, (2, 3, 0)) \<and>
   faceAdjacentMicrotet (1, 2, 0) 1 = (3, (2, 3, 0))"
  using faceAdjacentCentroid_agrees_on_microtets [of "(1, 2, 0)" 0 1]
    faceAdjacentCentroid_agrees_on_microtets [of "(1, 2, 0)" 0 3]
  by code_simp

section \<open>Face adjacency stays inside the non-negative octant\<close>

lemma loop_result:
  "halfAxisSize_loop n s tc = Some (h, s') \<Longrightarrow>
     \<exists>k<n. s' = s * 2 ^ k \<and> h \<le> 2 \<and> rd tc h AND s' \<noteq> 0"
proof (induction n arbitrary: s)
  case 0
  then show ?case by simp
next
  case (Suc n)
  show ?case
  proof (cases "halfAxisSize_loop (Suc n) s tc = halfAxisSize_loop n (push_bit 1 s) tc")
    case True
    with Suc.prems have "halfAxisSize_loop n (push_bit 1 s) tc = Some (h, s')" by simp
    from Suc.IH [OF this] obtain k where "k < n" "s' = push_bit 1 s * 2 ^ k" "h \<le> 2"
      "rd tc h AND s' \<noteq> 0" by blast
    then have "Suc k < Suc n \<and> s' = s * 2 ^ Suc k \<and> h \<le> 2 \<and> rd tc h AND s' \<noteq> 0"
      by (simp add: push_bit_eq_mult)
    then show ?thesis by blast
  next
    case False
    with Suc.prems have "s' = s * 2 ^ 0 \<and> h \<le> 2 \<and> rd tc h AND s' \<noteq> 0"
      by (auto split: if_splits)
    then show ?thesis by blast
  qed
qed

lemma decode_facts:
  assumes "centroidHalfAxisSize tc = Some (h, s)"
  obtains k where "k < 16" "s = 2 ^ k" "h = 0 \<or> h = 1 \<or> h = 2" "bit (rd tc h) k"
proof -
  from loop_result [OF assms [unfolded centroidHalfAxisSize_def]]
  obtain k where k: "k < 16" "s = 2 ^ k" "h \<le> 2" "rd tc h AND s \<noteq> 0"
    by auto
  from k(2,4) have "bit (rd tc h) k"
    by (simp add: and_pow2_int split: if_splits)
  moreover from k(3) have "h = 0 \<or> h = 1 \<or> h = 2" by linarith
  ultimately show thesis using k(1,2) that by blast
qed

lemma bit_lower_bound:
  assumes "bit (x::int) k" "0 \<le> x"
  shows "2 ^ k \<le> x"
proof -
  have "x AND 2 ^ k \<le> x" using assms(2) by (rule AND_upper1)
  with assms(1) show ?thesis by (simp add: and_pow2_int)
qed

lemma decode_size_bounds:
  assumes "centroidHalfAxisSize tc = Some (h, s)"
  shows "0 < s" "s \<le> 32768" "s \<le> rd tc h"
proof -
  from assms obtain k where k: "k < 16" "s = 2 ^ k" "bit (rd tc h) k"
    by (rule decode_facts)
  show "0 < s" using k(2) by simp
  from k(1) have "k \<le> 15" by simp
  then have "(2::int) ^ k \<le> 2 ^ 15" by (rule power_increasing) simp
  then show "s \<le> 32768" using k(2) by simp
  show "s \<le> rd tc h" using bit_lower_bound [OF k(3) rd_range(1)] k(2) by simp
qed

lemma coords_ishift: "coords tc = ishift tc 0 0 0"
  by (simp add: coords_def ishift_def)

lemma addAt_ishift:
  "addAt (ishift tc a b c) 0 d = ishift tc (a + d) b c"
  "addAt (ishift tc a b c) (Suc 0) d = ishift tc a (b + d) c"
  "addAt (ishift tc a b c) 2 d = ishift tc a b (c + d)"
  by (simp_all add: addAt_def ishift_def)

lemma stored_ishift: "stored (ishift tc a b c) = shift3 tc a b c"
  by (simp add: stored_def ishift_def shift3_def)

lemma below_zero_ishift:
  "below_zero (ishift tc a b c) = (rd tc 0 + a < 0 \<or> rd tc 1 + b < 0 \<or> rd tc 2 + c < 0)"
  by (simp add: below_zero_def ishift_def)

lemma in_octant_iff: "in_octant p = (\<not> below_zero p)"
  by (auto simp add: in_octant_def below_zero_def)

lemmas ub_simps = coords_ishift addAt_ishift stored_ishift below_zero_ishift in_octant_iff

lemma micro_unbounded_axis0:
  assumes p: "odd (rd tc 0)"
  shows "case faceAdjacentMicrotet tc face of
           (f2, tc2) \<Rightarrow>
             (f2 = -1) = below_zero (faceAdjacentMicrotet_unbounded tc face) \<and>
             (f2 \<noteq> -1 \<longrightarrow> tc2 = stored (faceAdjacentMicrotet_unbounded tc face))"
proof -
  note r = rd_range [of tc 0] rd_range [of tc 1] rd_range [of tc 2]
  have c1: "face < 1 \<Longrightarrow> odd ((rd tc 0 + rd tc 1) div 2) \<Longrightarrow> ?thesis"
    using p r
    by (simp add: faceAdjacentMicrotet_def faceAdjacentMicrotet_unbounded_def Let_def and_one_int
          drop_bit_eq_div pa_simps ub_simps)
  have c2: "face < 1 \<Longrightarrow> even ((rd tc 0 + rd tc 1) div 2) \<Longrightarrow> ?thesis"
    using p r
    by (simp add: faceAdjacentMicrotet_def faceAdjacentMicrotet_unbounded_def Let_def and_one_int
          drop_bit_eq_div pa_simps ub_simps)
  have c3: "face = 1 \<Longrightarrow> odd ((rd tc 0 + rd tc 1) div 2) \<Longrightarrow> ?thesis"
    using p r
    by (simp add: faceAdjacentMicrotet_def faceAdjacentMicrotet_unbounded_def Let_def and_one_int
          drop_bit_eq_div pa_simps ub_simps)
  have c4: "face = 1 \<Longrightarrow> even ((rd tc 0 + rd tc 1) div 2) \<Longrightarrow> ?thesis"
    using p r
    by (simp add: faceAdjacentMicrotet_def faceAdjacentMicrotet_unbounded_def Let_def and_one_int
          drop_bit_eq_div pa_simps ub_simps)
  have c5: "face = 2 \<Longrightarrow> odd ((rd tc 0 + rd tc 1) div 2) \<Longrightarrow> ?thesis"
    using p r
    by (simp add: faceAdjacentMicrotet_def faceAdjacentMicrotet_unbounded_def Let_def and_one_int
          drop_bit_eq_div pa_simps ub_simps)
  have c6: "face = 2 \<Longrightarrow> even ((rd tc 0 + rd tc 1) div 2) \<Longrightarrow> ?thesis"
    using p r
    by (simp add: faceAdjacentMicrotet_def faceAdjacentMicrotet_unbounded_def Let_def and_one_int
          drop_bit_eq_div pa_simps ub_simps)
  have c7: "face > 2 \<Longrightarrow> odd ((rd tc 0 + rd tc 1) div 2) \<Longrightarrow> ?thesis"
    using p r
    by (simp add: faceAdjacentMicrotet_def faceAdjacentMicrotet_unbounded_def Let_def and_one_int
          drop_bit_eq_div pa_simps ub_simps)
  have c8: "face > 2 \<Longrightarrow> even ((rd tc 0 + rd tc 1) div 2) \<Longrightarrow> ?thesis"
    using p r
    by (simp add: faceAdjacentMicrotet_def faceAdjacentMicrotet_unbounded_def Let_def and_one_int
          drop_bit_eq_div pa_simps ub_simps)
  have "face < 1 \<or> face = 1 \<or> face = 2 \<or> face > 2"
    by linarith
  with c1 c2 c3 c4 c5 c6 c7 c8 show ?thesis
    by (cases "odd ((rd tc 0 + rd tc 1) div 2)") auto
qed

lemma micro_unbounded_axis1:
  assumes p: "even (rd tc 0)" "odd (rd tc 1)"
  shows "case faceAdjacentMicrotet tc face of
           (f2, tc2) \<Rightarrow>
             (f2 = -1) = below_zero (faceAdjacentMicrotet_unbounded tc face) \<and>
             (f2 \<noteq> -1 \<longrightarrow> tc2 = stored (faceAdjacentMicrotet_unbounded tc face))"
proof -
  note r = rd_range [of tc 0] rd_range [of tc 1] rd_range [of tc 2]
  have c1: "face < 1 \<Longrightarrow> odd ((rd tc 1 + rd tc 2) div 2) \<Longrightarrow> ?thesis"
    using p r
    by (simp add: faceAdjacentMicrotet_def faceAdjacentMicrotet_unbounded_def Let_def and_one_int
          drop_bit_eq_div pa_simps ub_simps)
  have c2: "face < 1 \<Longrightarrow> even ((rd tc 1 + rd tc 2) div 2) \<Longrightarrow> ?thesis"
    using p r
    by (simp add: faceAdjacentMicrotet_def faceAdjacentMicrotet_unbounded_def Let_def and_one_int
          drop_bit_eq_div pa_simps ub_simps)
  have c3: "face = 1 \<Longrightarrow> odd ((rd tc 1 + rd tc 2) div 2) \<Longrightarrow> ?thesis"
    using p r
    by (simp add: faceAdjacentMicrotet_def faceAdjacentMicrotet_unbounded_def Let_def and_one_int
          drop_bit_eq_div pa_simps ub_simps)
  have c4: "face = 1 \<Longrightarrow> even ((rd tc 1 + rd tc 2) div 2) \<Longrightarrow> ?thesis"
    using p r
    by (simp add: faceAdjacentMicrotet_def faceAdjacentMicrotet_unbounded_def Let_def and_one_int
          drop_bit_eq_div pa_simps ub_simps)
  have c5: "face = 2 \<Longrightarrow> odd ((rd tc 1 + rd tc 2) div 2) \<Longrightarrow> ?thesis"
    using p r
    by (simp add: faceAdjacentMicrotet_def faceAdjacentMicrotet_unbounded_def Let_def and_one_int
          drop_bit_eq_div pa_simps ub_simps)
  have c6: "face = 2 \<Longrightarrow> even ((rd tc 1 + rd tc 2) div 2) \<Longrightarrow> ?thesis"
    using p r
    by (simp add: faceAdjacentMicrotet_def faceAdjacentMicrotet_unbounded_def Let_def and_one_int
          drop_bit_eq_div pa_simps ub_simps)
  have c7: "face > 2 \<Longrightarrow> odd ((rd tc 1 + rd tc 2) div 2) \<Longrightarrow> ?thesis"
    using p r
    by (simp add: faceAdjacentMicrotet_def faceAdjacentMicrotet_unbounded_def Let_def and_one_int
          drop_bit_eq_div pa_simps ub_simps)
  have c8: "face > 2 \<Longrightarrow> even ((rd tc 1 + rd tc 2) div 2) \<Longrightarrow> ?thesis"
    using p r
    by (simp add: faceAdjacentMicrotet_def faceAdjacentMicrotet_unbounded_def Let_def and_one_int
          drop_bit_eq_div pa_simps ub_simps)
  have "face < 1 \<or> face = 1 \<or> face = 2 \<or> face > 2"
    by linarith
  with c1 c2 c3 c4 c5 c6 c7 c8 show ?thesis
    by (cases "odd ((rd tc 1 + rd tc 2) div 2)") auto
qed

lemma micro_unbounded_axis2:
  assumes p: "even (rd tc 0)" "even (rd tc 1)"
  shows "case faceAdjacentMicrotet tc face of
           (f2, tc2) \<Rightarrow>
             (f2 = -1) = below_zero (faceAdjacentMicrotet_unbounded tc face) \<and>
             (f2 \<noteq> -1 \<longrightarrow> tc2 = stored (faceAdjacentMicrotet_unbounded tc face))"
proof -
  note r = rd_range [of tc 0] rd_range [of tc 1] rd_range [of tc 2]
  have c1: "face < 1 \<Longrightarrow> odd ((rd tc 2 + rd tc 0) div 2) \<Longrightarrow> ?thesis"
    using p r
    by (simp add: faceAdjacentMicrotet_def faceAdjacentMicrotet_unbounded_def Let_def and_one_int
          drop_bit_eq_div pa_simps ub_simps)
  have c2: "face < 1 \<Longrightarrow> even ((rd tc 2 + rd tc 0) div 2) \<Longrightarrow> ?thesis"
    using p r
    by (simp add: faceAdjacentMicrotet_def faceAdjacentMicrotet_unbounded_def Let_def and_one_int
          drop_bit_eq_div pa_simps ub_simps)
  have c3: "face = 1 \<Longrightarrow> odd ((rd tc 2 + rd tc 0) div 2) \<Longrightarrow> ?thesis"
    using p r
    by (simp add: faceAdjacentMicrotet_def faceAdjacentMicrotet_unbounded_def Let_def and_one_int
          drop_bit_eq_div pa_simps ub_simps)
  have c4: "face = 1 \<Longrightarrow> even ((rd tc 2 + rd tc 0) div 2) \<Longrightarrow> ?thesis"
    using p r
    by (simp add: faceAdjacentMicrotet_def faceAdjacentMicrotet_unbounded_def Let_def and_one_int
          drop_bit_eq_div pa_simps ub_simps)
  have c5: "face = 2 \<Longrightarrow> odd ((rd tc 2 + rd tc 0) div 2) \<Longrightarrow> ?thesis"
    using p r
    by (simp add: faceAdjacentMicrotet_def faceAdjacentMicrotet_unbounded_def Let_def and_one_int
          drop_bit_eq_div pa_simps ub_simps)
  have c6: "face = 2 \<Longrightarrow> even ((rd tc 2 + rd tc 0) div 2) \<Longrightarrow> ?thesis"
    using p r
    by (simp add: faceAdjacentMicrotet_def faceAdjacentMicrotet_unbounded_def Let_def and_one_int
          drop_bit_eq_div pa_simps ub_simps)
  have c7: "face > 2 \<Longrightarrow> odd ((rd tc 2 + rd tc 0) div 2) \<Longrightarrow> ?thesis"
    using p r
    by (simp add: faceAdjacentMicrotet_def faceAdjacentMicrotet_unbounded_def Let_def and_one_int
          drop_bit_eq_div pa_simps ub_simps)
  have c8: "face > 2 \<Longrightarrow> even ((rd tc 2 + rd tc 0) div 2) \<Longrightarrow> ?thesis"
    using p r
    by (simp add: faceAdjacentMicrotet_def faceAdjacentMicrotet_unbounded_def Let_def and_one_int
          drop_bit_eq_div pa_simps ub_simps)
  have "face < 1 \<or> face = 1 \<or> face = 2 \<or> face > 2"
    by linarith
  with c1 c2 c3 c4 c5 c6 c7 c8 show ?thesis
    by (cases "odd ((rd tc 2 + rd tc 0) div 2)") auto
qed

lemma micro_unbounded:
  "case faceAdjacentMicrotet tc face of
           (f2, tc2) \<Rightarrow>
             (f2 = -1) = below_zero (faceAdjacentMicrotet_unbounded tc face) \<and>
             (f2 \<noteq> -1 \<longrightarrow> tc2 = stored (faceAdjacentMicrotet_unbounded tc face))"
  using micro_unbounded_axis0 [of tc face] micro_unbounded_axis1 [of tc face]
    micro_unbounded_axis2 [of tc face]
  by (cases "odd (rd tc 0)"; cases "odd (rd tc 1)") simp_all

lemma macro_unbounded_axis0:
  assumes h: "centroidHalfAxisSize tc = Some (0, s)"
  shows "case faceAdjacentCentroid tc face of
           Inl e \<Rightarrow> False
         | Inr (f2, tc2) \<Rightarrow>
             (below_zero (faceAdjacentCentroid_unbounded tc 0 s face) \<longrightarrow> f2 = -1) \<and>
             (f2 \<noteq> -1 \<longrightarrow> tc2 = stored (faceAdjacentCentroid_unbounded tc 0 s face))"
proof -
  note r = rd_range [of tc 0] rd_range [of tc 1] rd_range [of tc 2]
  note b = decode_size_bounds [OF h]
  have c1: "face < 1 \<Longrightarrow> drop_bit 1 (rd tc 0 + rd tc 2) AND s \<noteq> 0 \<Longrightarrow> ?thesis"
    using b r h
    by (simp add: faceAdjacentCentroid_def faceAdjacentCentroid_unbounded_def Let_def pa_simps
          ub_simps add_guard)
  have c2: "face < 1 \<Longrightarrow> \<not> drop_bit 1 (rd tc 0 + rd tc 2) AND s \<noteq> 0 \<Longrightarrow> ?thesis"
    using b r h
    by (simp add: faceAdjacentCentroid_def faceAdjacentCentroid_unbounded_def Let_def pa_simps
          ub_simps add_guard)
  have c3: "face = 1 \<Longrightarrow> drop_bit 1 (rd tc 0 + rd tc 1) AND s \<noteq> 0 \<Longrightarrow> ?thesis"
    using b r h
    by (simp add: faceAdjacentCentroid_def faceAdjacentCentroid_unbounded_def Let_def pa_simps
          ub_simps add_guard)
  have c4: "face = 1 \<Longrightarrow> \<not> drop_bit 1 (rd tc 0 + rd tc 1) AND s \<noteq> 0 \<Longrightarrow> ?thesis"
    using b r h
    by (simp add: faceAdjacentCentroid_def faceAdjacentCentroid_unbounded_def Let_def pa_simps
          ub_simps add_guard)
  have c5: "face = 2 \<Longrightarrow> drop_bit 1 (rd tc 0 + rd tc 1) AND s \<noteq> 0 \<Longrightarrow> ?thesis"
    using b r h
    by (simp add: faceAdjacentCentroid_def faceAdjacentCentroid_unbounded_def Let_def pa_simps
          ub_simps add_guard)
  have c6: "face = 2 \<Longrightarrow> \<not> drop_bit 1 (rd tc 0 + rd tc 1) AND s \<noteq> 0 \<Longrightarrow> ?thesis"
    using b r h
    by (simp add: faceAdjacentCentroid_def faceAdjacentCentroid_unbounded_def Let_def pa_simps
          ub_simps add_guard)
  have c7: "face > 2 \<Longrightarrow> drop_bit 1 (rd tc 0 + rd tc 2) AND s \<noteq> 0 \<Longrightarrow> ?thesis"
    using b r h
    by (simp add: faceAdjacentCentroid_def faceAdjacentCentroid_unbounded_def Let_def pa_simps
          ub_simps add_guard)
  have c8: "face > 2 \<Longrightarrow> \<not> drop_bit 1 (rd tc 0 + rd tc 2) AND s \<noteq> 0 \<Longrightarrow> ?thesis"
    using b r h
    by (simp add: faceAdjacentCentroid_def faceAdjacentCentroid_unbounded_def Let_def pa_simps
          ub_simps add_guard)
  have "face < 1 \<or> face = 1 \<or> face = 2 \<or> face > 2"
    by linarith
  with c1 c2 c3 c4 c5 c6 c7 c8 show ?thesis
    by blast
qed

lemma macro_unbounded_axis1:
  assumes h: "centroidHalfAxisSize tc = Some (1, s)"
  shows "case faceAdjacentCentroid tc face of
           Inl e \<Rightarrow> False
         | Inr (f2, tc2) \<Rightarrow>
             (below_zero (faceAdjacentCentroid_unbounded tc 1 s face) \<longrightarrow> f2 = -1) \<and>
             (f2 \<noteq> -1 \<longrightarrow> tc2 = stored (faceAdjacentCentroid_unbounded tc 1 s face))"
proof -
  note r = rd_range [of tc 0] rd_range [of tc 1] rd_range [of tc 2]
  note b = decode_size_bounds [OF h]
  have c1: "face < 1 \<Longrightarrow> drop_bit 1 (rd tc 1 + rd tc 0) AND s \<noteq> 0 \<Longrightarrow> ?thesis"
    using b r h
    by (simp add: faceAdjacentCentroid_def faceAdjacentCentroid_unbounded_def Let_def pa_simps
          ub_simps add_guard)
  have c2: "face < 1 \<Longrightarrow> \<not> drop_bit 1 (rd tc 1 + rd tc 0) AND s \<noteq> 0 \<Longrightarrow> ?thesis"
    using b r h
    by (simp add: faceAdjacentCentroid_def faceAdjacentCentroid_unbounded_def Let_def pa_simps
          ub_simps add_guard)
  have c3: "face = 1 \<Longrightarrow> drop_bit 1 (rd tc 1 + rd tc 2) AND s \<noteq> 0 \<Longrightarrow> ?thesis"
    using b r h
    by (simp add: faceAdjacentCentroid_def faceAdjacentCentroid_unbounded_def Let_def pa_simps
          ub_simps add_guard)
  have c4: "face = 1 \<Longrightarrow> \<not> drop_bit 1 (rd tc 1 + rd tc 2) AND s \<noteq> 0 \<Longrightarrow> ?thesis"
    using b r h
    by (simp add: faceAdjacentCentroid_def faceAdjacentCentroid_unbounded_def Let_def pa_simps
          ub_simps add_guard)
  have c5: "face = 2 \<Longrightarrow> drop_bit 1 (rd tc 1 + rd tc 2) AND s \<noteq> 0 \<Longrightarrow> ?thesis"
    using b r h
    by (simp add: faceAdjacentCentroid_def faceAdjacentCentroid_unbounded_def Let_def pa_simps
          ub_simps add_guard)
  have c6: "face = 2 \<Longrightarrow> \<not> drop_bit 1 (rd tc 1 + rd tc 2) AND s \<noteq> 0 \<Longrightarrow> ?thesis"
    using b r h
    by (simp add: faceAdjacentCentroid_def faceAdjacentCentroid_unbounded_def Let_def pa_simps
          ub_simps add_guard)
  have c7: "face > 2 \<Longrightarrow> drop_bit 1 (rd tc 1 + rd tc 0) AND s \<noteq> 0 \<Longrightarrow> ?thesis"
    using b r h
    by (simp add: faceAdjacentCentroid_def faceAdjacentCentroid_unbounded_def Let_def pa_simps
          ub_simps add_guard)
  have c8: "face > 2 \<Longrightarrow> \<not> drop_bit 1 (rd tc 1 + rd tc 0) AND s \<noteq> 0 \<Longrightarrow> ?thesis"
    using b r h
    by (simp add: faceAdjacentCentroid_def faceAdjacentCentroid_unbounded_def Let_def pa_simps
          ub_simps add_guard)
  have "face < 1 \<or> face = 1 \<or> face = 2 \<or> face > 2"
    by linarith
  with c1 c2 c3 c4 c5 c6 c7 c8 show ?thesis
    by blast
qed

lemma macro_unbounded_axis2:
  assumes h: "centroidHalfAxisSize tc = Some (2, s)"
  shows "case faceAdjacentCentroid tc face of
           Inl e \<Rightarrow> False
         | Inr (f2, tc2) \<Rightarrow>
             (below_zero (faceAdjacentCentroid_unbounded tc 2 s face) \<longrightarrow> f2 = -1) \<and>
             (f2 \<noteq> -1 \<longrightarrow> tc2 = stored (faceAdjacentCentroid_unbounded tc 2 s face))"
proof -
  note r = rd_range [of tc 0] rd_range [of tc 1] rd_range [of tc 2]
  note b = decode_size_bounds [OF h]
  have c1: "face < 1 \<Longrightarrow> drop_bit 1 (rd tc 2 + rd tc 1) AND s \<noteq> 0 \<Longrightarrow> ?thesis"
    using b r h
    by (simp add: faceAdjacentCentroid_def faceAdjacentCentroid_unbounded_def Let_def pa_simps
          ub_simps add_guard)
  have c2: "face < 1 \<Longrightarrow> \<not> drop_bit 1 (rd tc 2 + rd tc 1) AND s \<noteq> 0 \<Longrightarrow> ?thesis"
    using b r h
    by (simp add: faceAdjacentCentroid_def faceAdjacentCentroid_unbounded_def Let_def pa_simps
          ub_simps add_guard)
  have c3: "face = 1 \<Longrightarrow> drop_bit 1 (rd tc 2 + rd tc 0) AND s \<noteq> 0 \<Longrightarrow> ?thesis"
    using b r h
    by (simp add: faceAdjacentCentroid_def faceAdjacentCentroid_unbounded_def Let_def pa_simps
          ub_simps add_guard)
  have c4: "face = 1 \<Longrightarrow> \<not> drop_bit 1 (rd tc 2 + rd tc 0) AND s \<noteq> 0 \<Longrightarrow> ?thesis"
    using b r h
    by (simp add: faceAdjacentCentroid_def faceAdjacentCentroid_unbounded_def Let_def pa_simps
          ub_simps add_guard)
  have c5: "face = 2 \<Longrightarrow> drop_bit 1 (rd tc 2 + rd tc 0) AND s \<noteq> 0 \<Longrightarrow> ?thesis"
    using b r h
    by (simp add: faceAdjacentCentroid_def faceAdjacentCentroid_unbounded_def Let_def pa_simps
          ub_simps add_guard)
  have c6: "face = 2 \<Longrightarrow> \<not> drop_bit 1 (rd tc 2 + rd tc 0) AND s \<noteq> 0 \<Longrightarrow> ?thesis"
    using b r h
    by (simp add: faceAdjacentCentroid_def faceAdjacentCentroid_unbounded_def Let_def pa_simps
          ub_simps add_guard)
  have c7: "face > 2 \<Longrightarrow> drop_bit 1 (rd tc 2 + rd tc 1) AND s \<noteq> 0 \<Longrightarrow> ?thesis"
    using b r h
    by (simp add: faceAdjacentCentroid_def faceAdjacentCentroid_unbounded_def Let_def pa_simps
          ub_simps add_guard)
  have c8: "face > 2 \<Longrightarrow> \<not> drop_bit 1 (rd tc 2 + rd tc 1) AND s \<noteq> 0 \<Longrightarrow> ?thesis"
    using b r h
    by (simp add: faceAdjacentCentroid_def faceAdjacentCentroid_unbounded_def Let_def pa_simps
          ub_simps add_guard)
  have "face < 1 \<or> face = 1 \<or> face = 2 \<or> face > 2"
    by linarith
  with c1 c2 c3 c4 c5 c6 c7 c8 show ?thesis
    by blast
qed

lemma macro_unbounded:
  assumes h: "centroidHalfAxisSize tc = Some (ha, s)"
  shows "case faceAdjacentCentroid tc face of
           Inl e \<Rightarrow> False
         | Inr (f2, tc2) \<Rightarrow>
             (below_zero (faceAdjacentCentroid_unbounded tc ha s face) \<longrightarrow> f2 = -1) \<and>
             (f2 \<noteq> -1 \<longrightarrow> tc2 = stored (faceAdjacentCentroid_unbounded tc ha s face))"
proof -
  from h have "ha = 0 \<or> ha = 1 \<or> ha = 2" by (rule decode_facts)
  with h show ?thesis
    using macro_unbounded_axis0 [of tc s face] macro_unbounded_axis1 [of tc s face]
      macro_unbounded_axis2 [of tc s face]
    by blast
qed

text \<open>
  C5. Neither face-adjacency function lets a coordinate wrap below zero. Let \<open>p\<close> be the
  adjacent centroid that the shift of the branch computes in the integers
  (\<open>faceAdjacentMicrotet_unbounded\<close>, \<open>faceAdjacentCentroid_unbounded\<close>). For every centroid
  \<^verbatim>\<open>tc\<close> and every face argument:

  \<^item> whenever a coordinate of \<open>p\<close> is negative, \<^verbatim>\<open>faceAdjacentMicrotet\<close> returns \<open>-1\<close>, and so
    does \<^verbatim>\<open>faceAdjacentCentroid\<close> (for \<^verbatim>\<open>faceAdjacentMicrotet\<close> this is the only case in which it
    returns \<open>-1\<close>);
  \<^item> whenever the returned face is not \<open>-1\<close>, no coordinate of \<open>p\<close> is negative and the
    centroid written to \<^verbatim>\<open>tcAdj\<close> is \<open>p\<close> itself, stored in \<^verbatim>\<open>unsigned short\<close>: no coordinate
    of the result comes from a subtraction that went below zero (a coordinate of \<open>p\<close> above
    65535, which only an increment at the top of the range produces, is stored modulo
    \<open>2 ^ 16\<close>);
  \<^item> \<^verbatim>\<open>faceAdjacentCentroid\<close> never fails on a centroid that decodes, and a centroid that does
    not decode is the fatal error of the decoding, not a centroid.
\<close>

theorem face_adjacency_never_wraps_below_zero:
  "(case faceAdjacentMicrotet tc face of
      (f2, tc2) \<Rightarrow>
        (below_zero (faceAdjacentMicrotet_unbounded tc face) \<longrightarrow> f2 = -1) \<and>
        (f2 = -1 \<longrightarrow> below_zero (faceAdjacentMicrotet_unbounded tc face)) \<and>
        (f2 \<noteq> -1 \<longrightarrow>
           in_octant (faceAdjacentMicrotet_unbounded tc face) \<and>
           tc2 = stored (faceAdjacentMicrotet_unbounded tc face))) \<and>
   (case centroidHalfAxisSize tc of
      None \<Rightarrow> faceAdjacentCentroid tc face = Inl LogicError
    | Some (ha, sz) \<Rightarrow>
        (case faceAdjacentCentroid tc face of
           Inl e \<Rightarrow> False
         | Inr (f2, tc2) \<Rightarrow>
             (below_zero (faceAdjacentCentroid_unbounded tc ha sz face) \<longrightarrow> f2 = -1) \<and>
             (f2 \<noteq> -1 \<longrightarrow>
                in_octant (faceAdjacentCentroid_unbounded tc ha sz face) \<and>
                tc2 = stored (faceAdjacentCentroid_unbounded tc ha sz face))))"
proof (rule conjI)
  show "case faceAdjacentMicrotet tc face of
      (f2, tc2) \<Rightarrow>
        (below_zero (faceAdjacentMicrotet_unbounded tc face) \<longrightarrow> f2 = -1) \<and>
        (f2 = -1 \<longrightarrow> below_zero (faceAdjacentMicrotet_unbounded tc face)) \<and>
        (f2 \<noteq> -1 \<longrightarrow>
           in_octant (faceAdjacentMicrotet_unbounded tc face) \<and>
           tc2 = stored (faceAdjacentMicrotet_unbounded tc face))"
    using micro_unbounded [of tc face] by (auto simp add: in_octant_iff split: prod.splits)
  show "case centroidHalfAxisSize tc of
      None \<Rightarrow> faceAdjacentCentroid tc face = Inl LogicError
    | Some (ha, sz) \<Rightarrow>
        (case faceAdjacentCentroid tc face of
           Inl e \<Rightarrow> False
         | Inr (f2, tc2) \<Rightarrow>
             (below_zero (faceAdjacentCentroid_unbounded tc ha sz face) \<longrightarrow> f2 = -1) \<and>
             (f2 \<noteq> -1 \<longrightarrow>
                in_octant (faceAdjacentCentroid_unbounded tc ha sz face) \<and>
                tc2 = stored (faceAdjacentCentroid_unbounded tc ha sz face)))"
  proof (cases "centroidHalfAxisSize tc")
    case None
    then show ?thesis by (simp add: faceAdjacentCentroid_def)
  next
    case (Some q)
    obtain ha sz where q: "q = (ha, sz)" by (cases q) auto
    from macro_unbounded [of tc ha sz face] Some q show ?thesis
      by (auto simp add: in_octant_iff split: sum.splits prod.splits)
  qed
qed

theorem face_adjacency_never_wraps_below_zero_witness:
  "faceAdjacentMicrotet_unbounded (1, 0, 2) 2 = (0, -1, 2) \<and> below_zero (0, -1, 2) \<and>
   faceAdjacentMicrotet (1, 0, 2) 2 = (-1, (0, 0, 2)) \<and>
   faceAdjacentMicrotet_unbounded (1, 0, 2) 1 = (0, 1, 2) \<and> in_octant (0, 1, 2) \<and>
   faceAdjacentMicrotet (1, 0, 2) 1 = (0, (0, 1, 2)) \<and>
   centroidHalfAxisSize (2, 0, 4) = Some (0, 2) \<and>
   faceAdjacentCentroid_unbounded (2, 0, 4) 0 2 2 = (0, -2, 4) \<and> below_zero (0, -2, 4) \<and>
   faceAdjacentCentroid (2, 0, 4) 2 = Inr (-1, (0, 2, 4)) \<and>
   faceAdjacentCentroid_unbounded (2, 0, 4) 0 2 1 = (0, 2, 4) \<and> in_octant (0, 2, 4) \<and>
   faceAdjacentCentroid (2, 0, 4) 1 = Inr (0, (0, 2, 4))"
  using face_adjacency_never_wraps_below_zero [of "(1, 0, 2)" 2]
    face_adjacency_never_wraps_below_zero [of "(1, 0, 2)" 1]
    face_adjacency_never_wraps_below_zero [of "(2, 0, 4)" 2]
    face_adjacency_never_wraps_below_zero [of "(2, 0, 4)" 1]
  by code_simp

section \<open>Closed forms of the finest-level face adjacency\<close>

lemma rd_mod_id: "rd tc i mod 65536 = rd tc i"
  using rd_range [of tc i] by simp

lemma micro_closed_a0_up_f0:
  assumes "odd (rd tc 0)"
    and "odd ((rd tc 0 + rd tc 1) div 2)"
  shows "faceAdjacentMicrotet tc 0 = (if rd tc 0 < 1 then (-1, tc) else (1, shift3 tc (-1) 0 1))"
  using assms
  by (simp add: faceAdjacentMicrotet_def Let_def and_one_int drop_bit_eq_div pa_simps rd_mod_id)

lemma micro_closed_a0_up_f1:
  assumes "odd (rd tc 0)"
    and "odd ((rd tc 0 + rd tc 1) div 2)"
  shows "faceAdjacentMicrotet tc 1 = (3, shift3 tc 1 1 0)"
  using assms
  by (simp add: faceAdjacentMicrotet_def Let_def and_one_int drop_bit_eq_div pa_simps rd_mod_id)

lemma micro_closed_a0_up_f2:
  assumes "odd (rd tc 0)"
    and "odd ((rd tc 0 + rd tc 1) div 2)"
  shows "faceAdjacentMicrotet tc 2 = (if rd tc 1 < 1 then (-1, shift3 tc 1 0 0) else (0, shift3 tc 1 (-1) 0))"
  using assms
  by (simp add: faceAdjacentMicrotet_def Let_def and_one_int drop_bit_eq_div pa_simps rd_mod_id)

lemma micro_closed_a0_up_f3:
  assumes "odd (rd tc 0)"
    and "odd ((rd tc 0 + rd tc 1) div 2)"
  shows "faceAdjacentMicrotet tc 3 = (if rd tc 0 < 1 then (-1, tc) else if rd tc 2 < 1 then (-1, shift3 tc (-1) 0 0) else (1, shift3 tc (-1) 0 (-1)))"
  using assms
  by (simp add: faceAdjacentMicrotet_def Let_def and_one_int drop_bit_eq_div pa_simps rd_mod_id)

lemma micro_closed_a0_down_f0:
  assumes "odd (rd tc 0)"
    and "even ((rd tc 0 + rd tc 1) div 2)"
  shows "faceAdjacentMicrotet tc 0 = (if rd tc 2 < 1 then (-1, shift3 tc 1 0 0) else (2, shift3 tc 1 0 (-1)))"
  using assms
  by (simp add: faceAdjacentMicrotet_def Let_def and_one_int drop_bit_eq_div pa_simps rd_mod_id)

lemma micro_closed_a0_down_f1:
  assumes "odd (rd tc 0)"
    and "even ((rd tc 0 + rd tc 1) div 2)"
  shows "faceAdjacentMicrotet tc 1 = (if rd tc 0 < 1 then (-1, tc) else (0, shift3 tc (-1) 1 0))"
  using assms
  by (simp add: faceAdjacentMicrotet_def Let_def and_one_int drop_bit_eq_div pa_simps rd_mod_id)

lemma micro_closed_a0_down_f2:
  assumes "odd (rd tc 0)"
    and "even ((rd tc 0 + rd tc 1) div 2)"
  shows "faceAdjacentMicrotet tc 2 = (if rd tc 0 < 1 then (-1, tc) else if rd tc 1 < 1 then (-1, shift3 tc (-1) 0 0) else (3, shift3 tc (-1) (-1) 0))"
  using assms
  by (simp add: faceAdjacentMicrotet_def Let_def and_one_int drop_bit_eq_div pa_simps rd_mod_id)

lemma micro_closed_a0_down_f3:
  assumes "odd (rd tc 0)"
    and "even ((rd tc 0 + rd tc 1) div 2)"
  shows "faceAdjacentMicrotet tc 3 = (2, shift3 tc 1 0 1)"
  using assms
  by (simp add: faceAdjacentMicrotet_def Let_def and_one_int drop_bit_eq_div pa_simps rd_mod_id)

lemma micro_closed_a1_up_f0:
  assumes "even (rd tc 0)" "odd (rd tc 1)"
    and "odd ((rd tc 1 + rd tc 2) div 2)"
  shows "faceAdjacentMicrotet tc 0 = (if rd tc 1 < 1 then (-1, tc) else (1, shift3 tc 1 (-1) 0))"
  using assms
  by (simp add: faceAdjacentMicrotet_def Let_def and_one_int drop_bit_eq_div pa_simps rd_mod_id)

lemma micro_closed_a1_up_f1:
  assumes "even (rd tc 0)" "odd (rd tc 1)"
    and "odd ((rd tc 1 + rd tc 2) div 2)"
  shows "faceAdjacentMicrotet tc 1 = (3, shift3 tc 0 1 1)"
  using assms
  by (simp add: faceAdjacentMicrotet_def Let_def and_one_int drop_bit_eq_div pa_simps rd_mod_id)

lemma micro_closed_a1_up_f2:
  assumes "even (rd tc 0)" "odd (rd tc 1)"
    and "odd ((rd tc 1 + rd tc 2) div 2)"
  shows "faceAdjacentMicrotet tc 2 = (if rd tc 2 < 1 then (-1, shift3 tc 0 1 0) else (0, shift3 tc 0 1 (-1)))"
  using assms
  by (simp add: faceAdjacentMicrotet_def Let_def and_one_int drop_bit_eq_div pa_simps rd_mod_id)

lemma micro_closed_a1_up_f3:
  assumes "even (rd tc 0)" "odd (rd tc 1)"
    and "odd ((rd tc 1 + rd tc 2) div 2)"
  shows "faceAdjacentMicrotet tc 3 = (if rd tc 1 < 1 then (-1, tc) else if rd tc 0 < 1 then (-1, shift3 tc 0 (-1) 0) else (1, shift3 tc (-1) (-1) 0))"
  using assms
  by (simp add: faceAdjacentMicrotet_def Let_def and_one_int drop_bit_eq_div pa_simps rd_mod_id)

lemma micro_closed_a1_down_f0:
  assumes "even (rd tc 0)" "odd (rd tc 1)"
    and "even ((rd tc 1 + rd tc 2) div 2)"
  shows "faceAdjacentMicrotet tc 0 = (if rd tc 0 < 1 then (-1, shift3 tc 0 1 0) else (2, shift3 tc (-1) 1 0))"
  using assms
  by (simp add: faceAdjacentMicrotet_def Let_def and_one_int drop_bit_eq_div pa_simps rd_mod_id)

lemma micro_closed_a1_down_f1:
  assumes "even (rd tc 0)" "odd (rd tc 1)"
    and "even ((rd tc 1 + rd tc 2) div 2)"
  shows "faceAdjacentMicrotet tc 1 = (if rd tc 1 < 1 then (-1, tc) else (0, shift3 tc 0 (-1) 1))"
  using assms
  by (simp add: faceAdjacentMicrotet_def Let_def and_one_int drop_bit_eq_div pa_simps rd_mod_id)

lemma micro_closed_a1_down_f2:
  assumes "even (rd tc 0)" "odd (rd tc 1)"
    and "even ((rd tc 1 + rd tc 2) div 2)"
  shows "faceAdjacentMicrotet tc 2 = (if rd tc 1 < 1 then (-1, tc) else if rd tc 2 < 1 then (-1, shift3 tc 0 (-1) 0) else (3, shift3 tc 0 (-1) (-1)))"
  using assms
  by (simp add: faceAdjacentMicrotet_def Let_def and_one_int drop_bit_eq_div pa_simps rd_mod_id)

lemma micro_closed_a1_down_f3:
  assumes "even (rd tc 0)" "odd (rd tc 1)"
    and "even ((rd tc 1 + rd tc 2) div 2)"
  shows "faceAdjacentMicrotet tc 3 = (2, shift3 tc 1 1 0)"
  using assms
  by (simp add: faceAdjacentMicrotet_def Let_def and_one_int drop_bit_eq_div pa_simps rd_mod_id)

lemma micro_closed_a2_up_f0:
  assumes "even (rd tc 0)" "even (rd tc 1)"
    and "odd ((rd tc 2 + rd tc 0) div 2)"
  shows "faceAdjacentMicrotet tc 0 = (if rd tc 2 < 1 then (-1, tc) else (1, shift3 tc 0 1 (-1)))"
  using assms
  by (simp add: faceAdjacentMicrotet_def Let_def and_one_int drop_bit_eq_div pa_simps rd_mod_id)

lemma micro_closed_a2_up_f1:
  assumes "even (rd tc 0)" "even (rd tc 1)"
    and "odd ((rd tc 2 + rd tc 0) div 2)"
  shows "faceAdjacentMicrotet tc 1 = (3, shift3 tc 1 0 1)"
  using assms
  by (simp add: faceAdjacentMicrotet_def Let_def and_one_int drop_bit_eq_div pa_simps rd_mod_id)

lemma micro_closed_a2_up_f2:
  assumes "even (rd tc 0)" "even (rd tc 1)"
    and "odd ((rd tc 2 + rd tc 0) div 2)"
  shows "faceAdjacentMicrotet tc 2 = (if rd tc 0 < 1 then (-1, shift3 tc 0 0 1) else (0, shift3 tc (-1) 0 1))"
  using assms
  by (simp add: faceAdjacentMicrotet_def Let_def and_one_int drop_bit_eq_div pa_simps rd_mod_id)

lemma micro_closed_a2_up_f3:
  assumes "even (rd tc 0)" "even (rd tc 1)"
    and "odd ((rd tc 2 + rd tc 0) div 2)"
  shows "faceAdjacentMicrotet tc 3 = (if rd tc 2 < 1 then (-1, tc) else if rd tc 1 < 1 then (-1, shift3 tc 0 0 (-1)) else (1, shift3 tc 0 (-1) (-1)))"
  using assms
  by (simp add: faceAdjacentMicrotet_def Let_def and_one_int drop_bit_eq_div pa_simps rd_mod_id)

lemma micro_closed_a2_down_f0:
  assumes "even (rd tc 0)" "even (rd tc 1)"
    and "even ((rd tc 2 + rd tc 0) div 2)"
  shows "faceAdjacentMicrotet tc 0 = (if rd tc 1 < 1 then (-1, shift3 tc 0 0 1) else (2, shift3 tc 0 (-1) 1))"
  using assms
  by (simp add: faceAdjacentMicrotet_def Let_def and_one_int drop_bit_eq_div pa_simps rd_mod_id)

lemma micro_closed_a2_down_f1:
  assumes "even (rd tc 0)" "even (rd tc 1)"
    and "even ((rd tc 2 + rd tc 0) div 2)"
  shows "faceAdjacentMicrotet tc 1 = (if rd tc 2 < 1 then (-1, tc) else (0, shift3 tc 1 0 (-1)))"
  using assms
  by (simp add: faceAdjacentMicrotet_def Let_def and_one_int drop_bit_eq_div pa_simps rd_mod_id)

lemma micro_closed_a2_down_f2:
  assumes "even (rd tc 0)" "even (rd tc 1)"
    and "even ((rd tc 2 + rd tc 0) div 2)"
  shows "faceAdjacentMicrotet tc 2 = (if rd tc 2 < 1 then (-1, tc) else if rd tc 0 < 1 then (-1, shift3 tc 0 0 (-1)) else (3, shift3 tc (-1) 0 (-1)))"
  using assms
  by (simp add: faceAdjacentMicrotet_def Let_def and_one_int drop_bit_eq_div pa_simps rd_mod_id)

lemma micro_closed_a2_down_f3:
  assumes "even (rd tc 0)" "even (rd tc 1)"
    and "even ((rd tc 2 + rd tc 0) div 2)"
  shows "faceAdjacentMicrotet tc 3 = (2, shift3 tc 0 1 1)"
  using assms
  by (simp add: faceAdjacentMicrotet_def Let_def and_one_int drop_bit_eq_div pa_simps rd_mod_id)

section \<open>Crossing a face and crossing back\<close>

lemma cross_back_a0_up_f0:
  assumes p: "odd (rd tc 0)" "even (rd tc 1)" "even (rd tc 2)"
      "odd (rd tc 1 div 2) \<noteq> odd (rd tc 2 div 2)"
    and u: "odd ((rd tc 0 + rd tc 1) div 2)"
    and bnd: "rd tc 0 < 65535"
    and adj: "faceAdjacentMicrotet tc 0 = (f2, tc2)" and ns: "f2 \<noteq> -1"
  shows "faceAdjacentMicrotet tc2 f2 = (0, tc)"
proof -
  note r = rd_range [of tc 0] rd_range [of tc 1] rd_range [of tc 2]
  have b: "1 \<le> rd tc 0" "rd tc 1 \<le> 65534" "rd tc 2 \<le> 65534"
    using p r by presburger+
  have hc: "odd (rd tc 0)"
    using p by simp_all
  from adj ns micro_closed_a0_up_f0 [OF hc u]
  have g: "\<not> rd tc 0 < 1" "f2 = 1" "tc2 = shift3 tc (-1) 0 1"
    by (auto split: if_splits)
  have e: "rd tc2 0 = rd tc 0 - 1" "rd tc2 1 = rd tc 1" "rd tc2 2 = rd tc 2 + 1"
    using g b r bnd by (simp_all add: rd_shift3)
  have q: "even (rd tc2 0)" "even (rd tc2 1)"
    using p e by presburger+
  have u': "even ((rd tc2 2 + rd tc2 0) div 2)"
    using p u e by presburger
  have "faceAdjacentMicrotet tc2 1 = (0, shift3 tc2 1 0 (-1))"
    using micro_closed_a2_down_f1 [OF q u'] e g b r by simp
  then show ?thesis
    using g by (simp add: shift3_shift3 shift3_zero)
qed

lemma cross_back_a0_up_f1:
  assumes p: "odd (rd tc 0)" "even (rd tc 1)" "even (rd tc 2)"
      "odd (rd tc 1 div 2) \<noteq> odd (rd tc 2 div 2)"
    and u: "odd ((rd tc 0 + rd tc 1) div 2)"
    and bnd: "rd tc 0 < 65535"
    and adj: "faceAdjacentMicrotet tc 1 = (f2, tc2)" and ns: "f2 \<noteq> -1"
  shows "faceAdjacentMicrotet tc2 f2 = (1, tc)"
proof -
  note r = rd_range [of tc 0] rd_range [of tc 1] rd_range [of tc 2]
  have b: "1 \<le> rd tc 0" "rd tc 1 \<le> 65534" "rd tc 2 \<le> 65534"
    using p r by presburger+
  have hc: "odd (rd tc 0)"
    using p by simp_all
  from adj ns micro_closed_a0_up_f1 [OF hc u]
  have g:  "f2 = 3" "tc2 = shift3 tc 1 1 0"
    by (auto split: if_splits)
  have e: "rd tc2 0 = rd tc 0 + 1" "rd tc2 1 = rd tc 1 + 1" "rd tc2 2 = rd tc 2"
    using g b r bnd by (simp_all add: rd_shift3)
  have q: "even (rd tc2 0)" "odd (rd tc2 1)"
    using p e by presburger+
  have u': "odd ((rd tc2 1 + rd tc2 2) div 2)"
    using p u e by presburger
  have "faceAdjacentMicrotet tc2 3 = (1, shift3 tc2 (-1) (-1) 0)"
    using micro_closed_a1_up_f3 [OF q u'] e g b r by simp
  then show ?thesis
    using g by (simp add: shift3_shift3 shift3_zero)
qed

lemma cross_back_a0_up_f2:
  assumes p: "odd (rd tc 0)" "even (rd tc 1)" "even (rd tc 2)"
      "odd (rd tc 1 div 2) \<noteq> odd (rd tc 2 div 2)"
    and u: "odd ((rd tc 0 + rd tc 1) div 2)"
    and bnd: "rd tc 0 < 65535"
    and adj: "faceAdjacentMicrotet tc 2 = (f2, tc2)" and ns: "f2 \<noteq> -1"
  shows "faceAdjacentMicrotet tc2 f2 = (2, tc)"
proof -
  note r = rd_range [of tc 0] rd_range [of tc 1] rd_range [of tc 2]
  have b: "1 \<le> rd tc 0" "rd tc 1 \<le> 65534" "rd tc 2 \<le> 65534"
    using p r by presburger+
  have hc: "odd (rd tc 0)"
    using p by simp_all
  from adj ns micro_closed_a0_up_f2 [OF hc u]
  have g: "\<not> rd tc 1 < 1" "f2 = 0" "tc2 = shift3 tc 1 (-1) 0"
    by (auto split: if_splits)
  have e: "rd tc2 0 = rd tc 0 + 1" "rd tc2 1 = rd tc 1 - 1" "rd tc2 2 = rd tc 2"
    using g b r bnd by (simp_all add: rd_shift3)
  have q: "even (rd tc2 0)" "odd (rd tc2 1)"
    using p e by presburger+
  have u': "even ((rd tc2 1 + rd tc2 2) div 2)"
    using p u e by presburger
  have "faceAdjacentMicrotet tc2 0 = (2, shift3 tc2 (-1) 1 0)"
    using micro_closed_a1_down_f0 [OF q u'] e g b r by simp
  then show ?thesis
    using g by (simp add: shift3_shift3 shift3_zero)
qed

lemma cross_back_a0_up_f3:
  assumes p: "odd (rd tc 0)" "even (rd tc 1)" "even (rd tc 2)"
      "odd (rd tc 1 div 2) \<noteq> odd (rd tc 2 div 2)"
    and u: "odd ((rd tc 0 + rd tc 1) div 2)"
    and bnd: "rd tc 0 < 65535"
    and adj: "faceAdjacentMicrotet tc 3 = (f2, tc2)" and ns: "f2 \<noteq> -1"
  shows "faceAdjacentMicrotet tc2 f2 = (3, tc)"
proof -
  note r = rd_range [of tc 0] rd_range [of tc 1] rd_range [of tc 2]
  have b: "1 \<le> rd tc 0" "rd tc 1 \<le> 65534" "rd tc 2 \<le> 65534"
    using p r by presburger+
  have hc: "odd (rd tc 0)"
    using p by simp_all
  from adj ns micro_closed_a0_up_f3 [OF hc u]
  have g: "\<not> rd tc 0 < 1" "\<not> rd tc 2 < 1" "f2 = 1" "tc2 = shift3 tc (-1) 0 (-1)"
    by (auto split: if_splits)
  have e: "rd tc2 0 = rd tc 0 - 1" "rd tc2 1 = rd tc 1" "rd tc2 2 = rd tc 2 - 1"
    using g b r bnd by (simp_all add: rd_shift3)
  have q: "even (rd tc2 0)" "even (rd tc2 1)"
    using p e by presburger+
  have u': "odd ((rd tc2 2 + rd tc2 0) div 2)"
    using p u e by presburger
  have "faceAdjacentMicrotet tc2 1 = (3, shift3 tc2 1 0 1)"
    using micro_closed_a2_up_f1 [OF q u'] e g b r by simp
  then show ?thesis
    using g by (simp add: shift3_shift3 shift3_zero)
qed

lemma cross_back_a0_down_f0:
  assumes p: "odd (rd tc 0)" "even (rd tc 1)" "even (rd tc 2)"
      "odd (rd tc 1 div 2) \<noteq> odd (rd tc 2 div 2)"
    and u: "even ((rd tc 0 + rd tc 1) div 2)"
    and bnd: "rd tc 0 < 65535"
    and adj: "faceAdjacentMicrotet tc 0 = (f2, tc2)" and ns: "f2 \<noteq> -1"
  shows "faceAdjacentMicrotet tc2 f2 = (0, tc)"
proof -
  note r = rd_range [of tc 0] rd_range [of tc 1] rd_range [of tc 2]
  have b: "1 \<le> rd tc 0" "rd tc 1 \<le> 65534" "rd tc 2 \<le> 65534"
    using p r by presburger+
  have hc: "odd (rd tc 0)"
    using p by simp_all
  from adj ns micro_closed_a0_down_f0 [OF hc u]
  have g: "\<not> rd tc 2 < 1" "f2 = 2" "tc2 = shift3 tc 1 0 (-1)"
    by (auto split: if_splits)
  have e: "rd tc2 0 = rd tc 0 + 1" "rd tc2 1 = rd tc 1" "rd tc2 2 = rd tc 2 - 1"
    using g b r bnd by (simp_all add: rd_shift3)
  have q: "even (rd tc2 0)" "even (rd tc2 1)"
    using p e by presburger+
  have u': "odd ((rd tc2 2 + rd tc2 0) div 2)"
    using p u e by presburger
  have "faceAdjacentMicrotet tc2 2 = (0, shift3 tc2 (-1) 0 1)"
    using micro_closed_a2_up_f2 [OF q u'] e g b r by simp
  then show ?thesis
    using g by (simp add: shift3_shift3 shift3_zero)
qed

lemma cross_back_a0_down_f1:
  assumes p: "odd (rd tc 0)" "even (rd tc 1)" "even (rd tc 2)"
      "odd (rd tc 1 div 2) \<noteq> odd (rd tc 2 div 2)"
    and u: "even ((rd tc 0 + rd tc 1) div 2)"
    and bnd: "rd tc 0 < 65535"
    and adj: "faceAdjacentMicrotet tc 1 = (f2, tc2)" and ns: "f2 \<noteq> -1"
  shows "faceAdjacentMicrotet tc2 f2 = (1, tc)"
proof -
  note r = rd_range [of tc 0] rd_range [of tc 1] rd_range [of tc 2]
  have b: "1 \<le> rd tc 0" "rd tc 1 \<le> 65534" "rd tc 2 \<le> 65534"
    using p r by presburger+
  have hc: "odd (rd tc 0)"
    using p by simp_all
  from adj ns micro_closed_a0_down_f1 [OF hc u]
  have g: "\<not> rd tc 0 < 1" "f2 = 0" "tc2 = shift3 tc (-1) 1 0"
    by (auto split: if_splits)
  have e: "rd tc2 0 = rd tc 0 - 1" "rd tc2 1 = rd tc 1 + 1" "rd tc2 2 = rd tc 2"
    using g b r bnd by (simp_all add: rd_shift3)
  have q: "even (rd tc2 0)" "odd (rd tc2 1)"
    using p e by presburger+
  have u': "odd ((rd tc2 1 + rd tc2 2) div 2)"
    using p u e by presburger
  have "faceAdjacentMicrotet tc2 0 = (1, shift3 tc2 1 (-1) 0)"
    using micro_closed_a1_up_f0 [OF q u'] e g b r by simp
  then show ?thesis
    using g by (simp add: shift3_shift3 shift3_zero)
qed

lemma cross_back_a0_down_f2:
  assumes p: "odd (rd tc 0)" "even (rd tc 1)" "even (rd tc 2)"
      "odd (rd tc 1 div 2) \<noteq> odd (rd tc 2 div 2)"
    and u: "even ((rd tc 0 + rd tc 1) div 2)"
    and bnd: "rd tc 0 < 65535"
    and adj: "faceAdjacentMicrotet tc 2 = (f2, tc2)" and ns: "f2 \<noteq> -1"
  shows "faceAdjacentMicrotet tc2 f2 = (2, tc)"
proof -
  note r = rd_range [of tc 0] rd_range [of tc 1] rd_range [of tc 2]
  have b: "1 \<le> rd tc 0" "rd tc 1 \<le> 65534" "rd tc 2 \<le> 65534"
    using p r by presburger+
  have hc: "odd (rd tc 0)"
    using p by simp_all
  from adj ns micro_closed_a0_down_f2 [OF hc u]
  have g: "\<not> rd tc 0 < 1" "\<not> rd tc 1 < 1" "f2 = 3" "tc2 = shift3 tc (-1) (-1) 0"
    by (auto split: if_splits)
  have e: "rd tc2 0 = rd tc 0 - 1" "rd tc2 1 = rd tc 1 - 1" "rd tc2 2 = rd tc 2"
    using g b r bnd by (simp_all add: rd_shift3)
  have q: "even (rd tc2 0)" "odd (rd tc2 1)"
    using p e by presburger+
  have u': "even ((rd tc2 1 + rd tc2 2) div 2)"
    using p u e by presburger
  have "faceAdjacentMicrotet tc2 3 = (2, shift3 tc2 1 1 0)"
    using micro_closed_a1_down_f3 [OF q u'] e g b r by simp
  then show ?thesis
    using g by (simp add: shift3_shift3 shift3_zero)
qed

lemma cross_back_a0_down_f3:
  assumes p: "odd (rd tc 0)" "even (rd tc 1)" "even (rd tc 2)"
      "odd (rd tc 1 div 2) \<noteq> odd (rd tc 2 div 2)"
    and u: "even ((rd tc 0 + rd tc 1) div 2)"
    and bnd: "rd tc 0 < 65535"
    and adj: "faceAdjacentMicrotet tc 3 = (f2, tc2)" and ns: "f2 \<noteq> -1"
  shows "faceAdjacentMicrotet tc2 f2 = (3, tc)"
proof -
  note r = rd_range [of tc 0] rd_range [of tc 1] rd_range [of tc 2]
  have b: "1 \<le> rd tc 0" "rd tc 1 \<le> 65534" "rd tc 2 \<le> 65534"
    using p r by presburger+
  have hc: "odd (rd tc 0)"
    using p by simp_all
  from adj ns micro_closed_a0_down_f3 [OF hc u]
  have g:  "f2 = 2" "tc2 = shift3 tc 1 0 1"
    by (auto split: if_splits)
  have e: "rd tc2 0 = rd tc 0 + 1" "rd tc2 1 = rd tc 1" "rd tc2 2 = rd tc 2 + 1"
    using g b r bnd by (simp_all add: rd_shift3)
  have q: "even (rd tc2 0)" "even (rd tc2 1)"
    using p e by presburger+
  have u': "even ((rd tc2 2 + rd tc2 0) div 2)"
    using p u e by presburger
  have "faceAdjacentMicrotet tc2 2 = (3, shift3 tc2 (-1) 0 (-1))"
    using micro_closed_a2_down_f2 [OF q u'] e g b r by simp
  then show ?thesis
    using g by (simp add: shift3_shift3 shift3_zero)
qed

lemma cross_back_a1_up_f0:
  assumes p: "odd (rd tc 1)" "even (rd tc 2)" "even (rd tc 0)"
      "odd (rd tc 2 div 2) \<noteq> odd (rd tc 0 div 2)"
    and u: "odd ((rd tc 1 + rd tc 2) div 2)"
    and bnd: "rd tc 1 < 65535"
    and adj: "faceAdjacentMicrotet tc 0 = (f2, tc2)" and ns: "f2 \<noteq> -1"
  shows "faceAdjacentMicrotet tc2 f2 = (0, tc)"
proof -
  note r = rd_range [of tc 0] rd_range [of tc 1] rd_range [of tc 2]
  have b: "1 \<le> rd tc 1" "rd tc 2 \<le> 65534" "rd tc 0 \<le> 65534"
    using p r by presburger+
  have hc: "even (rd tc 0)" "odd (rd tc 1)"
    using p by simp_all
  from adj ns micro_closed_a1_up_f0 [OF hc u]
  have g: "\<not> rd tc 1 < 1" "f2 = 1" "tc2 = shift3 tc 1 (-1) 0"
    by (auto split: if_splits)
  have e: "rd tc2 0 = rd tc 0 + 1" "rd tc2 1 = rd tc 1 - 1" "rd tc2 2 = rd tc 2"
    using g b r bnd by (simp_all add: rd_shift3)
  have q: "odd (rd tc2 0)"
    using p e by presburger+
  have u': "even ((rd tc2 0 + rd tc2 1) div 2)"
    using p u e by presburger
  have "faceAdjacentMicrotet tc2 1 = (0, shift3 tc2 (-1) 1 0)"
    using micro_closed_a0_down_f1 [OF q u'] e g b r by simp
  then show ?thesis
    using g by (simp add: shift3_shift3 shift3_zero)
qed

lemma cross_back_a1_up_f1:
  assumes p: "odd (rd tc 1)" "even (rd tc 2)" "even (rd tc 0)"
      "odd (rd tc 2 div 2) \<noteq> odd (rd tc 0 div 2)"
    and u: "odd ((rd tc 1 + rd tc 2) div 2)"
    and bnd: "rd tc 1 < 65535"
    and adj: "faceAdjacentMicrotet tc 1 = (f2, tc2)" and ns: "f2 \<noteq> -1"
  shows "faceAdjacentMicrotet tc2 f2 = (1, tc)"
proof -
  note r = rd_range [of tc 0] rd_range [of tc 1] rd_range [of tc 2]
  have b: "1 \<le> rd tc 1" "rd tc 2 \<le> 65534" "rd tc 0 \<le> 65534"
    using p r by presburger+
  have hc: "even (rd tc 0)" "odd (rd tc 1)"
    using p by simp_all
  from adj ns micro_closed_a1_up_f1 [OF hc u]
  have g:  "f2 = 3" "tc2 = shift3 tc 0 1 1"
    by (auto split: if_splits)
  have e: "rd tc2 0 = rd tc 0" "rd tc2 1 = rd tc 1 + 1" "rd tc2 2 = rd tc 2 + 1"
    using g b r bnd by (simp_all add: rd_shift3)
  have q: "even (rd tc2 0)" "even (rd tc2 1)"
    using p e by presburger+
  have u': "odd ((rd tc2 2 + rd tc2 0) div 2)"
    using p u e by presburger
  have "faceAdjacentMicrotet tc2 3 = (1, shift3 tc2 0 (-1) (-1))"
    using micro_closed_a2_up_f3 [OF q u'] e g b r by simp
  then show ?thesis
    using g by (simp add: shift3_shift3 shift3_zero)
qed

lemma cross_back_a1_up_f2:
  assumes p: "odd (rd tc 1)" "even (rd tc 2)" "even (rd tc 0)"
      "odd (rd tc 2 div 2) \<noteq> odd (rd tc 0 div 2)"
    and u: "odd ((rd tc 1 + rd tc 2) div 2)"
    and bnd: "rd tc 1 < 65535"
    and adj: "faceAdjacentMicrotet tc 2 = (f2, tc2)" and ns: "f2 \<noteq> -1"
  shows "faceAdjacentMicrotet tc2 f2 = (2, tc)"
proof -
  note r = rd_range [of tc 0] rd_range [of tc 1] rd_range [of tc 2]
  have b: "1 \<le> rd tc 1" "rd tc 2 \<le> 65534" "rd tc 0 \<le> 65534"
    using p r by presburger+
  have hc: "even (rd tc 0)" "odd (rd tc 1)"
    using p by simp_all
  from adj ns micro_closed_a1_up_f2 [OF hc u]
  have g: "\<not> rd tc 2 < 1" "f2 = 0" "tc2 = shift3 tc 0 1 (-1)"
    by (auto split: if_splits)
  have e: "rd tc2 0 = rd tc 0" "rd tc2 1 = rd tc 1 + 1" "rd tc2 2 = rd tc 2 - 1"
    using g b r bnd by (simp_all add: rd_shift3)
  have q: "even (rd tc2 0)" "even (rd tc2 1)"
    using p e by presburger+
  have u': "even ((rd tc2 2 + rd tc2 0) div 2)"
    using p u e by presburger
  have "faceAdjacentMicrotet tc2 0 = (2, shift3 tc2 0 (-1) 1)"
    using micro_closed_a2_down_f0 [OF q u'] e g b r by simp
  then show ?thesis
    using g by (simp add: shift3_shift3 shift3_zero)
qed

lemma cross_back_a1_up_f3:
  assumes p: "odd (rd tc 1)" "even (rd tc 2)" "even (rd tc 0)"
      "odd (rd tc 2 div 2) \<noteq> odd (rd tc 0 div 2)"
    and u: "odd ((rd tc 1 + rd tc 2) div 2)"
    and bnd: "rd tc 1 < 65535"
    and adj: "faceAdjacentMicrotet tc 3 = (f2, tc2)" and ns: "f2 \<noteq> -1"
  shows "faceAdjacentMicrotet tc2 f2 = (3, tc)"
proof -
  note r = rd_range [of tc 0] rd_range [of tc 1] rd_range [of tc 2]
  have b: "1 \<le> rd tc 1" "rd tc 2 \<le> 65534" "rd tc 0 \<le> 65534"
    using p r by presburger+
  have hc: "even (rd tc 0)" "odd (rd tc 1)"
    using p by simp_all
  from adj ns micro_closed_a1_up_f3 [OF hc u]
  have g: "\<not> rd tc 0 < 1" "\<not> rd tc 1 < 1" "f2 = 1" "tc2 = shift3 tc (-1) (-1) 0"
    by (auto split: if_splits)
  have e: "rd tc2 0 = rd tc 0 - 1" "rd tc2 1 = rd tc 1 - 1" "rd tc2 2 = rd tc 2"
    using g b r bnd by (simp_all add: rd_shift3)
  have q: "odd (rd tc2 0)"
    using p e by presburger+
  have u': "odd ((rd tc2 0 + rd tc2 1) div 2)"
    using p u e by presburger
  have "faceAdjacentMicrotet tc2 1 = (3, shift3 tc2 1 1 0)"
    using micro_closed_a0_up_f1 [OF q u'] e g b r by simp
  then show ?thesis
    using g by (simp add: shift3_shift3 shift3_zero)
qed

lemma cross_back_a1_down_f0:
  assumes p: "odd (rd tc 1)" "even (rd tc 2)" "even (rd tc 0)"
      "odd (rd tc 2 div 2) \<noteq> odd (rd tc 0 div 2)"
    and u: "even ((rd tc 1 + rd tc 2) div 2)"
    and bnd: "rd tc 1 < 65535"
    and adj: "faceAdjacentMicrotet tc 0 = (f2, tc2)" and ns: "f2 \<noteq> -1"
  shows "faceAdjacentMicrotet tc2 f2 = (0, tc)"
proof -
  note r = rd_range [of tc 0] rd_range [of tc 1] rd_range [of tc 2]
  have b: "1 \<le> rd tc 1" "rd tc 2 \<le> 65534" "rd tc 0 \<le> 65534"
    using p r by presburger+
  have hc: "even (rd tc 0)" "odd (rd tc 1)"
    using p by simp_all
  from adj ns micro_closed_a1_down_f0 [OF hc u]
  have g: "\<not> rd tc 0 < 1" "f2 = 2" "tc2 = shift3 tc (-1) 1 0"
    by (auto split: if_splits)
  have e: "rd tc2 0 = rd tc 0 - 1" "rd tc2 1 = rd tc 1 + 1" "rd tc2 2 = rd tc 2"
    using g b r bnd by (simp_all add: rd_shift3)
  have q: "odd (rd tc2 0)"
    using p e by presburger+
  have u': "odd ((rd tc2 0 + rd tc2 1) div 2)"
    using p u e by presburger
  have "faceAdjacentMicrotet tc2 2 = (0, shift3 tc2 1 (-1) 0)"
    using micro_closed_a0_up_f2 [OF q u'] e g b r by simp
  then show ?thesis
    using g by (simp add: shift3_shift3 shift3_zero)
qed

lemma cross_back_a1_down_f1:
  assumes p: "odd (rd tc 1)" "even (rd tc 2)" "even (rd tc 0)"
      "odd (rd tc 2 div 2) \<noteq> odd (rd tc 0 div 2)"
    and u: "even ((rd tc 1 + rd tc 2) div 2)"
    and bnd: "rd tc 1 < 65535"
    and adj: "faceAdjacentMicrotet tc 1 = (f2, tc2)" and ns: "f2 \<noteq> -1"
  shows "faceAdjacentMicrotet tc2 f2 = (1, tc)"
proof -
  note r = rd_range [of tc 0] rd_range [of tc 1] rd_range [of tc 2]
  have b: "1 \<le> rd tc 1" "rd tc 2 \<le> 65534" "rd tc 0 \<le> 65534"
    using p r by presburger+
  have hc: "even (rd tc 0)" "odd (rd tc 1)"
    using p by simp_all
  from adj ns micro_closed_a1_down_f1 [OF hc u]
  have g: "\<not> rd tc 1 < 1" "f2 = 0" "tc2 = shift3 tc 0 (-1) 1"
    by (auto split: if_splits)
  have e: "rd tc2 0 = rd tc 0" "rd tc2 1 = rd tc 1 - 1" "rd tc2 2 = rd tc 2 + 1"
    using g b r bnd by (simp_all add: rd_shift3)
  have q: "even (rd tc2 0)" "even (rd tc2 1)"
    using p e by presburger+
  have u': "odd ((rd tc2 2 + rd tc2 0) div 2)"
    using p u e by presburger
  have "faceAdjacentMicrotet tc2 0 = (1, shift3 tc2 0 1 (-1))"
    using micro_closed_a2_up_f0 [OF q u'] e g b r by simp
  then show ?thesis
    using g by (simp add: shift3_shift3 shift3_zero)
qed

lemma cross_back_a1_down_f2:
  assumes p: "odd (rd tc 1)" "even (rd tc 2)" "even (rd tc 0)"
      "odd (rd tc 2 div 2) \<noteq> odd (rd tc 0 div 2)"
    and u: "even ((rd tc 1 + rd tc 2) div 2)"
    and bnd: "rd tc 1 < 65535"
    and adj: "faceAdjacentMicrotet tc 2 = (f2, tc2)" and ns: "f2 \<noteq> -1"
  shows "faceAdjacentMicrotet tc2 f2 = (2, tc)"
proof -
  note r = rd_range [of tc 0] rd_range [of tc 1] rd_range [of tc 2]
  have b: "1 \<le> rd tc 1" "rd tc 2 \<le> 65534" "rd tc 0 \<le> 65534"
    using p r by presburger+
  have hc: "even (rd tc 0)" "odd (rd tc 1)"
    using p by simp_all
  from adj ns micro_closed_a1_down_f2 [OF hc u]
  have g: "\<not> rd tc 1 < 1" "\<not> rd tc 2 < 1" "f2 = 3" "tc2 = shift3 tc 0 (-1) (-1)"
    by (auto split: if_splits)
  have e: "rd tc2 0 = rd tc 0" "rd tc2 1 = rd tc 1 - 1" "rd tc2 2 = rd tc 2 - 1"
    using g b r bnd by (simp_all add: rd_shift3)
  have q: "even (rd tc2 0)" "even (rd tc2 1)"
    using p e by presburger+
  have u': "even ((rd tc2 2 + rd tc2 0) div 2)"
    using p u e by presburger
  have "faceAdjacentMicrotet tc2 3 = (2, shift3 tc2 0 1 1)"
    using micro_closed_a2_down_f3 [OF q u'] e g b r by simp
  then show ?thesis
    using g by (simp add: shift3_shift3 shift3_zero)
qed

lemma cross_back_a1_down_f3:
  assumes p: "odd (rd tc 1)" "even (rd tc 2)" "even (rd tc 0)"
      "odd (rd tc 2 div 2) \<noteq> odd (rd tc 0 div 2)"
    and u: "even ((rd tc 1 + rd tc 2) div 2)"
    and bnd: "rd tc 1 < 65535"
    and adj: "faceAdjacentMicrotet tc 3 = (f2, tc2)" and ns: "f2 \<noteq> -1"
  shows "faceAdjacentMicrotet tc2 f2 = (3, tc)"
proof -
  note r = rd_range [of tc 0] rd_range [of tc 1] rd_range [of tc 2]
  have b: "1 \<le> rd tc 1" "rd tc 2 \<le> 65534" "rd tc 0 \<le> 65534"
    using p r by presburger+
  have hc: "even (rd tc 0)" "odd (rd tc 1)"
    using p by simp_all
  from adj ns micro_closed_a1_down_f3 [OF hc u]
  have g:  "f2 = 2" "tc2 = shift3 tc 1 1 0"
    by (auto split: if_splits)
  have e: "rd tc2 0 = rd tc 0 + 1" "rd tc2 1 = rd tc 1 + 1" "rd tc2 2 = rd tc 2"
    using g b r bnd by (simp_all add: rd_shift3)
  have q: "odd (rd tc2 0)"
    using p e by presburger+
  have u': "even ((rd tc2 0 + rd tc2 1) div 2)"
    using p u e by presburger
  have "faceAdjacentMicrotet tc2 2 = (3, shift3 tc2 (-1) (-1) 0)"
    using micro_closed_a0_down_f2 [OF q u'] e g b r by simp
  then show ?thesis
    using g by (simp add: shift3_shift3 shift3_zero)
qed

lemma cross_back_a2_up_f0:
  assumes p: "odd (rd tc 2)" "even (rd tc 0)" "even (rd tc 1)"
      "odd (rd tc 0 div 2) \<noteq> odd (rd tc 1 div 2)"
    and u: "odd ((rd tc 2 + rd tc 0) div 2)"
    and bnd: "rd tc 2 < 65535"
    and adj: "faceAdjacentMicrotet tc 0 = (f2, tc2)" and ns: "f2 \<noteq> -1"
  shows "faceAdjacentMicrotet tc2 f2 = (0, tc)"
proof -
  note r = rd_range [of tc 0] rd_range [of tc 1] rd_range [of tc 2]
  have b: "1 \<le> rd tc 2" "rd tc 0 \<le> 65534" "rd tc 1 \<le> 65534"
    using p r by presburger+
  have hc: "even (rd tc 0)" "even (rd tc 1)"
    using p by simp_all
  from adj ns micro_closed_a2_up_f0 [OF hc u]
  have g: "\<not> rd tc 2 < 1" "f2 = 1" "tc2 = shift3 tc 0 1 (-1)"
    by (auto split: if_splits)
  have e: "rd tc2 0 = rd tc 0" "rd tc2 1 = rd tc 1 + 1" "rd tc2 2 = rd tc 2 - 1"
    using g b r bnd by (simp_all add: rd_shift3)
  have q: "even (rd tc2 0)" "odd (rd tc2 1)"
    using p e by presburger+
  have u': "even ((rd tc2 1 + rd tc2 2) div 2)"
    using p u e by presburger
  have "faceAdjacentMicrotet tc2 1 = (0, shift3 tc2 0 (-1) 1)"
    using micro_closed_a1_down_f1 [OF q u'] e g b r by simp
  then show ?thesis
    using g by (simp add: shift3_shift3 shift3_zero)
qed

lemma cross_back_a2_up_f1:
  assumes p: "odd (rd tc 2)" "even (rd tc 0)" "even (rd tc 1)"
      "odd (rd tc 0 div 2) \<noteq> odd (rd tc 1 div 2)"
    and u: "odd ((rd tc 2 + rd tc 0) div 2)"
    and bnd: "rd tc 2 < 65535"
    and adj: "faceAdjacentMicrotet tc 1 = (f2, tc2)" and ns: "f2 \<noteq> -1"
  shows "faceAdjacentMicrotet tc2 f2 = (1, tc)"
proof -
  note r = rd_range [of tc 0] rd_range [of tc 1] rd_range [of tc 2]
  have b: "1 \<le> rd tc 2" "rd tc 0 \<le> 65534" "rd tc 1 \<le> 65534"
    using p r by presburger+
  have hc: "even (rd tc 0)" "even (rd tc 1)"
    using p by simp_all
  from adj ns micro_closed_a2_up_f1 [OF hc u]
  have g:  "f2 = 3" "tc2 = shift3 tc 1 0 1"
    by (auto split: if_splits)
  have e: "rd tc2 0 = rd tc 0 + 1" "rd tc2 1 = rd tc 1" "rd tc2 2 = rd tc 2 + 1"
    using g b r bnd by (simp_all add: rd_shift3)
  have q: "odd (rd tc2 0)"
    using p e by presburger+
  have u': "odd ((rd tc2 0 + rd tc2 1) div 2)"
    using p u e by presburger
  have "faceAdjacentMicrotet tc2 3 = (1, shift3 tc2 (-1) 0 (-1))"
    using micro_closed_a0_up_f3 [OF q u'] e g b r by simp
  then show ?thesis
    using g by (simp add: shift3_shift3 shift3_zero)
qed

lemma cross_back_a2_up_f2:
  assumes p: "odd (rd tc 2)" "even (rd tc 0)" "even (rd tc 1)"
      "odd (rd tc 0 div 2) \<noteq> odd (rd tc 1 div 2)"
    and u: "odd ((rd tc 2 + rd tc 0) div 2)"
    and bnd: "rd tc 2 < 65535"
    and adj: "faceAdjacentMicrotet tc 2 = (f2, tc2)" and ns: "f2 \<noteq> -1"
  shows "faceAdjacentMicrotet tc2 f2 = (2, tc)"
proof -
  note r = rd_range [of tc 0] rd_range [of tc 1] rd_range [of tc 2]
  have b: "1 \<le> rd tc 2" "rd tc 0 \<le> 65534" "rd tc 1 \<le> 65534"
    using p r by presburger+
  have hc: "even (rd tc 0)" "even (rd tc 1)"
    using p by simp_all
  from adj ns micro_closed_a2_up_f2 [OF hc u]
  have g: "\<not> rd tc 0 < 1" "f2 = 0" "tc2 = shift3 tc (-1) 0 1"
    by (auto split: if_splits)
  have e: "rd tc2 0 = rd tc 0 - 1" "rd tc2 1 = rd tc 1" "rd tc2 2 = rd tc 2 + 1"
    using g b r bnd by (simp_all add: rd_shift3)
  have q: "odd (rd tc2 0)"
    using p e by presburger+
  have u': "even ((rd tc2 0 + rd tc2 1) div 2)"
    using p u e by presburger
  have "faceAdjacentMicrotet tc2 0 = (2, shift3 tc2 1 0 (-1))"
    using micro_closed_a0_down_f0 [OF q u'] e g b r by simp
  then show ?thesis
    using g by (simp add: shift3_shift3 shift3_zero)
qed

lemma cross_back_a2_up_f3:
  assumes p: "odd (rd tc 2)" "even (rd tc 0)" "even (rd tc 1)"
      "odd (rd tc 0 div 2) \<noteq> odd (rd tc 1 div 2)"
    and u: "odd ((rd tc 2 + rd tc 0) div 2)"
    and bnd: "rd tc 2 < 65535"
    and adj: "faceAdjacentMicrotet tc 3 = (f2, tc2)" and ns: "f2 \<noteq> -1"
  shows "faceAdjacentMicrotet tc2 f2 = (3, tc)"
proof -
  note r = rd_range [of tc 0] rd_range [of tc 1] rd_range [of tc 2]
  have b: "1 \<le> rd tc 2" "rd tc 0 \<le> 65534" "rd tc 1 \<le> 65534"
    using p r by presburger+
  have hc: "even (rd tc 0)" "even (rd tc 1)"
    using p by simp_all
  from adj ns micro_closed_a2_up_f3 [OF hc u]
  have g: "\<not> rd tc 1 < 1" "\<not> rd tc 2 < 1" "f2 = 1" "tc2 = shift3 tc 0 (-1) (-1)"
    by (auto split: if_splits)
  have e: "rd tc2 0 = rd tc 0" "rd tc2 1 = rd tc 1 - 1" "rd tc2 2 = rd tc 2 - 1"
    using g b r bnd by (simp_all add: rd_shift3)
  have q: "even (rd tc2 0)" "odd (rd tc2 1)"
    using p e by presburger+
  have u': "odd ((rd tc2 1 + rd tc2 2) div 2)"
    using p u e by presburger
  have "faceAdjacentMicrotet tc2 1 = (3, shift3 tc2 0 1 1)"
    using micro_closed_a1_up_f1 [OF q u'] e g b r by simp
  then show ?thesis
    using g by (simp add: shift3_shift3 shift3_zero)
qed

lemma cross_back_a2_down_f0:
  assumes p: "odd (rd tc 2)" "even (rd tc 0)" "even (rd tc 1)"
      "odd (rd tc 0 div 2) \<noteq> odd (rd tc 1 div 2)"
    and u: "even ((rd tc 2 + rd tc 0) div 2)"
    and bnd: "rd tc 2 < 65535"
    and adj: "faceAdjacentMicrotet tc 0 = (f2, tc2)" and ns: "f2 \<noteq> -1"
  shows "faceAdjacentMicrotet tc2 f2 = (0, tc)"
proof -
  note r = rd_range [of tc 0] rd_range [of tc 1] rd_range [of tc 2]
  have b: "1 \<le> rd tc 2" "rd tc 0 \<le> 65534" "rd tc 1 \<le> 65534"
    using p r by presburger+
  have hc: "even (rd tc 0)" "even (rd tc 1)"
    using p by simp_all
  from adj ns micro_closed_a2_down_f0 [OF hc u]
  have g: "\<not> rd tc 1 < 1" "f2 = 2" "tc2 = shift3 tc 0 (-1) 1"
    by (auto split: if_splits)
  have e: "rd tc2 0 = rd tc 0" "rd tc2 1 = rd tc 1 - 1" "rd tc2 2 = rd tc 2 + 1"
    using g b r bnd by (simp_all add: rd_shift3)
  have q: "even (rd tc2 0)" "odd (rd tc2 1)"
    using p e by presburger+
  have u': "odd ((rd tc2 1 + rd tc2 2) div 2)"
    using p u e by presburger
  have "faceAdjacentMicrotet tc2 2 = (0, shift3 tc2 0 1 (-1))"
    using micro_closed_a1_up_f2 [OF q u'] e g b r by simp
  then show ?thesis
    using g by (simp add: shift3_shift3 shift3_zero)
qed

lemma cross_back_a2_down_f1:
  assumes p: "odd (rd tc 2)" "even (rd tc 0)" "even (rd tc 1)"
      "odd (rd tc 0 div 2) \<noteq> odd (rd tc 1 div 2)"
    and u: "even ((rd tc 2 + rd tc 0) div 2)"
    and bnd: "rd tc 2 < 65535"
    and adj: "faceAdjacentMicrotet tc 1 = (f2, tc2)" and ns: "f2 \<noteq> -1"
  shows "faceAdjacentMicrotet tc2 f2 = (1, tc)"
proof -
  note r = rd_range [of tc 0] rd_range [of tc 1] rd_range [of tc 2]
  have b: "1 \<le> rd tc 2" "rd tc 0 \<le> 65534" "rd tc 1 \<le> 65534"
    using p r by presburger+
  have hc: "even (rd tc 0)" "even (rd tc 1)"
    using p by simp_all
  from adj ns micro_closed_a2_down_f1 [OF hc u]
  have g: "\<not> rd tc 2 < 1" "f2 = 0" "tc2 = shift3 tc 1 0 (-1)"
    by (auto split: if_splits)
  have e: "rd tc2 0 = rd tc 0 + 1" "rd tc2 1 = rd tc 1" "rd tc2 2 = rd tc 2 - 1"
    using g b r bnd by (simp_all add: rd_shift3)
  have q: "odd (rd tc2 0)"
    using p e by presburger+
  have u': "odd ((rd tc2 0 + rd tc2 1) div 2)"
    using p u e by presburger
  have "faceAdjacentMicrotet tc2 0 = (1, shift3 tc2 (-1) 0 1)"
    using micro_closed_a0_up_f0 [OF q u'] e g b r by simp
  then show ?thesis
    using g by (simp add: shift3_shift3 shift3_zero)
qed

lemma cross_back_a2_down_f2:
  assumes p: "odd (rd tc 2)" "even (rd tc 0)" "even (rd tc 1)"
      "odd (rd tc 0 div 2) \<noteq> odd (rd tc 1 div 2)"
    and u: "even ((rd tc 2 + rd tc 0) div 2)"
    and bnd: "rd tc 2 < 65535"
    and adj: "faceAdjacentMicrotet tc 2 = (f2, tc2)" and ns: "f2 \<noteq> -1"
  shows "faceAdjacentMicrotet tc2 f2 = (2, tc)"
proof -
  note r = rd_range [of tc 0] rd_range [of tc 1] rd_range [of tc 2]
  have b: "1 \<le> rd tc 2" "rd tc 0 \<le> 65534" "rd tc 1 \<le> 65534"
    using p r by presburger+
  have hc: "even (rd tc 0)" "even (rd tc 1)"
    using p by simp_all
  from adj ns micro_closed_a2_down_f2 [OF hc u]
  have g: "\<not> rd tc 0 < 1" "\<not> rd tc 2 < 1" "f2 = 3" "tc2 = shift3 tc (-1) 0 (-1)"
    by (auto split: if_splits)
  have e: "rd tc2 0 = rd tc 0 - 1" "rd tc2 1 = rd tc 1" "rd tc2 2 = rd tc 2 - 1"
    using g b r bnd by (simp_all add: rd_shift3)
  have q: "odd (rd tc2 0)"
    using p e by presburger+
  have u': "even ((rd tc2 0 + rd tc2 1) div 2)"
    using p u e by presburger
  have "faceAdjacentMicrotet tc2 3 = (2, shift3 tc2 1 0 1)"
    using micro_closed_a0_down_f3 [OF q u'] e g b r by simp
  then show ?thesis
    using g by (simp add: shift3_shift3 shift3_zero)
qed

lemma cross_back_a2_down_f3:
  assumes p: "odd (rd tc 2)" "even (rd tc 0)" "even (rd tc 1)"
      "odd (rd tc 0 div 2) \<noteq> odd (rd tc 1 div 2)"
    and u: "even ((rd tc 2 + rd tc 0) div 2)"
    and bnd: "rd tc 2 < 65535"
    and adj: "faceAdjacentMicrotet tc 3 = (f2, tc2)" and ns: "f2 \<noteq> -1"
  shows "faceAdjacentMicrotet tc2 f2 = (3, tc)"
proof -
  note r = rd_range [of tc 0] rd_range [of tc 1] rd_range [of tc 2]
  have b: "1 \<le> rd tc 2" "rd tc 0 \<le> 65534" "rd tc 1 \<le> 65534"
    using p r by presburger+
  have hc: "even (rd tc 0)" "even (rd tc 1)"
    using p by simp_all
  from adj ns micro_closed_a2_down_f3 [OF hc u]
  have g:  "f2 = 2" "tc2 = shift3 tc 0 1 1"
    by (auto split: if_splits)
  have e: "rd tc2 0 = rd tc 0" "rd tc2 1 = rd tc 1 + 1" "rd tc2 2 = rd tc 2 + 1"
    using g b r bnd by (simp_all add: rd_shift3)
  have q: "even (rd tc2 0)" "odd (rd tc2 1)"
    using p e by presburger+
  have u': "even ((rd tc2 1 + rd tc2 2) div 2)"
    using p u e by presburger
  have "faceAdjacentMicrotet tc2 2 = (3, shift3 tc2 0 (-1) (-1))"
    using micro_closed_a1_down_f2 [OF q u'] e g b r by simp
  then show ?thesis
    using g by (simp add: shift3_shift3 shift3_zero)
qed

lemma cross_back_axis0:
  assumes p: "odd (rd tc 0)" "even (rd tc 1)" "even (rd tc 2)"
      "odd (rd tc 1 div 2) \<noteq> odd (rd tc 2 div 2)"
    and bnd: "rd tc 0 < 65535"
    and f: "face = 0 \<or> face = 1 \<or> face = 2 \<or> face = 3"
    and adj: "faceAdjacentMicrotet tc face = (f2, tc2)" and ns: "f2 \<noteq> -1"
  shows "faceAdjacentMicrotet tc2 f2 = (face, tc)"
proof (cases "odd ((rd tc 0 + rd tc 1) div 2)")
  case True
  from f show ?thesis
  proof (elim disjE)
    assume f0: "face = 0"
    from cross_back_a0_up_f0 [OF p True bnd adj [unfolded f0] ns] show ?thesis
      by (simp add: f0)
  next
    assume f1: "face = 1"
    from cross_back_a0_up_f1 [OF p True bnd adj [unfolded f1] ns] show ?thesis
      by (simp add: f1)
  next
    assume f2: "face = 2"
    from cross_back_a0_up_f2 [OF p True bnd adj [unfolded f2] ns] show ?thesis
      by (simp add: f2)
  next
    assume f3: "face = 3"
    from cross_back_a0_up_f3 [OF p True bnd adj [unfolded f3] ns] show ?thesis
      by (simp add: f3)
  qed
next
  case False
  then have ev: "even ((rd tc 0 + rd tc 1) div 2)"
    by simp
  from f show ?thesis
  proof (elim disjE)
    assume f0: "face = 0"
    from cross_back_a0_down_f0 [OF p ev bnd adj [unfolded f0] ns] show ?thesis
      by (simp add: f0)
  next
    assume f1: "face = 1"
    from cross_back_a0_down_f1 [OF p ev bnd adj [unfolded f1] ns] show ?thesis
      by (simp add: f1)
  next
    assume f2: "face = 2"
    from cross_back_a0_down_f2 [OF p ev bnd adj [unfolded f2] ns] show ?thesis
      by (simp add: f2)
  next
    assume f3: "face = 3"
    from cross_back_a0_down_f3 [OF p ev bnd adj [unfolded f3] ns] show ?thesis
      by (simp add: f3)
  qed
qed

lemma cross_back_axis1:
  assumes p: "odd (rd tc 1)" "even (rd tc 2)" "even (rd tc 0)"
      "odd (rd tc 2 div 2) \<noteq> odd (rd tc 0 div 2)"
    and bnd: "rd tc 1 < 65535"
    and f: "face = 0 \<or> face = 1 \<or> face = 2 \<or> face = 3"
    and adj: "faceAdjacentMicrotet tc face = (f2, tc2)" and ns: "f2 \<noteq> -1"
  shows "faceAdjacentMicrotet tc2 f2 = (face, tc)"
proof (cases "odd ((rd tc 1 + rd tc 2) div 2)")
  case True
  from f show ?thesis
  proof (elim disjE)
    assume f0: "face = 0"
    from cross_back_a1_up_f0 [OF p True bnd adj [unfolded f0] ns] show ?thesis
      by (simp add: f0)
  next
    assume f1: "face = 1"
    from cross_back_a1_up_f1 [OF p True bnd adj [unfolded f1] ns] show ?thesis
      by (simp add: f1)
  next
    assume f2: "face = 2"
    from cross_back_a1_up_f2 [OF p True bnd adj [unfolded f2] ns] show ?thesis
      by (simp add: f2)
  next
    assume f3: "face = 3"
    from cross_back_a1_up_f3 [OF p True bnd adj [unfolded f3] ns] show ?thesis
      by (simp add: f3)
  qed
next
  case False
  then have ev: "even ((rd tc 1 + rd tc 2) div 2)"
    by simp
  from f show ?thesis
  proof (elim disjE)
    assume f0: "face = 0"
    from cross_back_a1_down_f0 [OF p ev bnd adj [unfolded f0] ns] show ?thesis
      by (simp add: f0)
  next
    assume f1: "face = 1"
    from cross_back_a1_down_f1 [OF p ev bnd adj [unfolded f1] ns] show ?thesis
      by (simp add: f1)
  next
    assume f2: "face = 2"
    from cross_back_a1_down_f2 [OF p ev bnd adj [unfolded f2] ns] show ?thesis
      by (simp add: f2)
  next
    assume f3: "face = 3"
    from cross_back_a1_down_f3 [OF p ev bnd adj [unfolded f3] ns] show ?thesis
      by (simp add: f3)
  qed
qed

lemma cross_back_axis2:
  assumes p: "odd (rd tc 2)" "even (rd tc 0)" "even (rd tc 1)"
      "odd (rd tc 0 div 2) \<noteq> odd (rd tc 1 div 2)"
    and bnd: "rd tc 2 < 65535"
    and f: "face = 0 \<or> face = 1 \<or> face = 2 \<or> face = 3"
    and adj: "faceAdjacentMicrotet tc face = (f2, tc2)" and ns: "f2 \<noteq> -1"
  shows "faceAdjacentMicrotet tc2 f2 = (face, tc)"
proof (cases "odd ((rd tc 2 + rd tc 0) div 2)")
  case True
  from f show ?thesis
  proof (elim disjE)
    assume f0: "face = 0"
    from cross_back_a2_up_f0 [OF p True bnd adj [unfolded f0] ns] show ?thesis
      by (simp add: f0)
  next
    assume f1: "face = 1"
    from cross_back_a2_up_f1 [OF p True bnd adj [unfolded f1] ns] show ?thesis
      by (simp add: f1)
  next
    assume f2: "face = 2"
    from cross_back_a2_up_f2 [OF p True bnd adj [unfolded f2] ns] show ?thesis
      by (simp add: f2)
  next
    assume f3: "face = 3"
    from cross_back_a2_up_f3 [OF p True bnd adj [unfolded f3] ns] show ?thesis
      by (simp add: f3)
  qed
next
  case False
  then have ev: "even ((rd tc 2 + rd tc 0) div 2)"
    by simp
  from f show ?thesis
  proof (elim disjE)
    assume f0: "face = 0"
    from cross_back_a2_down_f0 [OF p ev bnd adj [unfolded f0] ns] show ?thesis
      by (simp add: f0)
  next
    assume f1: "face = 1"
    from cross_back_a2_down_f1 [OF p ev bnd adj [unfolded f1] ns] show ?thesis
      by (simp add: f1)
  next
    assume f2: "face = 2"
    from cross_back_a2_down_f2 [OF p ev bnd adj [unfolded f2] ns] show ?thesis
      by (simp add: f2)
  next
    assume f3: "face = 3"
    from cross_back_a2_down_f3 [OF p ev bnd adj [unfolded f3] ns] show ?thesis
      by (simp add: f3)
  qed
qed

text \<open>
  C2, as the code has it. Let \<open>tc\<close> be a valid centroid of the finest level whose half-axis
  coordinate is below 65535, the largest \<^verbatim>\<open>unsigned short\<close>, and let \<open>face\<close> be one of
  0, 1, 2, 3. If \<^verbatim>\<open>faceAdjacentMicrotet\<close> returns a face \<open>f2\<close> other than the boundary value
  \<open>-1\<close> and the adjacent centroid \<open>tc2\<close>, then \<^verbatim>\<open>faceAdjacentMicrotet\<close> on \<open>tc2\<close> and \<open>f2\<close>
  returns \<open>face\<close> and \<open>tc\<close>.
\<close>

theorem faceAdjacentMicrotet_involution:
  assumes "valid_centroid tc" and "centroidHalfAxisSize tc = Some (hc, 1)"
    and "rd tc hc < 65535"
    and "face = 0 \<or> face = 1 \<or> face = 2 \<or> face = 3"
    and "faceAdjacentMicrotet tc face = (f2, tc2)" and "f2 \<noteq> -1"
  shows "faceAdjacentMicrotet tc2 f2 = (face, tc)"
proof -
  note m = micro_facts [OF assms(1,2)]
  from m(1) show ?thesis
  proof (elim disjE)
    assume h: "hc = 0"
    from m(2-5) assms(3) have "odd (rd tc 0)" "even (rd tc 1)" "even (rd tc 2)"
      "odd (rd tc 1 div 2) \<noteq> odd (rd tc 2 div 2)" "rd tc 0 < 65535"
      by (simp_all add: h Suc_Suc_0_eq_2)
    then show ?thesis
      using assms(4-6) by (rule cross_back_axis0)
  next
    assume h: "hc = 1"
    from m(2-5) assms(3) have "odd (rd tc 1)" "even (rd tc 2)" "even (rd tc 0)"
      "odd (rd tc 2 div 2) \<noteq> odd (rd tc 0 div 2)" "rd tc 1 < 65535"
      by (simp_all add: h Suc_Suc_0_eq_2)
    then show ?thesis
      using assms(4-6) by (rule cross_back_axis1)
  next
    assume h: "hc = 2"
    from m(2-5) assms(3) have "odd (rd tc 2)" "even (rd tc 0)" "even (rd tc 1)"
      "odd (rd tc 0 div 2) \<noteq> odd (rd tc 1 div 2)" "rd tc 2 < 65535"
      by (simp_all add: h Suc_Suc_0_eq_2)
    then show ?thesis
      using assms(4-6) by (rule cross_back_axis2)
  qed
qed

theorem faceAdjacentMicrotet_involution_witness:
  "valid_centroid (1, 2, 0) \<and> centroidHalfAxisSize (1, 2, 0) = Some (0, 1) \<and>
   rd (1, 2, 0) 0 < 65535 \<and>
   faceAdjacentMicrotet (1, 2, 0) 1 = (3, (2, 3, 0)) \<and>
   faceAdjacentMicrotet (2, 3, 0) 3 = (1, (1, 2, 0))"
  using faceAdjacentMicrotet_involution [of "(1, 2, 0)" 0 1 3 "(2, 3, 0)"]
  by code_simp

text \<open>
  The claim as it is written, for every valid centroid of the finest level, fails where
  the increment of the half-axis coordinate overflows the \<^verbatim>\<open>unsigned short\<close>: from
  \<open>(0, 2, 65535)\<close> across face 1 the code stores \<open>65535 + 1 = 0\<close>, reports face 3 of the
  centroid \<open>(1, 2, 0)\<close>, and crossing face 3 of that centroid reports the boundary.
\<close>

theorem faceAdjacentMicrotet_involution_counterexample:
  "valid_centroid (0, 2, 65535) \<and> centroidHalfAxisSize (0, 2, 65535) = Some (2, 1) \<and>
   faceAdjacentMicrotet (0, 2, 65535) 1 = (3, (1, 2, 0)) \<and>
   faceAdjacentMicrotet (1, 2, 0) 3 = (-1, (0, 2, 0)) \<and>
   faceAdjacentMicrotet (1, 2, 0) 3 \<noteq> (1, (0, 2, 65535))"
  by code_simp

section \<open>Face neighbours among virtual-noded tetrahedra\<close>

lemma scanCandidates_accepts:
  assumes "scanCandidates st faceNodes adjFace ts = Inr adjTets" and "t \<in> set adjTets"
  shows "t \<in> set ts \<and>
         (\<exists>tn. subscript (tetNodes st) t = Inr tn \<and> set (faceNodeList tn adjFace) \<subseteq> faceNodes)"
  using assms
proof (induction ts arbitrary: adjTets)
  case Nil
  then show ?case by simp
next
  case (Cons a ts)
  from Cons.prems(1) obtain tn rest where
    tn: "subscript (tetNodes st) a = Inr tn" and
    rest: "scanCandidates st faceNodes adjFace ts = Inr rest" and
    res: "adjTets = (if \<forall>n \<in> set (faceNodeList tn adjFace). n \<in> faceNodes then a # rest else rest)"
    by (auto split: sum.splits if_splits)
  show ?case
  proof (cases "t \<in> set rest")
    case True
    from Cons.IH [OF rest True] show ?thesis by auto
  next
    case False
    with Cons.prems(2) res have "t = a" "\<forall>n \<in> set (faceNodeList tn adjFace). n \<in> faceNodes"
      by (auto split: if_splits)
    with tn show ?thesis by auto
  qed
qed

lemma three_distinct_subset:
  assumes "distinct xs" "length xs = 3" "set xs \<subseteq> set ys" "length ys = 3"
  shows "set xs = set ys"
proof -
  have "card (set xs) = 3" using assms(1,2) by (simp add: distinct_card)
  moreover have "card (set ys) \<le> 3" using card_length [of ys] assms(4) by simp
  ultimately have "card (set ys) \<le> card (set xs)" by simp
  with assms(3) show ?thesis by (intro card_seteq) simp_all
qed

lemma faceNodeList_subset: "set (faceNodeList tn face) \<subseteq> {at4 tn 0, at4 tn 1, at4 tn 2, at4 tn 3}"
proof -
  have "\<And>j::int. at4 tn j \<in> {at4 tn 0, at4 tn 1, at4 tn 2, at4 tn 3}"
    by (cases tn) auto
  then show ?thesis by (auto simp add: faceNodeList_def)
qed

text \<open>
  C4. Let \<^verbatim>\<open>faceAdjacentMicrotets\<close> return the face \<open>adjFace\<close> and the list \<open>adjTets\<close> for a
  tetrahedron \<open>tet\<close> and a face. Every returned \<open>t\<close> is stored under the adjacent centroid,
  and the three nodes of its face \<open>adjFace\<close> all occur among the three nodes of the
  queried face; when these three nodes of \<open>t\<close> are different nodes (as the nodes of a
  tetrahedron are), the two faces have the same three nodes. In particular a returned
  tetrahedron is never a duplicate whose node set is disjoint from that of \<open>tet\<close>.
\<close>

theorem faceAdjacentMicrotets_share_face_nodes:
  assumes "faceAdjacentMicrotets st tet face = Inr (adjFace, adjTets)" and "t \<in> set adjTets"
  shows "\<exists>tc tn tn2.
           subscript (tetCentroids st) tet = Inr tc \<and>
           subscript (tetNodes st) tet = Inr tn \<and>
           subscript (tetNodes st) t = Inr tn2 \<and>
           t \<in> set (equal_range st (snd (faceAdjacentMicrotet tc face))) \<and>
           set (faceNodeList tn2 adjFace) \<subseteq> set (faceNodeList tn face) \<and>
           (distinct (faceNodeList tn2 adjFace) \<longrightarrow>
              set (faceNodeList tn2 adjFace) = set (faceNodeList tn face)) \<and>
           {at4 tn2 0, at4 tn2 1, at4 tn2 2, at4 tn2 3} \<inter>
             {at4 tn 0, at4 tn 1, at4 tn 2, at4 tn 3} \<noteq> {}"
proof -
  from assms(1) obtain tc tn where
    tc: "subscript (tetCentroids st) tet = Inr tc" and
    tn: "subscript (tetNodes st) tet = Inr tn" and
    af: "adjFace = fst (faceAdjacentMicrotet tc face)" and
    sc: "scanCandidates st (set (faceNodeList tn face)) adjFace
           (equal_range st (snd (faceAdjacentMicrotet tc face))) = Inr adjTets"
    by (auto simp add: faceAdjacentMicrotets_def Let_def split: sum.splits prod.splits)
  from scanCandidates_accepts [OF sc assms(2)] obtain tn2 where
    mem: "t \<in> set (equal_range st (snd (faceAdjacentMicrotet tc face)))" and
    tn2: "subscript (tetNodes st) t = Inr tn2" and
    sub: "set (faceNodeList tn2 adjFace) \<subseteq> set (faceNodeList tn face)"
    by blast
  have eq: "distinct (faceNodeList tn2 adjFace) \<longrightarrow>
      set (faceNodeList tn2 adjFace) = set (faceNodeList tn face)"
    using sub by (auto intro!: three_distinct_subset simp add: faceNodeList_def)
  have "at4 tn2 (adjFace AND 3) \<in> set (faceNodeList tn2 adjFace)"
    by (simp add: faceNodeList_def)
  with sub have "at4 tn2 (adjFace AND 3) \<in> set (faceNodeList tn face)" by blast
  moreover have "at4 tn2 (adjFace AND 3) \<in> {at4 tn2 0, at4 tn2 1, at4 tn2 2, at4 tn2 3}"
    by (cases tn2) auto
  ultimately have "{at4 tn2 0, at4 tn2 1, at4 tn2 2, at4 tn2 3} \<inter>
      {at4 tn 0, at4 tn 1, at4 tn 2, at4 tn 3} \<noteq> {}"
    using faceNodeList_subset [of tn face] by blast
  with tc tn tn2 mem sub eq show ?thesis by blast
qed

theorem faceAdjacentMicrotets_share_face_nodes_witness:
  "faceAdjacentMicrotets cut_store 0 1 = Inr (3, [1]) \<and>
   (\<exists>tc tn tn2.
      subscript (tetCentroids cut_store) 0 = Inr tc \<and>
      subscript (tetNodes cut_store) 0 = Inr tn \<and>
      subscript (tetNodes cut_store) 1 = Inr tn2 \<and>
      1 \<in> set (equal_range cut_store (snd (faceAdjacentMicrotet tc 1))) \<and>
      set (faceNodeList tn2 3) \<subseteq> set (faceNodeList tn 1) \<and>
      (distinct (faceNodeList tn2 3) \<longrightarrow>
         set (faceNodeList tn2 3) = set (faceNodeList tn 1)) \<and>
      {at4 tn2 0, at4 tn2 1, at4 tn2 2, at4 tn2 3} \<inter>
        {at4 tn 0, at4 tn 1, at4 tn 2, at4 tn 3} \<noteq> {})"
proof -
  have run: "faceAdjacentMicrotets cut_store 0 1 = Inr (3, [1])"
    by code_simp
  have mem: "(1::int) \<in> set [1]"
    by simp
  from faceAdjacentMicrotets_share_face_nodes [OF run mem] run show ?thesis
    by blast
qed

section \<open>Arithmetic in units of the size\<close>

lemma sc_add: "scaled k a + scaled k b = scaled k (a + b)"
  by (simp add: scaled_def distrib_left)

lemma sc_diff: "scaled k a - scaled k b = scaled k (a - b)"
  by (simp add: scaled_def right_diff_distrib)

lemma sc_neg: "- scaled k a = scaled k (- a)"
  by (simp add: scaled_def)

lemma sc_zero: "scaled k 0 = 0"
  by (simp add: scaled_def)

lemma sc_push: "push_bit (Suc 0) (scaled k a) = scaled k (2 * a)"
  by (simp add: scaled_def push_bit_eq_mult)

lemma sc_double: "2 * scaled k a = scaled k (2 * a)" "scaled k a * 2 = scaled k (2 * a)"
  by (simp_all add: scaled_def)

lemma sc_drop: "drop_bit (Suc 0) (scaled k 2) = scaled k 1"
  by (simp add: scaled_def drop_bit_eq_div)

lemma sc_and: "scaled k a AND scaled k b = scaled k (a AND b)"
proof -
  have "push_bit k a AND push_bit k b = push_bit k (a AND b)"
    by simp
  then show ?thesis
    by (simp add: scaled_def push_bit_eq_mult mult.commute)
qed

lemma sc_eq: "(scaled k a = scaled k b) = (a = b)"
  by (simp add: scaled_def)

lemma sc_eq0: "(scaled k a = 0) = (a = 0)"
  by (simp add: scaled_def)

lemma sc_less: "(scaled k a < scaled k b) = (a < b)"
  by (simp add: scaled_def)

lemma sc_2_not_less: "(scaled k 2 < 2) = False"
proof -
  have "(1::int) \<le> 2 ^ k" by simp
  then have "\<not> (2::int) ^ k * 2 < 2" by linarith
  then show ?thesis by (simp only: scaled_def)
qed

lemma and_mod16:
  fixes x y :: int
  assumes "0 \<le> y" "y < 65536"
  shows "(x mod 65536) AND y = x AND y"
proof -
  have y: "take_bit 16 y = y"
    using assms by (simp add: take_bit_eq_mod)
  have "take_bit 16 x AND take_bit 16 y = take_bit 16 (x AND y)"
    by simp
  also have "\<dots> = x AND take_bit 16 y"
    by (rule bit_eqI) (auto simp add: bit_take_bit_iff bit_and_iff)
  finally show ?thesis
    using y by (simp add: take_bit_eq_mod)
qed

lemma sc_bound:
  assumes "k \<le> 13" "0 \<le> m" "m \<le> 4"
  shows "0 \<le> scaled k m" "scaled k m < 65536"
proof -
  have "(2::int) ^ k \<le> 2 ^ 13"
    using assms(1) by (intro power_increasing) simp_all
  then have p: "(2::int) ^ k \<le> 8192" by simp
  show "0 \<le> scaled k m" using assms(2) by (simp add: scaled_def)
  have "scaled k m \<le> 2 ^ k * 4"
    unfolding scaled_def using assms(3) by (intro mult_left_mono) simp_all
  with p show "scaled k m < 65536" by simp
qed

lemma and_mod16_sc:
  "k \<le> 13 \<Longrightarrow> (x mod 65536) AND scaled k 1 = x AND scaled k 1"
  "k \<le> 13 \<Longrightarrow> (x mod 65536) AND scaled k 2 = x AND scaled k 2"
  "k \<le> 13 \<Longrightarrow> (x mod 65536) AND scaled k 4 = x AND scaled k 4"
  by (intro and_mod16 sc_bound; simp)+

lemma and_low3:
  "(8 * q + r) AND 1 = r AND (1::int)"
  "(8 * q + r) AND 2 = r AND (2::int)"
  "(8 * q + r) AND 4 = r AND (4::int)"
  by (simp_all add: and_one_int and_two_int and_four_int) presburger+

lemma u8_add: "unit8 k q r + scaled k d = unit8 k q (r + d)"
  by (simp add: unit8_def sc_add add.assoc)

lemma u8_diff: "unit8 k q r - scaled k d = unit8 k q (r - d)"
  by (simp add: unit8_def sc_diff algebra_simps)

lemma u8_and:
  "unit8 k q r AND scaled k 1 = scaled k (r AND 1)"
  "unit8 k q r AND scaled k 2 = scaled k (r AND 2)"
  "unit8 k q r AND scaled k 4 = scaled k (r AND 4)"
  by (simp_all only: unit8_def sc_and and_low3)

lemmas sc_simps = sc_add sc_diff sc_neg sc_zero sc_push sc_double sc_drop sc_and sc_eq sc_eq0
  sc_less sc_2_not_less and_mod16_sc u8_add u8_diff u8_and

section \<open>Decoding in units of the size\<close>

lemma loop_skip:
  assumes "\<forall>i\<in>{0, 1, 2}. \<forall>j<k. \<not> bit (rd c i) j" and "k \<le> n"
  shows "halfAxisSize_loop n 1 c = halfAxisSize_loop (n - k) (2 ^ k) c"
  using assms
proof (induction k)
  case 0
  then show ?case by simp
next
  case (Suc k)
  then have ih: "halfAxisSize_loop n 1 c = halfAxisSize_loop (n - k) (2 ^ k) c"
    by simp
  from Suc.prems(1) have clr: "\<not> bit (rd c 0) k" "\<not> bit (rd c 1) k" "\<not> bit (rd c 2) k"
    by simp_all
  from Suc.prems(2) have pos: "0 < n - k" by simp
  have "halfAxisSize_loop (n - k) (2 ^ k) c = halfAxisSize_loop (n - k - 1) (push_bit 1 (2 ^ k)) c"
    using clr by (subst loop_unfold [OF pos]) (simp add: and_pow2_int)
  also have "\<dots> = halfAxisSize_loop (n - Suc k) (2 ^ Suc k) c"
    by (simp add: push_bit_eq_mult mult.commute)
  finally show ?case using ih by simp
qed

lemma bits_of_scaled:
  assumes "x = scaled k a mod 65536"
  shows "\<forall>j<k. \<not> bit x j" and "k < 16 \<Longrightarrow> bit x k = odd a"
proof -
  have x: "x = take_bit 16 (push_bit k a)"
    using assms by (simp add: scaled_def take_bit_eq_mod push_bit_eq_mult mult.commute)
  show "\<forall>j<k. \<not> bit x j"
    by (simp add: x bit_take_bit_iff bit_push_bit_iff)
  show "bit x k = odd a" if "k < 16"
    using that by (simp add: x bit_take_bit_iff bit_push_bit_iff bit_0)
qed

lemma decode_scaled:
  assumes k: "k < 16"
    and e: "rd c 0 = scaled k a0 mod 65536" "rd c 1 = scaled k a1 mod 65536"
      "rd c 2 = scaled k a2 mod 65536"
    and o: "odd a0 \<or> odd a1 \<or> odd a2"
  shows "centroidHalfAxisSize c =
     Some (if odd a0 then 0 else if odd a1 then 1 else 2, scaled k 1)"
proof -
  note b0 = bits_of_scaled [OF e(1)] and b1 = bits_of_scaled [OF e(2)]
    and b2 = bits_of_scaled [OF e(3)]
  have "\<forall>i\<in>{0, 1, 2}. \<forall>j<k. \<not> bit (rd c i) j"
    using b0(1) b1(1) b2(1) by simp
  moreover have "k \<le> 16" using k by simp
  ultimately have skip: "halfAxisSize_loop 16 1 c = halfAxisSize_loop (16 - k) (2 ^ k) c"
    by (rule loop_skip)
  have pos: "0 < 16 - k" using k by simp
  have "halfAxisSize_loop (16 - k) (2 ^ k) c =
      Some (if odd a0 then 0 else if odd a1 then 1 else 2, 2 ^ k)"
    using o b0(2) [OF k] b1(2) [OF k] b2(2) [OF k]
    by (subst loop_unfold [OF pos]) (auto simp add: and_pow2_int)
  with skip show ?thesis
    by (simp add: centroidHalfAxisSize_def scaled_def)
qed

lemma decode_unit8:
  assumes k: "k < 16"
    and e: "rd c 0 = unit8 k q0 r0 mod 65536" "rd c 1 = unit8 k q1 r1 mod 65536"
      "rd c 2 = unit8 k q2 r2 mod 65536"
    and o: "odd r0 \<or> odd r1 \<or> odd r2"
  shows "centroidHalfAxisSize c =
     Some (if odd r0 then 0 else if odd r1 then 1 else 2, scaled k 1)"
  using decode_scaled [OF k e [unfolded unit8_def]] o by simp

lemma loop_result_bits:
  "halfAxisSize_loop n (2 ^ j) c = Some (h, s') \<Longrightarrow>
     \<exists>k. j \<le> k \<and> k < j + n \<and> s' = 2 ^ k \<and> h \<le> 2 \<and> bit (rd c h) k \<and>
       (\<forall>i\<in>{0, 1, 2}. \<forall>l. j \<le> l \<and> l < k \<longrightarrow> \<not> bit (rd c i) l)"
proof (induction n arbitrary: j)
  case 0
  then show ?case by simp
next
  case (Suc n)
  show ?case
  proof (cases "bit (rd c 0) j \<or> bit (rd c 1) j \<or> bit (rd c 2) j")
    case True
    with Suc.prems have "s' = 2 ^ j \<and> h \<le> 2 \<and> bit (rd c h) j"
      by (auto simp add: and_pow2_int split: if_splits)
    then show ?thesis by (intro exI [of _ j]) auto
  next
    case False
    with Suc.prems have "halfAxisSize_loop n (2 ^ Suc j) c = Some (h, s')"
      by (simp add: and_pow2_int push_bit_eq_mult mult.commute)
    from Suc.IH [OF this] obtain k where k: "Suc j \<le> k" "k < Suc j + n" "s' = 2 ^ k" "h \<le> 2"
      "bit (rd c h) k" "\<forall>i\<in>{0, 1, 2}. \<forall>l. Suc j \<le> l \<and> l < k \<longrightarrow> \<not> bit (rd c i) l"
      by blast
    have "\<forall>i\<in>{0, 1, 2}. \<forall>l. j \<le> l \<and> l < k \<longrightarrow> \<not> bit (rd c i) l"
    proof (intro ballI allI impI)
      fix i :: nat and l
      assume i: "i \<in> {0, 1, 2}" and l: "j \<le> l \<and> l < k"
      show "\<not> bit (rd c i) l"
      proof (cases "l = j")
        case True
        with False i show ?thesis by auto
      next
        case False
        with l have "Suc j \<le> l \<and> l < k" by simp
        with k(6) i show ?thesis by blast
      qed
    qed
    with k show ?thesis by (intro exI [of _ k]) simp
  qed
qed

lemma low_bits_clear_dvd:
  assumes "\<forall>l<k. \<not> bit (x::int) l"
  shows "2 ^ k dvd x"
proof -
  have "take_bit k x = 0"
    using assms by (intro bit_eqI) (simp add: bit_take_bit_iff)
  then show ?thesis by (simp add: take_bit_eq_0_iff)
qed

lemma decode_units:
  assumes "centroidHalfAxisSize c = Some (h, s)"
  obtains k n0 n1 n2 where "k < 16" "s = 2 ^ k" "h = 0 \<or> h = 1 \<or> h = 2"
    "rd c 0 = 2 ^ k * n0" "rd c 1 = 2 ^ k * n1" "rd c 2 = 2 ^ k * n2"
    "bit (rd c h) k"
proof -
  from loop_result_bits [of 16 0 c h s] assms
  obtain k where k: "k < 16" "s = 2 ^ k" "h \<le> 2" "bit (rd c h) k"
    "\<forall>i\<in>{0, 1, 2}. \<forall>l. l < k \<longrightarrow> \<not> bit (rd c i) l"
    by (auto simp add: centroidHalfAxisSize_def)
  from k(5) have "2 ^ k dvd rd c 0" "2 ^ k dvd rd c 1" "2 ^ k dvd rd c 2"
    by (simp_all add: low_bits_clear_dvd)
  then obtain n0 n1 n2 where "rd c 0 = 2 ^ k * n0" "rd c 1 = 2 ^ k * n1" "rd c 2 = 2 ^ k * n2"
    unfolding dvd_def by blast
  moreover from k(3) have "h = 0 \<or> h = 1 \<or> h = 2" by linarith
  ultimately show thesis using k(1,2,4) that by blast
qed

lemma set3_restore:
  "set3 (shift3 c a b d) 0 (at3 (shift3 c a' b' d') 0) = shift3 c a' b d"
  "set3 (shift3 c a b d) (Suc 0) (at3 (shift3 c a' b' d') (Suc 0)) = shift3 c a b' d"
  "set3 (shift3 c a b d) 2 (at3 (shift3 c a' b' d') 2) = shift3 c a b d'"
  by (simp_all add: shift3_def)

section \<open>Promoting the children of a centroid\<close>

lemma promote_children_a0_r10_r8:
  assumes k: "k \<le> 13"
    and d: "centroidHalfAxisSize P = Some (0, scaled k 2)"
    and e: "rd P 0 = unit8 k q0 10" "rd P 1 = unit8 k q1 8" "rd P 2 = unit8 k q2 12"
  shows "\<exists>subs. subtetCentroids P = Inr subs \<and> length subs = 8 \<and>
           (\<forall>ch\<in>set subs. ch \<noteq> markInvalid \<longrightarrow> centroidUpOneLevel b ch = Inr P)"
proof -
  have m: "unit8 k q0 10 mod 65536 = unit8 k q0 10" "unit8 k q1 8 mod 65536 = unit8 k q1 8"
    "unit8 k q2 12 mod 65536 = unit8 k q2 12"
    using rd_mod_id [of P 0] rd_mod_id [of P 1] rd_mod_id [of P 2] e by simp_all
  have s: "subtetCentroids P = Inr
     [if rd P 1 < scaled k 2 then markInvalid else shift3 P (scaled k 1) (scaled k (-2)) 0,
      shift3 P (scaled k 1) (scaled k 2) 0,
      if rd P 2 < scaled k 2 then markInvalid else shift3 P (scaled k (-1)) 0 (scaled k (-2)),
      shift3 P (scaled k (-1)) 0 (scaled k 2),
      if rd P 1 < scaled k 1 then markInvalid else shift3 P 0 (scaled k (-1)) 0,
      shift3 P 0 (scaled k 1) 0,
      if rd P 2 < scaled k 1 then markInvalid else shift3 P 0 0 (scaled k (-1)),
      shift3 P 0 0 (scaled k 1)]"
    using k e m
    by (simp add: subtetCentroids_def d Let_def pa_simps sc_simps)
  have d0: "centroidHalfAxisSize (shift3 P (scaled k 1) (scaled k (-2)) 0) = Some (0, scaled k 1)"
    using decode_unit8 [of k "shift3 P (scaled k 1) (scaled k (-2)) 0" q0 11 q1 6 q2 12] k e
    by (simp add: rd_shift3 sc_simps)
  have u0: "centroidUpOneLevel b (shift3 P (scaled k 1) (scaled k (-2)) 0) = Inr P"
    using k e
    by (simp add: centroidUpOneLevel_def d0 Let_def pa_simps sc_simps set3_restore)
  have d1: "centroidHalfAxisSize (shift3 P (scaled k 1) (scaled k 2) 0) = Some (0, scaled k 1)"
    using decode_unit8 [of k "shift3 P (scaled k 1) (scaled k 2) 0" q0 11 q1 10 q2 12] k e
    by (simp add: rd_shift3 sc_simps)
  have u1: "centroidUpOneLevel b (shift3 P (scaled k 1) (scaled k 2) 0) = Inr P"
    using k e
    by (simp add: centroidUpOneLevel_def d1 Let_def pa_simps sc_simps set3_restore)
  have d2: "centroidHalfAxisSize (shift3 P (scaled k (-1)) 0 (scaled k (-2))) = Some (0, scaled k 1)"
    using decode_unit8 [of k "shift3 P (scaled k (-1)) 0 (scaled k (-2))" q0 9 q1 8 q2 10] k e
    by (simp add: rd_shift3 sc_simps)
  have u2: "centroidUpOneLevel b (shift3 P (scaled k (-1)) 0 (scaled k (-2))) = Inr P"
    using k e
    by (simp add: centroidUpOneLevel_def d2 Let_def pa_simps sc_simps set3_restore)
  have d3: "centroidHalfAxisSize (shift3 P (scaled k (-1)) 0 (scaled k 2)) = Some (0, scaled k 1)"
    using decode_unit8 [of k "shift3 P (scaled k (-1)) 0 (scaled k 2)" q0 9 q1 8 q2 14] k e
    by (simp add: rd_shift3 sc_simps)
  have u3: "centroidUpOneLevel b (shift3 P (scaled k (-1)) 0 (scaled k 2)) = Inr P"
    using k e
    by (simp add: centroidUpOneLevel_def d3 Let_def pa_simps sc_simps set3_restore)
  have d4: "centroidHalfAxisSize (shift3 P 0 (scaled k (-1)) 0) = Some (1, scaled k 1)"
    using decode_unit8 [of k "shift3 P 0 (scaled k (-1)) 0" q0 10 q1 7 q2 12] k e
    by (simp add: rd_shift3 sc_simps)
  have u4: "centroidUpOneLevel b (shift3 P 0 (scaled k (-1)) 0) = Inr P"
    using k e
    by (simp add: centroidUpOneLevel_def d4 Let_def pa_simps sc_simps set3_restore)
  have d5: "centroidHalfAxisSize (shift3 P 0 (scaled k 1) 0) = Some (1, scaled k 1)"
    using decode_unit8 [of k "shift3 P 0 (scaled k 1) 0" q0 10 q1 9 q2 12] k e
    by (simp add: rd_shift3 sc_simps)
  have u5: "centroidUpOneLevel b (shift3 P 0 (scaled k 1) 0) = Inr P"
    using k e
    by (simp add: centroidUpOneLevel_def d5 Let_def pa_simps sc_simps set3_restore)
  have d6: "centroidHalfAxisSize (shift3 P 0 0 (scaled k (-1))) = Some (2, scaled k 1)"
    using decode_unit8 [of k "shift3 P 0 0 (scaled k (-1))" q0 10 q1 8 q2 11] k e
    by (simp add: rd_shift3 sc_simps)
  have u6: "centroidUpOneLevel b (shift3 P 0 0 (scaled k (-1))) = Inr P"
    using k e
    by (simp add: centroidUpOneLevel_def d6 Let_def pa_simps sc_simps set3_restore)
  have d7: "centroidHalfAxisSize (shift3 P 0 0 (scaled k 1)) = Some (2, scaled k 1)"
    using decode_unit8 [of k "shift3 P 0 0 (scaled k 1)" q0 10 q1 8 q2 13] k e
    by (simp add: rd_shift3 sc_simps)
  have u7: "centroidUpOneLevel b (shift3 P 0 0 (scaled k 1)) = Inr P"
    using k e
    by (simp add: centroidUpOneLevel_def d7 Let_def pa_simps sc_simps set3_restore)
  show ?thesis
    unfolding s using u0 u1 u2 u3 u4 u5 u6 u7 by simp
qed

lemma promote_children_a0_r10_r12:
  assumes k: "k \<le> 13"
    and d: "centroidHalfAxisSize P = Some (0, scaled k 2)"
    and e: "rd P 0 = unit8 k q0 10" "rd P 1 = unit8 k q1 12" "rd P 2 = unit8 k q2 8"
  shows "\<exists>subs. subtetCentroids P = Inr subs \<and> length subs = 8 \<and>
           (\<forall>ch\<in>set subs. ch \<noteq> markInvalid \<longrightarrow> centroidUpOneLevel b ch = Inr P)"
proof -
  have m: "unit8 k q0 10 mod 65536 = unit8 k q0 10" "unit8 k q1 12 mod 65536 = unit8 k q1 12"
    "unit8 k q2 8 mod 65536 = unit8 k q2 8"
    using rd_mod_id [of P 0] rd_mod_id [of P 1] rd_mod_id [of P 2] e by simp_all
  have s: "subtetCentroids P = Inr
     [if rd P 1 < scaled k 2 then markInvalid else shift3 P (scaled k (-1)) (scaled k (-2)) 0,
      shift3 P (scaled k (-1)) (scaled k 2) 0,
      shift3 P (scaled k 1) 0 (scaled k 2),
      if rd P 2 < scaled k 2 then markInvalid else shift3 P (scaled k 1) 0 (scaled k (-2)),
      if rd P 1 < scaled k 1 then markInvalid else shift3 P 0 (scaled k (-1)) 0,
      shift3 P 0 (scaled k 1) 0,
      if rd P 2 < scaled k 1 then markInvalid else shift3 P 0 0 (scaled k (-1)),
      shift3 P 0 0 (scaled k 1)]"
    using k e m
    by (simp add: subtetCentroids_def d Let_def pa_simps sc_simps)
  have d0: "centroidHalfAxisSize (shift3 P (scaled k (-1)) (scaled k (-2)) 0) = Some (0, scaled k 1)"
    using decode_unit8 [of k "shift3 P (scaled k (-1)) (scaled k (-2)) 0" q0 9 q1 10 q2 8] k e
    by (simp add: rd_shift3 sc_simps)
  have u0: "centroidUpOneLevel b (shift3 P (scaled k (-1)) (scaled k (-2)) 0) = Inr P"
    using k e
    by (simp add: centroidUpOneLevel_def d0 Let_def pa_simps sc_simps set3_restore)
  have d1: "centroidHalfAxisSize (shift3 P (scaled k (-1)) (scaled k 2) 0) = Some (0, scaled k 1)"
    using decode_unit8 [of k "shift3 P (scaled k (-1)) (scaled k 2) 0" q0 9 q1 14 q2 8] k e
    by (simp add: rd_shift3 sc_simps)
  have u1: "centroidUpOneLevel b (shift3 P (scaled k (-1)) (scaled k 2) 0) = Inr P"
    using k e
    by (simp add: centroidUpOneLevel_def d1 Let_def pa_simps sc_simps set3_restore)
  have d2: "centroidHalfAxisSize (shift3 P (scaled k 1) 0 (scaled k 2)) = Some (0, scaled k 1)"
    using decode_unit8 [of k "shift3 P (scaled k 1) 0 (scaled k 2)" q0 11 q1 12 q2 10] k e
    by (simp add: rd_shift3 sc_simps)
  have u2: "centroidUpOneLevel b (shift3 P (scaled k 1) 0 (scaled k 2)) = Inr P"
    using k e
    by (simp add: centroidUpOneLevel_def d2 Let_def pa_simps sc_simps set3_restore)
  have d3: "centroidHalfAxisSize (shift3 P (scaled k 1) 0 (scaled k (-2))) = Some (0, scaled k 1)"
    using decode_unit8 [of k "shift3 P (scaled k 1) 0 (scaled k (-2))" q0 11 q1 12 q2 6] k e
    by (simp add: rd_shift3 sc_simps)
  have u3: "centroidUpOneLevel b (shift3 P (scaled k 1) 0 (scaled k (-2))) = Inr P"
    using k e
    by (simp add: centroidUpOneLevel_def d3 Let_def pa_simps sc_simps set3_restore)
  have d4: "centroidHalfAxisSize (shift3 P 0 (scaled k (-1)) 0) = Some (1, scaled k 1)"
    using decode_unit8 [of k "shift3 P 0 (scaled k (-1)) 0" q0 10 q1 11 q2 8] k e
    by (simp add: rd_shift3 sc_simps)
  have u4: "centroidUpOneLevel b (shift3 P 0 (scaled k (-1)) 0) = Inr P"
    using k e
    by (simp add: centroidUpOneLevel_def d4 Let_def pa_simps sc_simps set3_restore)
  have d5: "centroidHalfAxisSize (shift3 P 0 (scaled k 1) 0) = Some (1, scaled k 1)"
    using decode_unit8 [of k "shift3 P 0 (scaled k 1) 0" q0 10 q1 13 q2 8] k e
    by (simp add: rd_shift3 sc_simps)
  have u5: "centroidUpOneLevel b (shift3 P 0 (scaled k 1) 0) = Inr P"
    using k e
    by (simp add: centroidUpOneLevel_def d5 Let_def pa_simps sc_simps set3_restore)
  have d6: "centroidHalfAxisSize (shift3 P 0 0 (scaled k (-1))) = Some (2, scaled k 1)"
    using decode_unit8 [of k "shift3 P 0 0 (scaled k (-1))" q0 10 q1 12 q2 7] k e
    by (simp add: rd_shift3 sc_simps)
  have u6: "centroidUpOneLevel b (shift3 P 0 0 (scaled k (-1))) = Inr P"
    using k e
    by (simp add: centroidUpOneLevel_def d6 Let_def pa_simps sc_simps set3_restore)
  have d7: "centroidHalfAxisSize (shift3 P 0 0 (scaled k 1)) = Some (2, scaled k 1)"
    using decode_unit8 [of k "shift3 P 0 0 (scaled k 1)" q0 10 q1 12 q2 9] k e
    by (simp add: rd_shift3 sc_simps)
  have u7: "centroidUpOneLevel b (shift3 P 0 0 (scaled k 1)) = Inr P"
    using k e
    by (simp add: centroidUpOneLevel_def d7 Let_def pa_simps sc_simps set3_restore)
  show ?thesis
    unfolding s using u0 u1 u2 u3 u4 u5 u6 u7 by simp
qed

lemma promote_children_a0_r14_r8:
  assumes k: "k \<le> 13"
    and d: "centroidHalfAxisSize P = Some (0, scaled k 2)"
    and e: "rd P 0 = unit8 k q0 14" "rd P 1 = unit8 k q1 8" "rd P 2 = unit8 k q2 12"
  shows "\<exists>subs. subtetCentroids P = Inr subs \<and> length subs = 8 \<and>
           (\<forall>ch\<in>set subs. ch \<noteq> markInvalid \<longrightarrow> centroidUpOneLevel b ch = Inr P)"
proof -
  have m: "unit8 k q0 14 mod 65536 = unit8 k q0 14" "unit8 k q1 8 mod 65536 = unit8 k q1 8"
    "unit8 k q2 12 mod 65536 = unit8 k q2 12"
    using rd_mod_id [of P 0] rd_mod_id [of P 1] rd_mod_id [of P 2] e by simp_all
  have s: "subtetCentroids P = Inr
     [if rd P 1 < scaled k 2 then markInvalid else shift3 P (scaled k (-1)) (scaled k (-2)) 0,
      shift3 P (scaled k (-1)) (scaled k 2) 0,
      shift3 P (scaled k 1) 0 (scaled k 2),
      if rd P 2 < scaled k 2 then markInvalid else shift3 P (scaled k 1) 0 (scaled k (-2)),
      if rd P 1 < scaled k 1 then markInvalid else shift3 P 0 (scaled k (-1)) 0,
      shift3 P 0 (scaled k 1) 0,
      if rd P 2 < scaled k 1 then markInvalid else shift3 P 0 0 (scaled k (-1)),
      shift3 P 0 0 (scaled k 1)]"
    using k e m
    by (simp add: subtetCentroids_def d Let_def pa_simps sc_simps)
  have d0: "centroidHalfAxisSize (shift3 P (scaled k (-1)) (scaled k (-2)) 0) = Some (0, scaled k 1)"
    using decode_unit8 [of k "shift3 P (scaled k (-1)) (scaled k (-2)) 0" q0 13 q1 6 q2 12] k e
    by (simp add: rd_shift3 sc_simps)
  have u0: "centroidUpOneLevel b (shift3 P (scaled k (-1)) (scaled k (-2)) 0) = Inr P"
    using k e
    by (simp add: centroidUpOneLevel_def d0 Let_def pa_simps sc_simps set3_restore)
  have d1: "centroidHalfAxisSize (shift3 P (scaled k (-1)) (scaled k 2) 0) = Some (0, scaled k 1)"
    using decode_unit8 [of k "shift3 P (scaled k (-1)) (scaled k 2) 0" q0 13 q1 10 q2 12] k e
    by (simp add: rd_shift3 sc_simps)
  have u1: "centroidUpOneLevel b (shift3 P (scaled k (-1)) (scaled k 2) 0) = Inr P"
    using k e
    by (simp add: centroidUpOneLevel_def d1 Let_def pa_simps sc_simps set3_restore)
  have d2: "centroidHalfAxisSize (shift3 P (scaled k 1) 0 (scaled k 2)) = Some (0, scaled k 1)"
    using decode_unit8 [of k "shift3 P (scaled k 1) 0 (scaled k 2)" q0 15 q1 8 q2 14] k e
    by (simp add: rd_shift3 sc_simps)
  have u2: "centroidUpOneLevel b (shift3 P (scaled k 1) 0 (scaled k 2)) = Inr P"
    using k e
    by (simp add: centroidUpOneLevel_def d2 Let_def pa_simps sc_simps set3_restore)
  have d3: "centroidHalfAxisSize (shift3 P (scaled k 1) 0 (scaled k (-2))) = Some (0, scaled k 1)"
    using decode_unit8 [of k "shift3 P (scaled k 1) 0 (scaled k (-2))" q0 15 q1 8 q2 10] k e
    by (simp add: rd_shift3 sc_simps)
  have u3: "centroidUpOneLevel b (shift3 P (scaled k 1) 0 (scaled k (-2))) = Inr P"
    using k e
    by (simp add: centroidUpOneLevel_def d3 Let_def pa_simps sc_simps set3_restore)
  have d4: "centroidHalfAxisSize (shift3 P 0 (scaled k (-1)) 0) = Some (1, scaled k 1)"
    using decode_unit8 [of k "shift3 P 0 (scaled k (-1)) 0" q0 14 q1 7 q2 12] k e
    by (simp add: rd_shift3 sc_simps)
  have u4: "centroidUpOneLevel b (shift3 P 0 (scaled k (-1)) 0) = Inr P"
    using k e
    by (simp add: centroidUpOneLevel_def d4 Let_def pa_simps sc_simps set3_restore)
  have d5: "centroidHalfAxisSize (shift3 P 0 (scaled k 1) 0) = Some (1, scaled k 1)"
    using decode_unit8 [of k "shift3 P 0 (scaled k 1) 0" q0 14 q1 9 q2 12] k e
    by (simp add: rd_shift3 sc_simps)
  have u5: "centroidUpOneLevel b (shift3 P 0 (scaled k 1) 0) = Inr P"
    using k e
    by (simp add: centroidUpOneLevel_def d5 Let_def pa_simps sc_simps set3_restore)
  have d6: "centroidHalfAxisSize (shift3 P 0 0 (scaled k (-1))) = Some (2, scaled k 1)"
    using decode_unit8 [of k "shift3 P 0 0 (scaled k (-1))" q0 14 q1 8 q2 11] k e
    by (simp add: rd_shift3 sc_simps)
  have u6: "centroidUpOneLevel b (shift3 P 0 0 (scaled k (-1))) = Inr P"
    using k e
    by (simp add: centroidUpOneLevel_def d6 Let_def pa_simps sc_simps set3_restore)
  have d7: "centroidHalfAxisSize (shift3 P 0 0 (scaled k 1)) = Some (2, scaled k 1)"
    using decode_unit8 [of k "shift3 P 0 0 (scaled k 1)" q0 14 q1 8 q2 13] k e
    by (simp add: rd_shift3 sc_simps)
  have u7: "centroidUpOneLevel b (shift3 P 0 0 (scaled k 1)) = Inr P"
    using k e
    by (simp add: centroidUpOneLevel_def d7 Let_def pa_simps sc_simps set3_restore)
  show ?thesis
    unfolding s using u0 u1 u2 u3 u4 u5 u6 u7 by simp
qed

lemma promote_children_a0_r14_r12:
  assumes k: "k \<le> 13"
    and d: "centroidHalfAxisSize P = Some (0, scaled k 2)"
    and e: "rd P 0 = unit8 k q0 14" "rd P 1 = unit8 k q1 12" "rd P 2 = unit8 k q2 8"
  shows "\<exists>subs. subtetCentroids P = Inr subs \<and> length subs = 8 \<and>
           (\<forall>ch\<in>set subs. ch \<noteq> markInvalid \<longrightarrow> centroidUpOneLevel b ch = Inr P)"
proof -
  have m: "unit8 k q0 14 mod 65536 = unit8 k q0 14" "unit8 k q1 12 mod 65536 = unit8 k q1 12"
    "unit8 k q2 8 mod 65536 = unit8 k q2 8"
    using rd_mod_id [of P 0] rd_mod_id [of P 1] rd_mod_id [of P 2] e by simp_all
  have s: "subtetCentroids P = Inr
     [if rd P 1 < scaled k 2 then markInvalid else shift3 P (scaled k 1) (scaled k (-2)) 0,
      shift3 P (scaled k 1) (scaled k 2) 0,
      if rd P 2 < scaled k 2 then markInvalid else shift3 P (scaled k (-1)) 0 (scaled k (-2)),
      shift3 P (scaled k (-1)) 0 (scaled k 2),
      if rd P 1 < scaled k 1 then markInvalid else shift3 P 0 (scaled k (-1)) 0,
      shift3 P 0 (scaled k 1) 0,
      if rd P 2 < scaled k 1 then markInvalid else shift3 P 0 0 (scaled k (-1)),
      shift3 P 0 0 (scaled k 1)]"
    using k e m
    by (simp add: subtetCentroids_def d Let_def pa_simps sc_simps)
  have d0: "centroidHalfAxisSize (shift3 P (scaled k 1) (scaled k (-2)) 0) = Some (0, scaled k 1)"
    using decode_unit8 [of k "shift3 P (scaled k 1) (scaled k (-2)) 0" q0 15 q1 10 q2 8] k e
    by (simp add: rd_shift3 sc_simps)
  have u0: "centroidUpOneLevel b (shift3 P (scaled k 1) (scaled k (-2)) 0) = Inr P"
    using k e
    by (simp add: centroidUpOneLevel_def d0 Let_def pa_simps sc_simps set3_restore)
  have d1: "centroidHalfAxisSize (shift3 P (scaled k 1) (scaled k 2) 0) = Some (0, scaled k 1)"
    using decode_unit8 [of k "shift3 P (scaled k 1) (scaled k 2) 0" q0 15 q1 14 q2 8] k e
    by (simp add: rd_shift3 sc_simps)
  have u1: "centroidUpOneLevel b (shift3 P (scaled k 1) (scaled k 2) 0) = Inr P"
    using k e
    by (simp add: centroidUpOneLevel_def d1 Let_def pa_simps sc_simps set3_restore)
  have d2: "centroidHalfAxisSize (shift3 P (scaled k (-1)) 0 (scaled k (-2))) = Some (0, scaled k 1)"
    using decode_unit8 [of k "shift3 P (scaled k (-1)) 0 (scaled k (-2))" q0 13 q1 12 q2 6] k e
    by (simp add: rd_shift3 sc_simps)
  have u2: "centroidUpOneLevel b (shift3 P (scaled k (-1)) 0 (scaled k (-2))) = Inr P"
    using k e
    by (simp add: centroidUpOneLevel_def d2 Let_def pa_simps sc_simps set3_restore)
  have d3: "centroidHalfAxisSize (shift3 P (scaled k (-1)) 0 (scaled k 2)) = Some (0, scaled k 1)"
    using decode_unit8 [of k "shift3 P (scaled k (-1)) 0 (scaled k 2)" q0 13 q1 12 q2 10] k e
    by (simp add: rd_shift3 sc_simps)
  have u3: "centroidUpOneLevel b (shift3 P (scaled k (-1)) 0 (scaled k 2)) = Inr P"
    using k e
    by (simp add: centroidUpOneLevel_def d3 Let_def pa_simps sc_simps set3_restore)
  have d4: "centroidHalfAxisSize (shift3 P 0 (scaled k (-1)) 0) = Some (1, scaled k 1)"
    using decode_unit8 [of k "shift3 P 0 (scaled k (-1)) 0" q0 14 q1 11 q2 8] k e
    by (simp add: rd_shift3 sc_simps)
  have u4: "centroidUpOneLevel b (shift3 P 0 (scaled k (-1)) 0) = Inr P"
    using k e
    by (simp add: centroidUpOneLevel_def d4 Let_def pa_simps sc_simps set3_restore)
  have d5: "centroidHalfAxisSize (shift3 P 0 (scaled k 1) 0) = Some (1, scaled k 1)"
    using decode_unit8 [of k "shift3 P 0 (scaled k 1) 0" q0 14 q1 13 q2 8] k e
    by (simp add: rd_shift3 sc_simps)
  have u5: "centroidUpOneLevel b (shift3 P 0 (scaled k 1) 0) = Inr P"
    using k e
    by (simp add: centroidUpOneLevel_def d5 Let_def pa_simps sc_simps set3_restore)
  have d6: "centroidHalfAxisSize (shift3 P 0 0 (scaled k (-1))) = Some (2, scaled k 1)"
    using decode_unit8 [of k "shift3 P 0 0 (scaled k (-1))" q0 14 q1 12 q2 7] k e
    by (simp add: rd_shift3 sc_simps)
  have u6: "centroidUpOneLevel b (shift3 P 0 0 (scaled k (-1))) = Inr P"
    using k e
    by (simp add: centroidUpOneLevel_def d6 Let_def pa_simps sc_simps set3_restore)
  have d7: "centroidHalfAxisSize (shift3 P 0 0 (scaled k 1)) = Some (2, scaled k 1)"
    using decode_unit8 [of k "shift3 P 0 0 (scaled k 1)" q0 14 q1 12 q2 9] k e
    by (simp add: rd_shift3 sc_simps)
  have u7: "centroidUpOneLevel b (shift3 P 0 0 (scaled k 1)) = Inr P"
    using k e
    by (simp add: centroidUpOneLevel_def d7 Let_def pa_simps sc_simps set3_restore)
  show ?thesis
    unfolding s using u0 u1 u2 u3 u4 u5 u6 u7 by simp
qed

lemma promote_children_a1_r10_r8:
  assumes k: "k \<le> 13"
    and d: "centroidHalfAxisSize P = Some (1, scaled k 2)"
    and e: "rd P 0 = unit8 k q0 12" "rd P 1 = unit8 k q1 10" "rd P 2 = unit8 k q2 8"
  shows "\<exists>subs. subtetCentroids P = Inr subs \<and> length subs = 8 \<and>
           (\<forall>ch\<in>set subs. ch \<noteq> markInvalid \<longrightarrow> centroidUpOneLevel b ch = Inr P)"
proof -
  have m: "unit8 k q0 12 mod 65536 = unit8 k q0 12" "unit8 k q1 10 mod 65536 = unit8 k q1 10"
    "unit8 k q2 8 mod 65536 = unit8 k q2 8"
    using rd_mod_id [of P 0] rd_mod_id [of P 1] rd_mod_id [of P 2] e by simp_all
  have s: "subtetCentroids P = Inr
     [if rd P 2 < scaled k 2 then markInvalid else shift3 P 0 (scaled k 1) (scaled k (-2)),
      shift3 P 0 (scaled k 1) (scaled k 2),
      if rd P 0 < scaled k 2 then markInvalid else shift3 P (scaled k (-2)) (scaled k (-1)) 0,
      shift3 P (scaled k 2) (scaled k (-1)) 0,
      if rd P 2 < scaled k 1 then markInvalid else shift3 P 0 0 (scaled k (-1)),
      shift3 P 0 0 (scaled k 1),
      if rd P 0 < scaled k 1 then markInvalid else shift3 P (scaled k (-1)) 0 0,
      shift3 P (scaled k 1) 0 0]"
    using k e m
    by (simp add: subtetCentroids_def d Let_def pa_simps sc_simps)
  have d0: "centroidHalfAxisSize (shift3 P 0 (scaled k 1) (scaled k (-2))) = Some (1, scaled k 1)"
    using decode_unit8 [of k "shift3 P 0 (scaled k 1) (scaled k (-2))" q0 12 q1 11 q2 6] k e
    by (simp add: rd_shift3 sc_simps)
  have u0: "centroidUpOneLevel b (shift3 P 0 (scaled k 1) (scaled k (-2))) = Inr P"
    using k e
    by (simp add: centroidUpOneLevel_def d0 Let_def pa_simps sc_simps set3_restore)
  have d1: "centroidHalfAxisSize (shift3 P 0 (scaled k 1) (scaled k 2)) = Some (1, scaled k 1)"
    using decode_unit8 [of k "shift3 P 0 (scaled k 1) (scaled k 2)" q0 12 q1 11 q2 10] k e
    by (simp add: rd_shift3 sc_simps)
  have u1: "centroidUpOneLevel b (shift3 P 0 (scaled k 1) (scaled k 2)) = Inr P"
    using k e
    by (simp add: centroidUpOneLevel_def d1 Let_def pa_simps sc_simps set3_restore)
  have d2: "centroidHalfAxisSize (shift3 P (scaled k (-2)) (scaled k (-1)) 0) = Some (1, scaled k 1)"
    using decode_unit8 [of k "shift3 P (scaled k (-2)) (scaled k (-1)) 0" q0 10 q1 9 q2 8] k e
    by (simp add: rd_shift3 sc_simps)
  have u2: "centroidUpOneLevel b (shift3 P (scaled k (-2)) (scaled k (-1)) 0) = Inr P"
    using k e
    by (simp add: centroidUpOneLevel_def d2 Let_def pa_simps sc_simps set3_restore)
  have d3: "centroidHalfAxisSize (shift3 P (scaled k 2) (scaled k (-1)) 0) = Some (1, scaled k 1)"
    using decode_unit8 [of k "shift3 P (scaled k 2) (scaled k (-1)) 0" q0 14 q1 9 q2 8] k e
    by (simp add: rd_shift3 sc_simps)
  have u3: "centroidUpOneLevel b (shift3 P (scaled k 2) (scaled k (-1)) 0) = Inr P"
    using k e
    by (simp add: centroidUpOneLevel_def d3 Let_def pa_simps sc_simps set3_restore)
  have d4: "centroidHalfAxisSize (shift3 P 0 0 (scaled k (-1))) = Some (2, scaled k 1)"
    using decode_unit8 [of k "shift3 P 0 0 (scaled k (-1))" q0 12 q1 10 q2 7] k e
    by (simp add: rd_shift3 sc_simps)
  have u4: "centroidUpOneLevel b (shift3 P 0 0 (scaled k (-1))) = Inr P"
    using k e
    by (simp add: centroidUpOneLevel_def d4 Let_def pa_simps sc_simps set3_restore)
  have d5: "centroidHalfAxisSize (shift3 P 0 0 (scaled k 1)) = Some (2, scaled k 1)"
    using decode_unit8 [of k "shift3 P 0 0 (scaled k 1)" q0 12 q1 10 q2 9] k e
    by (simp add: rd_shift3 sc_simps)
  have u5: "centroidUpOneLevel b (shift3 P 0 0 (scaled k 1)) = Inr P"
    using k e
    by (simp add: centroidUpOneLevel_def d5 Let_def pa_simps sc_simps set3_restore)
  have d6: "centroidHalfAxisSize (shift3 P (scaled k (-1)) 0 0) = Some (0, scaled k 1)"
    using decode_unit8 [of k "shift3 P (scaled k (-1)) 0 0" q0 11 q1 10 q2 8] k e
    by (simp add: rd_shift3 sc_simps)
  have u6: "centroidUpOneLevel b (shift3 P (scaled k (-1)) 0 0) = Inr P"
    using k e
    by (simp add: centroidUpOneLevel_def d6 Let_def pa_simps sc_simps set3_restore)
  have d7: "centroidHalfAxisSize (shift3 P (scaled k 1) 0 0) = Some (0, scaled k 1)"
    using decode_unit8 [of k "shift3 P (scaled k 1) 0 0" q0 13 q1 10 q2 8] k e
    by (simp add: rd_shift3 sc_simps)
  have u7: "centroidUpOneLevel b (shift3 P (scaled k 1) 0 0) = Inr P"
    using k e
    by (simp add: centroidUpOneLevel_def d7 Let_def pa_simps sc_simps set3_restore)
  show ?thesis
    unfolding s using u0 u1 u2 u3 u4 u5 u6 u7 by simp
qed

lemma promote_children_a1_r10_r12:
  assumes k: "k \<le> 13"
    and d: "centroidHalfAxisSize P = Some (1, scaled k 2)"
    and e: "rd P 0 = unit8 k q0 8" "rd P 1 = unit8 k q1 10" "rd P 2 = unit8 k q2 12"
  shows "\<exists>subs. subtetCentroids P = Inr subs \<and> length subs = 8 \<and>
           (\<forall>ch\<in>set subs. ch \<noteq> markInvalid \<longrightarrow> centroidUpOneLevel b ch = Inr P)"
proof -
  have m: "unit8 k q0 8 mod 65536 = unit8 k q0 8" "unit8 k q1 10 mod 65536 = unit8 k q1 10"
    "unit8 k q2 12 mod 65536 = unit8 k q2 12"
    using rd_mod_id [of P 0] rd_mod_id [of P 1] rd_mod_id [of P 2] e by simp_all
  have s: "subtetCentroids P = Inr
     [if rd P 2 < scaled k 2 then markInvalid else shift3 P 0 (scaled k (-1)) (scaled k (-2)),
      shift3 P 0 (scaled k (-1)) (scaled k 2),
      shift3 P (scaled k 2) (scaled k 1) 0,
      if rd P 0 < scaled k 2 then markInvalid else shift3 P (scaled k (-2)) (scaled k 1) 0,
      if rd P 2 < scaled k 1 then markInvalid else shift3 P 0 0 (scaled k (-1)),
      shift3 P 0 0 (scaled k 1),
      if rd P 0 < scaled k 1 then markInvalid else shift3 P (scaled k (-1)) 0 0,
      shift3 P (scaled k 1) 0 0]"
    using k e m
    by (simp add: subtetCentroids_def d Let_def pa_simps sc_simps)
  have d0: "centroidHalfAxisSize (shift3 P 0 (scaled k (-1)) (scaled k (-2))) = Some (1, scaled k 1)"
    using decode_unit8 [of k "shift3 P 0 (scaled k (-1)) (scaled k (-2))" q0 8 q1 9 q2 10] k e
    by (simp add: rd_shift3 sc_simps)
  have u0: "centroidUpOneLevel b (shift3 P 0 (scaled k (-1)) (scaled k (-2))) = Inr P"
    using k e
    by (simp add: centroidUpOneLevel_def d0 Let_def pa_simps sc_simps set3_restore)
  have d1: "centroidHalfAxisSize (shift3 P 0 (scaled k (-1)) (scaled k 2)) = Some (1, scaled k 1)"
    using decode_unit8 [of k "shift3 P 0 (scaled k (-1)) (scaled k 2)" q0 8 q1 9 q2 14] k e
    by (simp add: rd_shift3 sc_simps)
  have u1: "centroidUpOneLevel b (shift3 P 0 (scaled k (-1)) (scaled k 2)) = Inr P"
    using k e
    by (simp add: centroidUpOneLevel_def d1 Let_def pa_simps sc_simps set3_restore)
  have d2: "centroidHalfAxisSize (shift3 P (scaled k 2) (scaled k 1) 0) = Some (1, scaled k 1)"
    using decode_unit8 [of k "shift3 P (scaled k 2) (scaled k 1) 0" q0 10 q1 11 q2 12] k e
    by (simp add: rd_shift3 sc_simps)
  have u2: "centroidUpOneLevel b (shift3 P (scaled k 2) (scaled k 1) 0) = Inr P"
    using k e
    by (simp add: centroidUpOneLevel_def d2 Let_def pa_simps sc_simps set3_restore)
  have d3: "centroidHalfAxisSize (shift3 P (scaled k (-2)) (scaled k 1) 0) = Some (1, scaled k 1)"
    using decode_unit8 [of k "shift3 P (scaled k (-2)) (scaled k 1) 0" q0 6 q1 11 q2 12] k e
    by (simp add: rd_shift3 sc_simps)
  have u3: "centroidUpOneLevel b (shift3 P (scaled k (-2)) (scaled k 1) 0) = Inr P"
    using k e
    by (simp add: centroidUpOneLevel_def d3 Let_def pa_simps sc_simps set3_restore)
  have d4: "centroidHalfAxisSize (shift3 P 0 0 (scaled k (-1))) = Some (2, scaled k 1)"
    using decode_unit8 [of k "shift3 P 0 0 (scaled k (-1))" q0 8 q1 10 q2 11] k e
    by (simp add: rd_shift3 sc_simps)
  have u4: "centroidUpOneLevel b (shift3 P 0 0 (scaled k (-1))) = Inr P"
    using k e
    by (simp add: centroidUpOneLevel_def d4 Let_def pa_simps sc_simps set3_restore)
  have d5: "centroidHalfAxisSize (shift3 P 0 0 (scaled k 1)) = Some (2, scaled k 1)"
    using decode_unit8 [of k "shift3 P 0 0 (scaled k 1)" q0 8 q1 10 q2 13] k e
    by (simp add: rd_shift3 sc_simps)
  have u5: "centroidUpOneLevel b (shift3 P 0 0 (scaled k 1)) = Inr P"
    using k e
    by (simp add: centroidUpOneLevel_def d5 Let_def pa_simps sc_simps set3_restore)
  have d6: "centroidHalfAxisSize (shift3 P (scaled k (-1)) 0 0) = Some (0, scaled k 1)"
    using decode_unit8 [of k "shift3 P (scaled k (-1)) 0 0" q0 7 q1 10 q2 12] k e
    by (simp add: rd_shift3 sc_simps)
  have u6: "centroidUpOneLevel b (shift3 P (scaled k (-1)) 0 0) = Inr P"
    using k e
    by (simp add: centroidUpOneLevel_def d6 Let_def pa_simps sc_simps set3_restore)
  have d7: "centroidHalfAxisSize (shift3 P (scaled k 1) 0 0) = Some (0, scaled k 1)"
    using decode_unit8 [of k "shift3 P (scaled k 1) 0 0" q0 9 q1 10 q2 12] k e
    by (simp add: rd_shift3 sc_simps)
  have u7: "centroidUpOneLevel b (shift3 P (scaled k 1) 0 0) = Inr P"
    using k e
    by (simp add: centroidUpOneLevel_def d7 Let_def pa_simps sc_simps set3_restore)
  show ?thesis
    unfolding s using u0 u1 u2 u3 u4 u5 u6 u7 by simp
qed

lemma promote_children_a1_r14_r8:
  assumes k: "k \<le> 13"
    and d: "centroidHalfAxisSize P = Some (1, scaled k 2)"
    and e: "rd P 0 = unit8 k q0 12" "rd P 1 = unit8 k q1 14" "rd P 2 = unit8 k q2 8"
  shows "\<exists>subs. subtetCentroids P = Inr subs \<and> length subs = 8 \<and>
           (\<forall>ch\<in>set subs. ch \<noteq> markInvalid \<longrightarrow> centroidUpOneLevel b ch = Inr P)"
proof -
  have m: "unit8 k q0 12 mod 65536 = unit8 k q0 12" "unit8 k q1 14 mod 65536 = unit8 k q1 14"
    "unit8 k q2 8 mod 65536 = unit8 k q2 8"
    using rd_mod_id [of P 0] rd_mod_id [of P 1] rd_mod_id [of P 2] e by simp_all
  have s: "subtetCentroids P = Inr
     [if rd P 2 < scaled k 2 then markInvalid else shift3 P 0 (scaled k (-1)) (scaled k (-2)),
      shift3 P 0 (scaled k (-1)) (scaled k 2),
      shift3 P (scaled k 2) (scaled k 1) 0,
      if rd P 0 < scaled k 2 then markInvalid else shift3 P (scaled k (-2)) (scaled k 1) 0,
      if rd P 2 < scaled k 1 then markInvalid else shift3 P 0 0 (scaled k (-1)),
      shift3 P 0 0 (scaled k 1),
      if rd P 0 < scaled k 1 then markInvalid else shift3 P (scaled k (-1)) 0 0,
      shift3 P (scaled k 1) 0 0]"
    using k e m
    by (simp add: subtetCentroids_def d Let_def pa_simps sc_simps)
  have d0: "centroidHalfAxisSize (shift3 P 0 (scaled k (-1)) (scaled k (-2))) = Some (1, scaled k 1)"
    using decode_unit8 [of k "shift3 P 0 (scaled k (-1)) (scaled k (-2))" q0 12 q1 13 q2 6] k e
    by (simp add: rd_shift3 sc_simps)
  have u0: "centroidUpOneLevel b (shift3 P 0 (scaled k (-1)) (scaled k (-2))) = Inr P"
    using k e
    by (simp add: centroidUpOneLevel_def d0 Let_def pa_simps sc_simps set3_restore)
  have d1: "centroidHalfAxisSize (shift3 P 0 (scaled k (-1)) (scaled k 2)) = Some (1, scaled k 1)"
    using decode_unit8 [of k "shift3 P 0 (scaled k (-1)) (scaled k 2)" q0 12 q1 13 q2 10] k e
    by (simp add: rd_shift3 sc_simps)
  have u1: "centroidUpOneLevel b (shift3 P 0 (scaled k (-1)) (scaled k 2)) = Inr P"
    using k e
    by (simp add: centroidUpOneLevel_def d1 Let_def pa_simps sc_simps set3_restore)
  have d2: "centroidHalfAxisSize (shift3 P (scaled k 2) (scaled k 1) 0) = Some (1, scaled k 1)"
    using decode_unit8 [of k "shift3 P (scaled k 2) (scaled k 1) 0" q0 14 q1 15 q2 8] k e
    by (simp add: rd_shift3 sc_simps)
  have u2: "centroidUpOneLevel b (shift3 P (scaled k 2) (scaled k 1) 0) = Inr P"
    using k e
    by (simp add: centroidUpOneLevel_def d2 Let_def pa_simps sc_simps set3_restore)
  have d3: "centroidHalfAxisSize (shift3 P (scaled k (-2)) (scaled k 1) 0) = Some (1, scaled k 1)"
    using decode_unit8 [of k "shift3 P (scaled k (-2)) (scaled k 1) 0" q0 10 q1 15 q2 8] k e
    by (simp add: rd_shift3 sc_simps)
  have u3: "centroidUpOneLevel b (shift3 P (scaled k (-2)) (scaled k 1) 0) = Inr P"
    using k e
    by (simp add: centroidUpOneLevel_def d3 Let_def pa_simps sc_simps set3_restore)
  have d4: "centroidHalfAxisSize (shift3 P 0 0 (scaled k (-1))) = Some (2, scaled k 1)"
    using decode_unit8 [of k "shift3 P 0 0 (scaled k (-1))" q0 12 q1 14 q2 7] k e
    by (simp add: rd_shift3 sc_simps)
  have u4: "centroidUpOneLevel b (shift3 P 0 0 (scaled k (-1))) = Inr P"
    using k e
    by (simp add: centroidUpOneLevel_def d4 Let_def pa_simps sc_simps set3_restore)
  have d5: "centroidHalfAxisSize (shift3 P 0 0 (scaled k 1)) = Some (2, scaled k 1)"
    using decode_unit8 [of k "shift3 P 0 0 (scaled k 1)" q0 12 q1 14 q2 9] k e
    by (simp add: rd_shift3 sc_simps)
  have u5: "centroidUpOneLevel b (shift3 P 0 0 (scaled k 1)) = Inr P"
    using k e
    by (simp add: centroidUpOneLevel_def d5 Let_def pa_simps sc_simps set3_restore)
  have d6: "centroidHalfAxisSize (shift3 P (scaled k (-1)) 0 0) = Some (0, scaled k 1)"
    using decode_unit8 [of k "shift3 P (scaled k (-1)) 0 0" q0 11 q1 14 q2 8] k e
    by (simp add: rd_shift3 sc_simps)
  have u6: "centroidUpOneLevel b (shift3 P (scaled k (-1)) 0 0) = Inr P"
    using k e
    by (simp add: centroidUpOneLevel_def d6 Let_def pa_simps sc_simps set3_restore)
  have d7: "centroidHalfAxisSize (shift3 P (scaled k 1) 0 0) = Some (0, scaled k 1)"
    using decode_unit8 [of k "shift3 P (scaled k 1) 0 0" q0 13 q1 14 q2 8] k e
    by (simp add: rd_shift3 sc_simps)
  have u7: "centroidUpOneLevel b (shift3 P (scaled k 1) 0 0) = Inr P"
    using k e
    by (simp add: centroidUpOneLevel_def d7 Let_def pa_simps sc_simps set3_restore)
  show ?thesis
    unfolding s using u0 u1 u2 u3 u4 u5 u6 u7 by simp
qed

lemma promote_children_a1_r14_r12:
  assumes k: "k \<le> 13"
    and d: "centroidHalfAxisSize P = Some (1, scaled k 2)"
    and e: "rd P 0 = unit8 k q0 8" "rd P 1 = unit8 k q1 14" "rd P 2 = unit8 k q2 12"
  shows "\<exists>subs. subtetCentroids P = Inr subs \<and> length subs = 8 \<and>
           (\<forall>ch\<in>set subs. ch \<noteq> markInvalid \<longrightarrow> centroidUpOneLevel b ch = Inr P)"
proof -
  have m: "unit8 k q0 8 mod 65536 = unit8 k q0 8" "unit8 k q1 14 mod 65536 = unit8 k q1 14"
    "unit8 k q2 12 mod 65536 = unit8 k q2 12"
    using rd_mod_id [of P 0] rd_mod_id [of P 1] rd_mod_id [of P 2] e by simp_all
  have s: "subtetCentroids P = Inr
     [if rd P 2 < scaled k 2 then markInvalid else shift3 P 0 (scaled k 1) (scaled k (-2)),
      shift3 P 0 (scaled k 1) (scaled k 2),
      if rd P 0 < scaled k 2 then markInvalid else shift3 P (scaled k (-2)) (scaled k (-1)) 0,
      shift3 P (scaled k 2) (scaled k (-1)) 0,
      if rd P 2 < scaled k 1 then markInvalid else shift3 P 0 0 (scaled k (-1)),
      shift3 P 0 0 (scaled k 1),
      if rd P 0 < scaled k 1 then markInvalid else shift3 P (scaled k (-1)) 0 0,
      shift3 P (scaled k 1) 0 0]"
    using k e m
    by (simp add: subtetCentroids_def d Let_def pa_simps sc_simps)
  have d0: "centroidHalfAxisSize (shift3 P 0 (scaled k 1) (scaled k (-2))) = Some (1, scaled k 1)"
    using decode_unit8 [of k "shift3 P 0 (scaled k 1) (scaled k (-2))" q0 8 q1 15 q2 10] k e
    by (simp add: rd_shift3 sc_simps)
  have u0: "centroidUpOneLevel b (shift3 P 0 (scaled k 1) (scaled k (-2))) = Inr P"
    using k e
    by (simp add: centroidUpOneLevel_def d0 Let_def pa_simps sc_simps set3_restore)
  have d1: "centroidHalfAxisSize (shift3 P 0 (scaled k 1) (scaled k 2)) = Some (1, scaled k 1)"
    using decode_unit8 [of k "shift3 P 0 (scaled k 1) (scaled k 2)" q0 8 q1 15 q2 14] k e
    by (simp add: rd_shift3 sc_simps)
  have u1: "centroidUpOneLevel b (shift3 P 0 (scaled k 1) (scaled k 2)) = Inr P"
    using k e
    by (simp add: centroidUpOneLevel_def d1 Let_def pa_simps sc_simps set3_restore)
  have d2: "centroidHalfAxisSize (shift3 P (scaled k (-2)) (scaled k (-1)) 0) = Some (1, scaled k 1)"
    using decode_unit8 [of k "shift3 P (scaled k (-2)) (scaled k (-1)) 0" q0 6 q1 13 q2 12] k e
    by (simp add: rd_shift3 sc_simps)
  have u2: "centroidUpOneLevel b (shift3 P (scaled k (-2)) (scaled k (-1)) 0) = Inr P"
    using k e
    by (simp add: centroidUpOneLevel_def d2 Let_def pa_simps sc_simps set3_restore)
  have d3: "centroidHalfAxisSize (shift3 P (scaled k 2) (scaled k (-1)) 0) = Some (1, scaled k 1)"
    using decode_unit8 [of k "shift3 P (scaled k 2) (scaled k (-1)) 0" q0 10 q1 13 q2 12] k e
    by (simp add: rd_shift3 sc_simps)
  have u3: "centroidUpOneLevel b (shift3 P (scaled k 2) (scaled k (-1)) 0) = Inr P"
    using k e
    by (simp add: centroidUpOneLevel_def d3 Let_def pa_simps sc_simps set3_restore)
  have d4: "centroidHalfAxisSize (shift3 P 0 0 (scaled k (-1))) = Some (2, scaled k 1)"
    using decode_unit8 [of k "shift3 P 0 0 (scaled k (-1))" q0 8 q1 14 q2 11] k e
    by (simp add: rd_shift3 sc_simps)
  have u4: "centroidUpOneLevel b (shift3 P 0 0 (scaled k (-1))) = Inr P"
    using k e
    by (simp add: centroidUpOneLevel_def d4 Let_def pa_simps sc_simps set3_restore)
  have d5: "centroidHalfAxisSize (shift3 P 0 0 (scaled k 1)) = Some (2, scaled k 1)"
    using decode_unit8 [of k "shift3 P 0 0 (scaled k 1)" q0 8 q1 14 q2 13] k e
    by (simp add: rd_shift3 sc_simps)
  have u5: "centroidUpOneLevel b (shift3 P 0 0 (scaled k 1)) = Inr P"
    using k e
    by (simp add: centroidUpOneLevel_def d5 Let_def pa_simps sc_simps set3_restore)
  have d6: "centroidHalfAxisSize (shift3 P (scaled k (-1)) 0 0) = Some (0, scaled k 1)"
    using decode_unit8 [of k "shift3 P (scaled k (-1)) 0 0" q0 7 q1 14 q2 12] k e
    by (simp add: rd_shift3 sc_simps)
  have u6: "centroidUpOneLevel b (shift3 P (scaled k (-1)) 0 0) = Inr P"
    using k e
    by (simp add: centroidUpOneLevel_def d6 Let_def pa_simps sc_simps set3_restore)
  have d7: "centroidHalfAxisSize (shift3 P (scaled k 1) 0 0) = Some (0, scaled k 1)"
    using decode_unit8 [of k "shift3 P (scaled k 1) 0 0" q0 9 q1 14 q2 12] k e
    by (simp add: rd_shift3 sc_simps)
  have u7: "centroidUpOneLevel b (shift3 P (scaled k 1) 0 0) = Inr P"
    using k e
    by (simp add: centroidUpOneLevel_def d7 Let_def pa_simps sc_simps set3_restore)
  show ?thesis
    unfolding s using u0 u1 u2 u3 u4 u5 u6 u7 by simp
qed

lemma promote_children_a2_r10_r8:
  assumes k: "k \<le> 13"
    and d: "centroidHalfAxisSize P = Some (2, scaled k 2)"
    and e: "rd P 0 = unit8 k q0 8" "rd P 1 = unit8 k q1 12" "rd P 2 = unit8 k q2 10"
  shows "\<exists>subs. subtetCentroids P = Inr subs \<and> length subs = 8 \<and>
           (\<forall>ch\<in>set subs. ch \<noteq> markInvalid \<longrightarrow> centroidUpOneLevel b ch = Inr P)"
proof -
  have m: "unit8 k q0 8 mod 65536 = unit8 k q0 8" "unit8 k q1 12 mod 65536 = unit8 k q1 12"
    "unit8 k q2 10 mod 65536 = unit8 k q2 10"
    using rd_mod_id [of P 0] rd_mod_id [of P 1] rd_mod_id [of P 2] e by simp_all
  have s: "subtetCentroids P = Inr
     [if rd P 0 < scaled k 2 then markInvalid else shift3 P (scaled k (-2)) 0 (scaled k 1),
      shift3 P (scaled k 2) 0 (scaled k 1),
      if rd P 1 < scaled k 2 then markInvalid else shift3 P 0 (scaled k (-2)) (scaled k (-1)),
      shift3 P 0 (scaled k 2) (scaled k (-1)),
      if rd P 0 < scaled k 1 then markInvalid else shift3 P (scaled k (-1)) 0 0,
      shift3 P (scaled k 1) 0 0,
      if rd P 1 < scaled k 1 then markInvalid else shift3 P 0 (scaled k (-1)) 0,
      shift3 P 0 (scaled k 1) 0]"
    using k e m
    by (simp add: subtetCentroids_def d Let_def pa_simps sc_simps)
  have d0: "centroidHalfAxisSize (shift3 P (scaled k (-2)) 0 (scaled k 1)) = Some (2, scaled k 1)"
    using decode_unit8 [of k "shift3 P (scaled k (-2)) 0 (scaled k 1)" q0 6 q1 12 q2 11] k e
    by (simp add: rd_shift3 sc_simps)
  have u0: "centroidUpOneLevel b (shift3 P (scaled k (-2)) 0 (scaled k 1)) = Inr P"
    using k e
    by (simp add: centroidUpOneLevel_def d0 Let_def pa_simps sc_simps set3_restore)
  have d1: "centroidHalfAxisSize (shift3 P (scaled k 2) 0 (scaled k 1)) = Some (2, scaled k 1)"
    using decode_unit8 [of k "shift3 P (scaled k 2) 0 (scaled k 1)" q0 10 q1 12 q2 11] k e
    by (simp add: rd_shift3 sc_simps)
  have u1: "centroidUpOneLevel b (shift3 P (scaled k 2) 0 (scaled k 1)) = Inr P"
    using k e
    by (simp add: centroidUpOneLevel_def d1 Let_def pa_simps sc_simps set3_restore)
  have d2: "centroidHalfAxisSize (shift3 P 0 (scaled k (-2)) (scaled k (-1))) = Some (2, scaled k 1)"
    using decode_unit8 [of k "shift3 P 0 (scaled k (-2)) (scaled k (-1))" q0 8 q1 10 q2 9] k e
    by (simp add: rd_shift3 sc_simps)
  have u2: "centroidUpOneLevel b (shift3 P 0 (scaled k (-2)) (scaled k (-1))) = Inr P"
    using k e
    by (simp add: centroidUpOneLevel_def d2 Let_def pa_simps sc_simps set3_restore)
  have d3: "centroidHalfAxisSize (shift3 P 0 (scaled k 2) (scaled k (-1))) = Some (2, scaled k 1)"
    using decode_unit8 [of k "shift3 P 0 (scaled k 2) (scaled k (-1))" q0 8 q1 14 q2 9] k e
    by (simp add: rd_shift3 sc_simps)
  have u3: "centroidUpOneLevel b (shift3 P 0 (scaled k 2) (scaled k (-1))) = Inr P"
    using k e
    by (simp add: centroidUpOneLevel_def d3 Let_def pa_simps sc_simps set3_restore)
  have d4: "centroidHalfAxisSize (shift3 P (scaled k (-1)) 0 0) = Some (0, scaled k 1)"
    using decode_unit8 [of k "shift3 P (scaled k (-1)) 0 0" q0 7 q1 12 q2 10] k e
    by (simp add: rd_shift3 sc_simps)
  have u4: "centroidUpOneLevel b (shift3 P (scaled k (-1)) 0 0) = Inr P"
    using k e
    by (simp add: centroidUpOneLevel_def d4 Let_def pa_simps sc_simps set3_restore)
  have d5: "centroidHalfAxisSize (shift3 P (scaled k 1) 0 0) = Some (0, scaled k 1)"
    using decode_unit8 [of k "shift3 P (scaled k 1) 0 0" q0 9 q1 12 q2 10] k e
    by (simp add: rd_shift3 sc_simps)
  have u5: "centroidUpOneLevel b (shift3 P (scaled k 1) 0 0) = Inr P"
    using k e
    by (simp add: centroidUpOneLevel_def d5 Let_def pa_simps sc_simps set3_restore)
  have d6: "centroidHalfAxisSize (shift3 P 0 (scaled k (-1)) 0) = Some (1, scaled k 1)"
    using decode_unit8 [of k "shift3 P 0 (scaled k (-1)) 0" q0 8 q1 11 q2 10] k e
    by (simp add: rd_shift3 sc_simps)
  have u6: "centroidUpOneLevel b (shift3 P 0 (scaled k (-1)) 0) = Inr P"
    using k e
    by (simp add: centroidUpOneLevel_def d6 Let_def pa_simps sc_simps set3_restore)
  have d7: "centroidHalfAxisSize (shift3 P 0 (scaled k 1) 0) = Some (1, scaled k 1)"
    using decode_unit8 [of k "shift3 P 0 (scaled k 1) 0" q0 8 q1 13 q2 10] k e
    by (simp add: rd_shift3 sc_simps)
  have u7: "centroidUpOneLevel b (shift3 P 0 (scaled k 1) 0) = Inr P"
    using k e
    by (simp add: centroidUpOneLevel_def d7 Let_def pa_simps sc_simps set3_restore)
  show ?thesis
    unfolding s using u0 u1 u2 u3 u4 u5 u6 u7 by simp
qed

lemma promote_children_a2_r10_r12:
  assumes k: "k \<le> 13"
    and d: "centroidHalfAxisSize P = Some (2, scaled k 2)"
    and e: "rd P 0 = unit8 k q0 12" "rd P 1 = unit8 k q1 8" "rd P 2 = unit8 k q2 10"
  shows "\<exists>subs. subtetCentroids P = Inr subs \<and> length subs = 8 \<and>
           (\<forall>ch\<in>set subs. ch \<noteq> markInvalid \<longrightarrow> centroidUpOneLevel b ch = Inr P)"
proof -
  have m: "unit8 k q0 12 mod 65536 = unit8 k q0 12" "unit8 k q1 8 mod 65536 = unit8 k q1 8"
    "unit8 k q2 10 mod 65536 = unit8 k q2 10"
    using rd_mod_id [of P 0] rd_mod_id [of P 1] rd_mod_id [of P 2] e by simp_all
  have s: "subtetCentroids P = Inr
     [if rd P 0 < scaled k 2 then markInvalid else shift3 P (scaled k (-2)) 0 (scaled k (-1)),
      shift3 P (scaled k 2) 0 (scaled k (-1)),
      shift3 P 0 (scaled k 2) (scaled k 1),
      if rd P 1 < scaled k 2 then markInvalid else shift3 P 0 (scaled k (-2)) (scaled k 1),
      if rd P 0 < scaled k 1 then markInvalid else shift3 P (scaled k (-1)) 0 0,
      shift3 P (scaled k 1) 0 0,
      if rd P 1 < scaled k 1 then markInvalid else shift3 P 0 (scaled k (-1)) 0,
      shift3 P 0 (scaled k 1) 0]"
    using k e m
    by (simp add: subtetCentroids_def d Let_def pa_simps sc_simps)
  have d0: "centroidHalfAxisSize (shift3 P (scaled k (-2)) 0 (scaled k (-1))) = Some (2, scaled k 1)"
    using decode_unit8 [of k "shift3 P (scaled k (-2)) 0 (scaled k (-1))" q0 10 q1 8 q2 9] k e
    by (simp add: rd_shift3 sc_simps)
  have u0: "centroidUpOneLevel b (shift3 P (scaled k (-2)) 0 (scaled k (-1))) = Inr P"
    using k e
    by (simp add: centroidUpOneLevel_def d0 Let_def pa_simps sc_simps set3_restore)
  have d1: "centroidHalfAxisSize (shift3 P (scaled k 2) 0 (scaled k (-1))) = Some (2, scaled k 1)"
    using decode_unit8 [of k "shift3 P (scaled k 2) 0 (scaled k (-1))" q0 14 q1 8 q2 9] k e
    by (simp add: rd_shift3 sc_simps)
  have u1: "centroidUpOneLevel b (shift3 P (scaled k 2) 0 (scaled k (-1))) = Inr P"
    using k e
    by (simp add: centroidUpOneLevel_def d1 Let_def pa_simps sc_simps set3_restore)
  have d2: "centroidHalfAxisSize (shift3 P 0 (scaled k 2) (scaled k 1)) = Some (2, scaled k 1)"
    using decode_unit8 [of k "shift3 P 0 (scaled k 2) (scaled k 1)" q0 12 q1 10 q2 11] k e
    by (simp add: rd_shift3 sc_simps)
  have u2: "centroidUpOneLevel b (shift3 P 0 (scaled k 2) (scaled k 1)) = Inr P"
    using k e
    by (simp add: centroidUpOneLevel_def d2 Let_def pa_simps sc_simps set3_restore)
  have d3: "centroidHalfAxisSize (shift3 P 0 (scaled k (-2)) (scaled k 1)) = Some (2, scaled k 1)"
    using decode_unit8 [of k "shift3 P 0 (scaled k (-2)) (scaled k 1)" q0 12 q1 6 q2 11] k e
    by (simp add: rd_shift3 sc_simps)
  have u3: "centroidUpOneLevel b (shift3 P 0 (scaled k (-2)) (scaled k 1)) = Inr P"
    using k e
    by (simp add: centroidUpOneLevel_def d3 Let_def pa_simps sc_simps set3_restore)
  have d4: "centroidHalfAxisSize (shift3 P (scaled k (-1)) 0 0) = Some (0, scaled k 1)"
    using decode_unit8 [of k "shift3 P (scaled k (-1)) 0 0" q0 11 q1 8 q2 10] k e
    by (simp add: rd_shift3 sc_simps)
  have u4: "centroidUpOneLevel b (shift3 P (scaled k (-1)) 0 0) = Inr P"
    using k e
    by (simp add: centroidUpOneLevel_def d4 Let_def pa_simps sc_simps set3_restore)
  have d5: "centroidHalfAxisSize (shift3 P (scaled k 1) 0 0) = Some (0, scaled k 1)"
    using decode_unit8 [of k "shift3 P (scaled k 1) 0 0" q0 13 q1 8 q2 10] k e
    by (simp add: rd_shift3 sc_simps)
  have u5: "centroidUpOneLevel b (shift3 P (scaled k 1) 0 0) = Inr P"
    using k e
    by (simp add: centroidUpOneLevel_def d5 Let_def pa_simps sc_simps set3_restore)
  have d6: "centroidHalfAxisSize (shift3 P 0 (scaled k (-1)) 0) = Some (1, scaled k 1)"
    using decode_unit8 [of k "shift3 P 0 (scaled k (-1)) 0" q0 12 q1 7 q2 10] k e
    by (simp add: rd_shift3 sc_simps)
  have u6: "centroidUpOneLevel b (shift3 P 0 (scaled k (-1)) 0) = Inr P"
    using k e
    by (simp add: centroidUpOneLevel_def d6 Let_def pa_simps sc_simps set3_restore)
  have d7: "centroidHalfAxisSize (shift3 P 0 (scaled k 1) 0) = Some (1, scaled k 1)"
    using decode_unit8 [of k "shift3 P 0 (scaled k 1) 0" q0 12 q1 9 q2 10] k e
    by (simp add: rd_shift3 sc_simps)
  have u7: "centroidUpOneLevel b (shift3 P 0 (scaled k 1) 0) = Inr P"
    using k e
    by (simp add: centroidUpOneLevel_def d7 Let_def pa_simps sc_simps set3_restore)
  show ?thesis
    unfolding s using u0 u1 u2 u3 u4 u5 u6 u7 by simp
qed

lemma promote_children_a2_r14_r8:
  assumes k: "k \<le> 13"
    and d: "centroidHalfAxisSize P = Some (2, scaled k 2)"
    and e: "rd P 0 = unit8 k q0 8" "rd P 1 = unit8 k q1 12" "rd P 2 = unit8 k q2 14"
  shows "\<exists>subs. subtetCentroids P = Inr subs \<and> length subs = 8 \<and>
           (\<forall>ch\<in>set subs. ch \<noteq> markInvalid \<longrightarrow> centroidUpOneLevel b ch = Inr P)"
proof -
  have m: "unit8 k q0 8 mod 65536 = unit8 k q0 8" "unit8 k q1 12 mod 65536 = unit8 k q1 12"
    "unit8 k q2 14 mod 65536 = unit8 k q2 14"
    using rd_mod_id [of P 0] rd_mod_id [of P 1] rd_mod_id [of P 2] e by simp_all
  have s: "subtetCentroids P = Inr
     [if rd P 0 < scaled k 2 then markInvalid else shift3 P (scaled k (-2)) 0 (scaled k (-1)),
      shift3 P (scaled k 2) 0 (scaled k (-1)),
      shift3 P 0 (scaled k 2) (scaled k 1),
      if rd P 1 < scaled k 2 then markInvalid else shift3 P 0 (scaled k (-2)) (scaled k 1),
      if rd P 0 < scaled k 1 then markInvalid else shift3 P (scaled k (-1)) 0 0,
      shift3 P (scaled k 1) 0 0,
      if rd P 1 < scaled k 1 then markInvalid else shift3 P 0 (scaled k (-1)) 0,
      shift3 P 0 (scaled k 1) 0]"
    using k e m
    by (simp add: subtetCentroids_def d Let_def pa_simps sc_simps)
  have d0: "centroidHalfAxisSize (shift3 P (scaled k (-2)) 0 (scaled k (-1))) = Some (2, scaled k 1)"
    using decode_unit8 [of k "shift3 P (scaled k (-2)) 0 (scaled k (-1))" q0 6 q1 12 q2 13] k e
    by (simp add: rd_shift3 sc_simps)
  have u0: "centroidUpOneLevel b (shift3 P (scaled k (-2)) 0 (scaled k (-1))) = Inr P"
    using k e
    by (simp add: centroidUpOneLevel_def d0 Let_def pa_simps sc_simps set3_restore)
  have d1: "centroidHalfAxisSize (shift3 P (scaled k 2) 0 (scaled k (-1))) = Some (2, scaled k 1)"
    using decode_unit8 [of k "shift3 P (scaled k 2) 0 (scaled k (-1))" q0 10 q1 12 q2 13] k e
    by (simp add: rd_shift3 sc_simps)
  have u1: "centroidUpOneLevel b (shift3 P (scaled k 2) 0 (scaled k (-1))) = Inr P"
    using k e
    by (simp add: centroidUpOneLevel_def d1 Let_def pa_simps sc_simps set3_restore)
  have d2: "centroidHalfAxisSize (shift3 P 0 (scaled k 2) (scaled k 1)) = Some (2, scaled k 1)"
    using decode_unit8 [of k "shift3 P 0 (scaled k 2) (scaled k 1)" q0 8 q1 14 q2 15] k e
    by (simp add: rd_shift3 sc_simps)
  have u2: "centroidUpOneLevel b (shift3 P 0 (scaled k 2) (scaled k 1)) = Inr P"
    using k e
    by (simp add: centroidUpOneLevel_def d2 Let_def pa_simps sc_simps set3_restore)
  have d3: "centroidHalfAxisSize (shift3 P 0 (scaled k (-2)) (scaled k 1)) = Some (2, scaled k 1)"
    using decode_unit8 [of k "shift3 P 0 (scaled k (-2)) (scaled k 1)" q0 8 q1 10 q2 15] k e
    by (simp add: rd_shift3 sc_simps)
  have u3: "centroidUpOneLevel b (shift3 P 0 (scaled k (-2)) (scaled k 1)) = Inr P"
    using k e
    by (simp add: centroidUpOneLevel_def d3 Let_def pa_simps sc_simps set3_restore)
  have d4: "centroidHalfAxisSize (shift3 P (scaled k (-1)) 0 0) = Some (0, scaled k 1)"
    using decode_unit8 [of k "shift3 P (scaled k (-1)) 0 0" q0 7 q1 12 q2 14] k e
    by (simp add: rd_shift3 sc_simps)
  have u4: "centroidUpOneLevel b (shift3 P (scaled k (-1)) 0 0) = Inr P"
    using k e
    by (simp add: centroidUpOneLevel_def d4 Let_def pa_simps sc_simps set3_restore)
  have d5: "centroidHalfAxisSize (shift3 P (scaled k 1) 0 0) = Some (0, scaled k 1)"
    using decode_unit8 [of k "shift3 P (scaled k 1) 0 0" q0 9 q1 12 q2 14] k e
    by (simp add: rd_shift3 sc_simps)
  have u5: "centroidUpOneLevel b (shift3 P (scaled k 1) 0 0) = Inr P"
    using k e
    by (simp add: centroidUpOneLevel_def d5 Let_def pa_simps sc_simps set3_restore)
  have d6: "centroidHalfAxisSize (shift3 P 0 (scaled k (-1)) 0) = Some (1, scaled k 1)"
    using decode_unit8 [of k "shift3 P 0 (scaled k (-1)) 0" q0 8 q1 11 q2 14] k e
    by (simp add: rd_shift3 sc_simps)
  have u6: "centroidUpOneLevel b (shift3 P 0 (scaled k (-1)) 0) = Inr P"
    using k e
    by (simp add: centroidUpOneLevel_def d6 Let_def pa_simps sc_simps set3_restore)
  have d7: "centroidHalfAxisSize (shift3 P 0 (scaled k 1) 0) = Some (1, scaled k 1)"
    using decode_unit8 [of k "shift3 P 0 (scaled k 1) 0" q0 8 q1 13 q2 14] k e
    by (simp add: rd_shift3 sc_simps)
  have u7: "centroidUpOneLevel b (shift3 P 0 (scaled k 1) 0) = Inr P"
    using k e
    by (simp add: centroidUpOneLevel_def d7 Let_def pa_simps sc_simps set3_restore)
  show ?thesis
    unfolding s using u0 u1 u2 u3 u4 u5 u6 u7 by simp
qed

lemma promote_children_a2_r14_r12:
  assumes k: "k \<le> 13"
    and d: "centroidHalfAxisSize P = Some (2, scaled k 2)"
    and e: "rd P 0 = unit8 k q0 12" "rd P 1 = unit8 k q1 8" "rd P 2 = unit8 k q2 14"
  shows "\<exists>subs. subtetCentroids P = Inr subs \<and> length subs = 8 \<and>
           (\<forall>ch\<in>set subs. ch \<noteq> markInvalid \<longrightarrow> centroidUpOneLevel b ch = Inr P)"
proof -
  have m: "unit8 k q0 12 mod 65536 = unit8 k q0 12" "unit8 k q1 8 mod 65536 = unit8 k q1 8"
    "unit8 k q2 14 mod 65536 = unit8 k q2 14"
    using rd_mod_id [of P 0] rd_mod_id [of P 1] rd_mod_id [of P 2] e by simp_all
  have s: "subtetCentroids P = Inr
     [if rd P 0 < scaled k 2 then markInvalid else shift3 P (scaled k (-2)) 0 (scaled k 1),
      shift3 P (scaled k 2) 0 (scaled k 1),
      if rd P 1 < scaled k 2 then markInvalid else shift3 P 0 (scaled k (-2)) (scaled k (-1)),
      shift3 P 0 (scaled k 2) (scaled k (-1)),
      if rd P 0 < scaled k 1 then markInvalid else shift3 P (scaled k (-1)) 0 0,
      shift3 P (scaled k 1) 0 0,
      if rd P 1 < scaled k 1 then markInvalid else shift3 P 0 (scaled k (-1)) 0,
      shift3 P 0 (scaled k 1) 0]"
    using k e m
    by (simp add: subtetCentroids_def d Let_def pa_simps sc_simps)
  have d0: "centroidHalfAxisSize (shift3 P (scaled k (-2)) 0 (scaled k 1)) = Some (2, scaled k 1)"
    using decode_unit8 [of k "shift3 P (scaled k (-2)) 0 (scaled k 1)" q0 10 q1 8 q2 15] k e
    by (simp add: rd_shift3 sc_simps)
  have u0: "centroidUpOneLevel b (shift3 P (scaled k (-2)) 0 (scaled k 1)) = Inr P"
    using k e
    by (simp add: centroidUpOneLevel_def d0 Let_def pa_simps sc_simps set3_restore)
  have d1: "centroidHalfAxisSize (shift3 P (scaled k 2) 0 (scaled k 1)) = Some (2, scaled k 1)"
    using decode_unit8 [of k "shift3 P (scaled k 2) 0 (scaled k 1)" q0 14 q1 8 q2 15] k e
    by (simp add: rd_shift3 sc_simps)
  have u1: "centroidUpOneLevel b (shift3 P (scaled k 2) 0 (scaled k 1)) = Inr P"
    using k e
    by (simp add: centroidUpOneLevel_def d1 Let_def pa_simps sc_simps set3_restore)
  have d2: "centroidHalfAxisSize (shift3 P 0 (scaled k (-2)) (scaled k (-1))) = Some (2, scaled k 1)"
    using decode_unit8 [of k "shift3 P 0 (scaled k (-2)) (scaled k (-1))" q0 12 q1 6 q2 13] k e
    by (simp add: rd_shift3 sc_simps)
  have u2: "centroidUpOneLevel b (shift3 P 0 (scaled k (-2)) (scaled k (-1))) = Inr P"
    using k e
    by (simp add: centroidUpOneLevel_def d2 Let_def pa_simps sc_simps set3_restore)
  have d3: "centroidHalfAxisSize (shift3 P 0 (scaled k 2) (scaled k (-1))) = Some (2, scaled k 1)"
    using decode_unit8 [of k "shift3 P 0 (scaled k 2) (scaled k (-1))" q0 12 q1 10 q2 13] k e
    by (simp add: rd_shift3 sc_simps)
  have u3: "centroidUpOneLevel b (shift3 P 0 (scaled k 2) (scaled k (-1))) = Inr P"
    using k e
    by (simp add: centroidUpOneLevel_def d3 Let_def pa_simps sc_simps set3_restore)
  have d4: "centroidHalfAxisSize (shift3 P (scaled k (-1)) 0 0) = Some (0, scaled k 1)"
    using decode_unit8 [of k "shift3 P (scaled k (-1)) 0 0" q0 11 q1 8 q2 14] k e
    by (simp add: rd_shift3 sc_simps)
  have u4: "centroidUpOneLevel b (shift3 P (scaled k (-1)) 0 0) = Inr P"
    using k e
    by (simp add: centroidUpOneLevel_def d4 Let_def pa_simps sc_simps set3_restore)
  have d5: "centroidHalfAxisSize (shift3 P (scaled k 1) 0 0) = Some (0, scaled k 1)"
    using decode_unit8 [of k "shift3 P (scaled k 1) 0 0" q0 13 q1 8 q2 14] k e
    by (simp add: rd_shift3 sc_simps)
  have u5: "centroidUpOneLevel b (shift3 P (scaled k 1) 0 0) = Inr P"
    using k e
    by (simp add: centroidUpOneLevel_def d5 Let_def pa_simps sc_simps set3_restore)
  have d6: "centroidHalfAxisSize (shift3 P 0 (scaled k (-1)) 0) = Some (1, scaled k 1)"
    using decode_unit8 [of k "shift3 P 0 (scaled k (-1)) 0" q0 12 q1 7 q2 14] k e
    by (simp add: rd_shift3 sc_simps)
  have u6: "centroidUpOneLevel b (shift3 P 0 (scaled k (-1)) 0) = Inr P"
    using k e
    by (simp add: centroidUpOneLevel_def d6 Let_def pa_simps sc_simps set3_restore)
  have d7: "centroidHalfAxisSize (shift3 P 0 (scaled k 1) 0) = Some (1, scaled k 1)"
    using decode_unit8 [of k "shift3 P 0 (scaled k 1) 0" q0 12 q1 9 q2 14] k e
    by (simp add: rd_shift3 sc_simps)
  have u7: "centroidUpOneLevel b (shift3 P 0 (scaled k 1) 0) = Inr P"
    using k e
    by (simp add: centroidUpOneLevel_def d7 Let_def pa_simps sc_simps set3_restore)
  show ?thesis
    unfolding s using u0 u1 u2 u3 u4 u5 u6 u7 by simp
qed

section \<open>The units of a valid centroid\<close>

lemma bit_of_units: "bit ((2::int) ^ K * n) (K + j) = bit n j"
proof -
  have "bit (push_bit K n) (K + j) = bit n j"
    by (simp add: bit_push_bit_iff)
  then show ?thesis
    by (simp add: push_bit_eq_mult mult.commute)
qed

lemma bit_of_units_0: "bit ((2::int) ^ K * n) K = odd n"
  using bit_of_units [of K n 0] by (simp add: bit_0)

lemma bit_of_units_1: "bit ((2::int) ^ K * n) (Suc K) = odd (n div 2)"
  using bit_of_units [of K n 1] by (simp add: bit_iff_odd)

lemma bit_index_bound:
  assumes "bit (x::int) j" "0 \<le> x" "x < 65536"
  shows "j < 16"
proof (rule ccontr)
  assume "\<not> j < 16"
  then have "16 \<le> j" by simp
  then have "(2::int) ^ 16 \<le> 2 ^ j"
    by (intro power_increasing) simp_all
  with bit_lower_bound [OF assms(1,2)] assms(3) show False by simp
qed

lemma residues_half:
  fixes n :: int
  assumes "odd n"
  shows "\<exists>q. 2 * n = 8 * q + 10 \<or> 2 * n = 8 * q + 14"
  using assms by presburger

lemma residues_secondary:
  fixes n1 n2 :: int
  assumes "even n1" "even n2" "odd (n1 div 2) \<noteq> odd (n2 div 2)"
  shows "\<exists>q1 q2. 2 * n1 = 8 * q1 + 8 \<and> 2 * n2 = 8 * q2 + 12 \<or>
           2 * n1 = 8 * q1 + 12 \<and> 2 * n2 = 8 * q2 + 8"
  using assms by presburger

lemma valid_bits:
  assumes v: "valid_centroid c" and d: "centroidHalfAxisSize c = Some (hc, 2 ^ K)"
  shows "\<not> bit (rd c ((hc + 1) mod 3)) K" "\<not> bit (rd c ((hc + 2) mod 3)) K"
    "bit (rd c ((hc + 1) mod 3)) (Suc K) \<noteq> bit (rd c ((hc + 2) mod 3)) (Suc K)"
proof -
  from v d have a: "rd c ((hc + 1) mod 3) AND 2 ^ K = 0" "rd c ((hc + 2) mod 3) AND 2 ^ K = 0"
    "rd c ((hc + 1) mod 3) AND 2 ^ Suc K \<noteq> rd c ((hc + 2) mod 3) AND 2 ^ Suc K"
    by (simp_all add: valid_centroid_def)
  from a(1) show "\<not> bit (rd c ((hc + 1) mod 3)) K"
    by (simp add: and_pow2_int split: if_splits)
  from a(2) show "\<not> bit (rd c ((hc + 2) mod 3)) K"
    by (simp add: and_pow2_int split: if_splits)
  from a(3) show "bit (rd c ((hc + 1) mod 3)) (Suc K) \<noteq> bit (rd c ((hc + 2) mod 3)) (Suc K)"
    unfolding and_pow2_int by (auto split: if_splits)
qed

lemma valid_units:
  assumes v: "valid_centroid c" and d: "centroidHalfAxisSize c = Some (hc, level)"
    and l: "2 \<le> level"
  obtains k q0 q1 q2 r0 r1 r2 where "k \<le> 13" "level = scaled k 2"
    "rd c 0 = unit8 k q0 r0" "rd c 1 = unit8 k q1 r1" "rd c 2 = unit8 k q2 r2"
    "hc = 0 \<and> (r0 = 10 \<or> r0 = 14) \<and> (r1 = 8 \<and> r2 = 12 \<or> r1 = 12 \<and> r2 = 8) \<or>
     hc = 1 \<and> (r1 = 10 \<or> r1 = 14) \<and> (r2 = 8 \<and> r0 = 12 \<or> r2 = 12 \<and> r0 = 8) \<or>
     hc = 2 \<and> (r2 = 10 \<or> r2 = 14) \<and> (r0 = 8 \<and> r1 = 12 \<or> r0 = 12 \<and> r1 = 8)"
proof -
  from d obtain K n0 n1 n2 where K: "K < 16" "level = 2 ^ K" "hc = 0 \<or> hc = 1 \<or> hc = 2"
    and n: "rd c 0 = 2 ^ K * n0" "rd c 1 = 2 ^ K * n1" "rd c 2 = 2 ^ K * n2"
    and bh: "bit (rd c hc) K"
    by (rule decode_units)
  from l K(2) have "K \<noteq> 0" by (cases K) simp_all
  then obtain k where k: "K = Suc k" by (cases K) simp_all
  note vb = valid_bits [OF v d [unfolded K(2)]]
  have u: "\<And>n. (2::int) ^ K * n = scaled k (2 * n)"
    by (simp add: k scaled_def)
  have lv: "level = scaled k 2"
    by (simp add: K(2) k scaled_def)
  have kb: "k \<le> 13"
  proof -
    from vb(3) have "bit (rd c ((hc + 1) mod 3)) (Suc K) \<or> bit (rd c ((hc + 2) mod 3)) (Suc K)"
      by blast
    then have "Suc K < 16"
      using bit_index_bound rd_range by blast
    with k show ?thesis by simp
  qed
  from K(3) show thesis
  proof (elim disjE)
    assume h: "hc = 0"
    from bh vb n have "odd n0" "even n1" "even n2" "odd (n1 div 2) \<noteq> odd (n2 div 2)"
      by (simp_all add: h bit_of_units_0 bit_of_units_1 Suc_Suc_0_eq_2)
    with residues_half [of n0] residues_secondary [of n1 n2]
    obtain q0 q1 q2 where
      "2 * n0 = 8 * q0 + 10 \<or> 2 * n0 = 8 * q0 + 14"
      "2 * n1 = 8 * q1 + 8 \<and> 2 * n2 = 8 * q2 + 12 \<or>
       2 * n1 = 8 * q1 + 12 \<and> 2 * n2 = 8 * q2 + 8"
      by blast
    then obtain r0 r1 r2 where
      r: "2 * n0 = 8 * q0 + r0" "2 * n1 = 8 * q1 + r1" "2 * n2 = 8 * q2 + r2"
        "r0 = 10 \<or> r0 = 14" "r1 = 8 \<and> r2 = 12 \<or> r1 = 12 \<and> r2 = 8"
      by blast
    have "rd c 0 = unit8 k q0 r0" "rd c 1 = unit8 k q1 r1" "rd c 2 = unit8 k q2 r2"
      using r(1-3) n by (simp_all add: u unit8_def)
    with kb lv h r(4,5) show thesis
      by (intro that [of k q0 r0 q1 r1 q2 r2]) simp_all
  next
    assume h: "hc = 1"
    from bh vb n have "odd n1" "even n2" "even n0" "odd (n2 div 2) \<noteq> odd (n0 div 2)"
      by (simp_all add: h bit_of_units_0 bit_of_units_1 Suc_Suc_0_eq_2)
    with residues_half [of n1] residues_secondary [of n2 n0]
    obtain q1 q2 q0 where
      "2 * n1 = 8 * q1 + 10 \<or> 2 * n1 = 8 * q1 + 14"
      "2 * n2 = 8 * q2 + 8 \<and> 2 * n0 = 8 * q0 + 12 \<or>
       2 * n2 = 8 * q2 + 12 \<and> 2 * n0 = 8 * q0 + 8"
      by blast
    then obtain r1 r2 r0 where
      r: "2 * n1 = 8 * q1 + r1" "2 * n2 = 8 * q2 + r2" "2 * n0 = 8 * q0 + r0"
        "r1 = 10 \<or> r1 = 14" "r2 = 8 \<and> r0 = 12 \<or> r2 = 12 \<and> r0 = 8"
      by blast
    have "rd c 0 = unit8 k q0 r0" "rd c 1 = unit8 k q1 r1" "rd c 2 = unit8 k q2 r2"
      using r(1-3) n by (simp_all add: u unit8_def)
    with kb lv h r(4,5) show thesis
      by (intro that [of k q0 r0 q1 r1 q2 r2]) simp_all
  next
    assume h: "hc = 2"
    from bh vb n have "odd n2" "even n0" "even n1" "odd (n0 div 2) \<noteq> odd (n1 div 2)"
      by (simp_all add: h bit_of_units_0 bit_of_units_1 Suc_Suc_0_eq_2)
    with residues_half [of n2] residues_secondary [of n0 n1]
    obtain q2 q0 q1 where
      "2 * n2 = 8 * q2 + 10 \<or> 2 * n2 = 8 * q2 + 14"
      "2 * n0 = 8 * q0 + 8 \<and> 2 * n1 = 8 * q1 + 12 \<or>
       2 * n0 = 8 * q0 + 12 \<and> 2 * n1 = 8 * q1 + 8"
      by blast
    then obtain r2 r0 r1 where
      r: "2 * n2 = 8 * q2 + r2" "2 * n0 = 8 * q0 + r0" "2 * n1 = 8 * q1 + r1"
        "r2 = 10 \<or> r2 = 14" "r0 = 8 \<and> r1 = 12 \<or> r0 = 12 \<and> r1 = 8"
      by blast
    have "rd c 0 = unit8 k q0 r0" "rd c 1 = unit8 k q1 r1" "rd c 2 = unit8 k q2 r2"
      using r(1-3) n by (simp_all add: u unit8_def)
    with kb lv h r(4,5) show thesis
      by (intro that [of k q0 r0 q1 r1 q2 r2]) simp_all
  qed
qed

lemma promote_children:
  assumes v: "valid_centroid c" and d: "centroidHalfAxisSize c = Some (hc, level)"
    and l: "2 \<le> level"
  shows "\<exists>subs. subtetCentroids c = Inr subs \<and> length subs = 8 \<and>
           (\<forall>ch\<in>set subs. ch \<noteq> markInvalid \<longrightarrow> centroidUpOneLevel b ch = Inr c)"
proof -
  from v d l obtain k q0 q1 q2 r0 r1 r2 where k: "k \<le> 13" and lv: "level = scaled k 2"
    and e: "rd c 0 = unit8 k q0 r0" "rd c 1 = unit8 k q1 r1" "rd c 2 = unit8 k q2 r2"
    and r: "hc = 0 \<and> (r0 = 10 \<or> r0 = 14) \<and> (r1 = 8 \<and> r2 = 12 \<or> r1 = 12 \<and> r2 = 8) \<or>
     hc = 1 \<and> (r1 = 10 \<or> r1 = 14) \<and> (r2 = 8 \<and> r0 = 12 \<or> r2 = 12 \<and> r0 = 8) \<or>
     hc = 2 \<and> (r2 = 10 \<or> r2 = 14) \<and> (r0 = 8 \<and> r1 = 12 \<or> r0 = 12 \<and> r1 = 8)"
    by (rule valid_units)
  from r show ?thesis
  proof (elim disjE conjE)
    assume h: "hc = 0" and a: "r0 = 10" "r1 = 8" "r2 = 12"
    show ?thesis
      by (rule promote_children_a0_r10_r8 [OF k d [unfolded h lv] e [unfolded a]])
  next
    assume h: "hc = 0" and a: "r0 = 10" "r1 = 12" "r2 = 8"
    show ?thesis
      by (rule promote_children_a0_r10_r12 [OF k d [unfolded h lv] e [unfolded a]])
  next
    assume h: "hc = 0" and a: "r0 = 14" "r1 = 8" "r2 = 12"
    show ?thesis
      by (rule promote_children_a0_r14_r8 [OF k d [unfolded h lv] e [unfolded a]])
  next
    assume h: "hc = 0" and a: "r0 = 14" "r1 = 12" "r2 = 8"
    show ?thesis
      by (rule promote_children_a0_r14_r12 [OF k d [unfolded h lv] e [unfolded a]])
  next
    assume h: "hc = 1" and a: "r1 = 10" "r2 = 8" "r0 = 12"
    show ?thesis
      by (rule promote_children_a1_r10_r8 [OF k d [unfolded h lv] e [unfolded a]])
  next
    assume h: "hc = 1" and a: "r1 = 10" "r2 = 12" "r0 = 8"
    show ?thesis
      by (rule promote_children_a1_r10_r12 [OF k d [unfolded h lv] e [unfolded a]])
  next
    assume h: "hc = 1" and a: "r1 = 14" "r2 = 8" "r0 = 12"
    show ?thesis
      by (rule promote_children_a1_r14_r8 [OF k d [unfolded h lv] e [unfolded a]])
  next
    assume h: "hc = 1" and a: "r1 = 14" "r2 = 12" "r0 = 8"
    show ?thesis
      by (rule promote_children_a1_r14_r12 [OF k d [unfolded h lv] e [unfolded a]])
  next
    assume h: "hc = 2" and a: "r2 = 10" "r0 = 8" "r1 = 12"
    show ?thesis
      by (rule promote_children_a2_r10_r8 [OF k d [unfolded h lv] e [unfolded a]])
  next
    assume h: "hc = 2" and a: "r2 = 10" "r0 = 12" "r1 = 8"
    show ?thesis
      by (rule promote_children_a2_r10_r12 [OF k d [unfolded h lv] e [unfolded a]])
  next
    assume h: "hc = 2" and a: "r2 = 14" "r0 = 8" "r1 = 12"
    show ?thesis
      by (rule promote_children_a2_r14_r8 [OF k d [unfolded h lv] e [unfolded a]])
  next
    assume h: "hc = 2" and a: "r2 = 14" "r0 = 12" "r1 = 8"
    show ?thesis
      by (rule promote_children_a2_r14_r12 [OF k d [unfolded h lv] e [unfolded a]])
  qed
qed

text \<open>
  C1. For every valid centroid \<open>c\<close> above the finest level (decoded size at least 2),
  \<^verbatim>\<open>subtetCentroids\<close> returns eight children without error, and for every child index
  \<open>i\<close> whose child is not the invalid sentinel, \<^verbatim>\<open>centroidUpOneLevel\<close> of that child
  returns \<open>c\<close>, in a build with assertions and in one without.
\<close>

theorem promote_subdivide_round_trip:
  assumes "valid_centroid c" and "centroidHalfAxisSize c = Some (hc, level)"
    and "2 \<le> level"
  shows "\<exists>subs. subtetCentroids c = Inr subs \<and> length subs = 8 \<and>
           (\<forall>i<8. subs ! i \<noteq> markInvalid \<longrightarrow>
              centroidUpOneLevel asserts (subs ! i) = Inr c)"
proof -
  from promote_children [OF assms, of asserts] obtain subs where
    s: "subtetCentroids c = Inr subs" "length subs = 8"
      "\<forall>ch\<in>set subs. ch \<noteq> markInvalid \<longrightarrow> centroidUpOneLevel asserts ch = Inr c"
    by blast
  have "\<forall>i<8. subs ! i \<noteq> markInvalid \<longrightarrow> centroidUpOneLevel asserts (subs ! i) = Inr c"
    using s(2,3) by (auto simp add: all_set_conv_all_nth)
  with s(1,2) show ?thesis by blast
qed

theorem promote_subdivide_round_trip_witness:
  "valid_centroid (2, 4, 0) \<and> centroidHalfAxisSize (2, 4, 0) = Some (0, 2) \<and>
   subtetCentroids (2, 4, 0) =
     Inr [(1, 2, 0), (1, 6, 0), (3, 4, 2), markInvalid, (2, 3, 0), (2, 5, 0), markInvalid,
          (2, 4, 1)] \<and>
   map (centroidUpOneLevel True) [(1, 2, 0), (1, 6, 0), (3, 4, 2), (2, 3, 0), (2, 5, 0), (2, 4, 1)] =
     replicate 6 (Inr (2, 4, 0)) \<and>
   (\<exists>subs. subtetCentroids (2, 4, 0) = Inr subs \<and> length subs = 8 \<and>
      (\<forall>i<8. subs ! i \<noteq> markInvalid \<longrightarrow>
         centroidUpOneLevel True (subs ! i) = Inr (2, 4, 0)))"
proof -
  have v: "valid_centroid (2, 4, 0)"
    by code_simp
  have d: "centroidHalfAxisSize (2, 4, 0) = Some (0, 2)"
    by code_simp
  have s: "subtetCentroids (2, 4, 0) =
     Inr [(1, 2, 0), (1, 6, 0), (3, 4, 2), markInvalid, (2, 3, 0), (2, 5, 0), markInvalid,
          (2, 4, 1)]"
    by code_simp
  have u: "map (centroidUpOneLevel True)
      [(1, 2, 0), (1, 6, 0), (3, 4, 2), (2, 3, 0), (2, 5, 0), (2, 4, 1)] =
     replicate 6 (Inr (2, 4, 0))"
    by code_simp
  from promote_subdivide_round_trip [OF v d, of True] v d s u show ?thesis
    by simp
qed

section \<open>Node positions are exact lattice points around the centroid\<close>

lemma sint16:
  assumes "- 32768 \<le> x" "x \<le> 32767"
  shows "sint (word_of_int x :: 16 word) = x"
proof -
  have "signed_take_bit 15 x = x"
    using assms by (intro signed_take_bit_int_eq_self) simp_all
  then show ?thesis by (simp add: sint_sbintrunc')
qed

lemma plusAssignShort_eq: "plusAssignShort g i d = plusAssign g i d"
  by (simp add: plusAssignShort_def plusAssign_def sn_def rd_def)

lemma sn_shift3:
  "- 32768 \<le> rd c 0 + a \<Longrightarrow> rd c 0 + a \<le> 32767 \<Longrightarrow> sn (shift3 c a b d) 0 = rd c 0 + a"
  "- 32768 \<le> rd c 1 + b \<Longrightarrow> rd c 1 + b \<le> 32767 \<Longrightarrow> sn (shift3 c a b d) (Suc 0) = rd c 1 + b"
  "- 32768 \<le> rd c 2 + d \<Longrightarrow> rd c 2 + d \<le> 32767 \<Longrightarrow> sn (shift3 c a b d) 2 = rd c 2 + d"
proof -
  have e: "sn (shift3 c a b d) 0 = sint (word_of_int (rd c 0 + a) :: 16 word)"
    "sn (shift3 c a b d) (Suc 0) = sint (word_of_int (rd c 1 + b) :: 16 word)"
    "sn (shift3 c a b d) 2 = sint (word_of_int (rd c 2 + d) :: 16 word)"
    by (simp_all add: sn_def shift3_def)
  show "- 32768 \<le> rd c 0 + a \<Longrightarrow> rd c 0 + a \<le> 32767 \<Longrightarrow> sn (shift3 c a b d) 0 = rd c 0 + a"
    unfolding e(1) by (rule sint16)
  show "- 32768 \<le> rd c 1 + b \<Longrightarrow> rd c 1 + b \<le> 32767 \<Longrightarrow> sn (shift3 c a b d) (Suc 0) = rd c 1 + b"
    unfolding e(2) by (rule sint16)
  show "- 32768 \<le> rd c 2 + d \<Longrightarrow> rd c 2 + d \<le> 32767 \<Longrightarrow> sn (shift3 c a b d) 2 = rd c 2 + d"
    unfolding e(3) by (rule sint16)
qed

lemma trunc_half_even:
  assumes "even y"
  shows "2 * trunc_half y = y"
  using assms unfolding trunc_half_def by presburger

lemma sn_halve:
  assumes "even (sn g i)" "i = 0 \<or> i = 1 \<or> i = 2"
  shows "2 * sn (halve g) i = sn g i"
proof -
  let ?y = "sn g i"
  have r: "- 32768 \<le> ?y" "?y \<le> 32767"
    using sint_range_size [of "at3 g i"] by (simp_all add: sn_def word_size)
  have h: "2 * trunc_half ?y = ?y" using assms(1) by (rule trunc_half_even)
  with r have "- 32768 \<le> trunc_half ?y" "trunc_half ?y \<le> 32767" by linarith+
  then have "sint (word_of_int (trunc_half ?y) :: 16 word) = trunc_half ?y"
    by (rule sint16)
  moreover have "sn (halve g) i = sint (word_of_int (trunc_half ?y) :: 16 word)"
    using assms(2) by (auto simp add: halve_def sn_def)
  ultimately show ?thesis using h by simp
qed

lemma valid_even:
  assumes v: "valid_centroid c" and d: "centroidHalfAxisSize c = Some (hc, s)"
  shows "even (rd c hc + s)" "even (rd c hc - s)"
    "even (rd c ((hc + 1) mod 3))" "even (rd c ((hc + 2) mod 3))" "s \<le> 16384"
proof -
  from d obtain K n0 n1 n2 where K: "K < 16" "s = 2 ^ K" "hc = 0 \<or> hc = 1 \<or> hc = 2"
    and n: "rd c 0 = 2 ^ K * n0" "rd c 1 = 2 ^ K * n1" "rd c 2 = 2 ^ K * n2"
    and bh: "bit (rd c hc) K"
    by (rule decode_units)
  note vb = valid_bits [OF v d [unfolded K(2)]]
  from vb(3) have "bit (rd c ((hc + 1) mod 3)) (Suc K) \<or> bit (rd c ((hc + 2) mod 3)) (Suc K)"
    by blast
  then have "Suc K < 16"
    using bit_index_bound rd_range by blast
  then have "K \<le> 14" by simp
  then have "(2::int) ^ K \<le> 2 ^ 14" by (intro power_increasing) simp_all
  then show "s \<le> 16384" by (simp add: K(2))
  obtain n where nh: "rd c hc = 2 ^ K * n"
    using K(3) n by auto
  with bh have "odd n" by (simp add: bit_of_units_0)
  then have "even (n + 1)" "even (n - 1)" by simp_all
  moreover have "rd c hc + s = 2 ^ K * (n + 1)" "rd c hc - s = 2 ^ K * (n - 1)"
    by (simp_all add: nh K(2) algebra_simps)
  ultimately show "even (rd c hc + s)" "even (rd c hc - s)"
    by simp_all
  have e: "\<And>i m. rd c i = 2 ^ K * m \<Longrightarrow> \<not> bit (rd c i) K \<Longrightarrow> even (rd c i)"
    by (simp add: bit_of_units_0)
  obtain m1 where "rd c ((hc + 1) mod 3) = 2 ^ K * m1"
    using K(3) n by (auto simp add: Suc_Suc_0_eq_2)
  with vb(1) show "even (rd c ((hc + 1) mod 3))" by (rule e [rotated])
  obtain m2 where "rd c ((hc + 2) mod 3) = 2 ^ K * m2"
    using K(3) n by (auto simp add: Suc_Suc_0_eq_2)
  with vb(2) show "even (rd c ((hc + 2) mod 3))" by (rule e [rotated])
qed

lemma node_loci_axis0:
  assumes d: "centroidHalfAxisSize c = Some (0, s)"
    and ev: "even (rd c 0 + s)" "even (rd c 0 - s)" "even (rd c 1)" "even (rd c 2)"
    and sb: "0 < s" "s \<le> 16384" "s \<le> rd c 0"
    and rg: "rd c 0 + 2 * s \<le> 32767" "rd c 1 + 2 * s \<le> 32767" "rd c 2 + 2 * s \<le> 32767"
  shows "\<exists>g. centroidToNodeLoci_doubled c = Inr g \<and>
           centroidToNodeLoci c = Inr (map halve g) \<and> exact_nodes c g"
proof -
  note r = rd_range [of c 0] rd_range [of c 1] rd_range [of c 2]
  have up: ?thesis if t: "rd c 0 AND push_bit 1 s = rd c 2 AND push_bit 1 s"
  proof -
    let ?g = "[shift3 c (- s) (- (2 * s)) 0,
      shift3 c (- s) (2 * s) 0,
      shift3 c (s) 0 (2 * s),
      shift3 c (s) 0 (- (2 * s))]"
    have g: "centroidToNodeLoci_doubled c = Inr ?g"
      using t by (simp add: centroidToNodeLoci_doubled_def d Let_def plusAssignShort_eq pa_simps
          push_bit_eq_mult mult.commute)
    have v0: "sn (shift3 c (- s) (- (2 * s)) 0) 0 = rd c 0 - s" "sn (shift3 c (- s) (- (2 * s)) 0) 1 = rd c 1 - (2 * s)" "sn (shift3 c (- s) (- (2 * s)) 0) 2 = rd c 2"
      using sb rg r by (simp_all add: sn_shift3)
    have e0: "even (sn (shift3 c (- s) (- (2 * s)) 0) 0)" "even (sn (shift3 c (- s) (- (2 * s)) 0) 1)" "even (sn (shift3 c (- s) (- (2 * s)) 0) 2)"
      using ev v0 by simp_all
    have h0: "2 * sn (halve (shift3 c (- s) (- (2 * s)) 0)) 0 = sn (shift3 c (- s) (- (2 * s)) 0) 0" "2 * sn (halve (shift3 c (- s) (- (2 * s)) 0)) 1 = sn (shift3 c (- s) (- (2 * s)) 0) 1" "2 * sn (halve (shift3 c (- s) (- (2 * s)) 0)) 2 = sn (shift3 c (- s) (- (2 * s)) 0) 2"
      using e0 by (simp_all add: sn_halve)
    have v1: "sn (shift3 c (- s) (2 * s) 0) 0 = rd c 0 - s" "sn (shift3 c (- s) (2 * s) 0) 1 = rd c 1 + 2 * s" "sn (shift3 c (- s) (2 * s) 0) 2 = rd c 2"
      using sb rg r by (simp_all add: sn_shift3)
    have e1: "even (sn (shift3 c (- s) (2 * s) 0) 0)" "even (sn (shift3 c (- s) (2 * s) 0) 1)" "even (sn (shift3 c (- s) (2 * s) 0) 2)"
      using ev v1 by simp_all
    have h1: "2 * sn (halve (shift3 c (- s) (2 * s) 0)) 0 = sn (shift3 c (- s) (2 * s) 0) 0" "2 * sn (halve (shift3 c (- s) (2 * s) 0)) 1 = sn (shift3 c (- s) (2 * s) 0) 1" "2 * sn (halve (shift3 c (- s) (2 * s) 0)) 2 = sn (shift3 c (- s) (2 * s) 0) 2"
      using e1 by (simp_all add: sn_halve)
    have v2: "sn (shift3 c (s) 0 (2 * s)) 0 = rd c 0 + s" "sn (shift3 c (s) 0 (2 * s)) 1 = rd c 1" "sn (shift3 c (s) 0 (2 * s)) 2 = rd c 2 + 2 * s"
      using sb rg r by (simp_all add: sn_shift3)
    have e2: "even (sn (shift3 c (s) 0 (2 * s)) 0)" "even (sn (shift3 c (s) 0 (2 * s)) 1)" "even (sn (shift3 c (s) 0 (2 * s)) 2)"
      using ev v2 by simp_all
    have h2: "2 * sn (halve (shift3 c (s) 0 (2 * s))) 0 = sn (shift3 c (s) 0 (2 * s)) 0" "2 * sn (halve (shift3 c (s) 0 (2 * s))) 1 = sn (shift3 c (s) 0 (2 * s)) 1" "2 * sn (halve (shift3 c (s) 0 (2 * s))) 2 = sn (shift3 c (s) 0 (2 * s)) 2"
      using e2 by (simp_all add: sn_halve)
    have v3: "sn (shift3 c (s) 0 (- (2 * s))) 0 = rd c 0 + s" "sn (shift3 c (s) 0 (- (2 * s))) 1 = rd c 1" "sn (shift3 c (s) 0 (- (2 * s))) 2 = rd c 2 - (2 * s)"
      using sb rg r by (simp_all add: sn_shift3)
    have e3: "even (sn (shift3 c (s) 0 (- (2 * s))) 0)" "even (sn (shift3 c (s) 0 (- (2 * s))) 1)" "even (sn (shift3 c (s) 0 (- (2 * s))) 2)"
      using ev v3 by simp_all
    have h3: "2 * sn (halve (shift3 c (s) 0 (- (2 * s)))) 0 = sn (shift3 c (s) 0 (- (2 * s))) 0" "2 * sn (halve (shift3 c (s) 0 (- (2 * s)))) 1 = sn (shift3 c (s) 0 (- (2 * s))) 1" "2 * sn (halve (shift3 c (s) 0 (- (2 * s)))) 2 = sn (shift3 c (s) 0 (- (2 * s))) 2"
      using e3 by (simp_all add: sn_halve)
    have sums: "node_sum (map halve ?g) 0 = 2 * rd c 0" "node_sum (map halve ?g) 1 = 2 * rd c 1"
      "node_sum (map halve ?g) 2 = 2 * rd c 2"
      using h0 h1 h2 h3 v0 v1 v2 v3 by (simp_all add: node_sum_def)
    have "exact_nodes c ?g"
      unfolding exact_nodes_def using e0 e1 e2 e3 h0 h1 h2 h3 sums by simp
    with g show ?thesis
      by (simp add: centroidToNodeLoci_def)
  qed
  have down: ?thesis if t: "\<not> rd c 0 AND push_bit 1 s = rd c 2 AND push_bit 1 s"
  proof -
    let ?g = "[shift3 c (s) (- (2 * s)) 0,
      shift3 c (s) (2 * s) 0,
      shift3 c (- s) 0 (- (2 * s)),
      shift3 c (- s) 0 (2 * s)]"
    have g: "centroidToNodeLoci_doubled c = Inr ?g"
      using t by (simp add: centroidToNodeLoci_doubled_def d Let_def plusAssignShort_eq pa_simps
          push_bit_eq_mult mult.commute)
    have v0: "sn (shift3 c (s) (- (2 * s)) 0) 0 = rd c 0 + s" "sn (shift3 c (s) (- (2 * s)) 0) 1 = rd c 1 - (2 * s)" "sn (shift3 c (s) (- (2 * s)) 0) 2 = rd c 2"
      using sb rg r by (simp_all add: sn_shift3)
    have e0: "even (sn (shift3 c (s) (- (2 * s)) 0) 0)" "even (sn (shift3 c (s) (- (2 * s)) 0) 1)" "even (sn (shift3 c (s) (- (2 * s)) 0) 2)"
      using ev v0 by simp_all
    have h0: "2 * sn (halve (shift3 c (s) (- (2 * s)) 0)) 0 = sn (shift3 c (s) (- (2 * s)) 0) 0" "2 * sn (halve (shift3 c (s) (- (2 * s)) 0)) 1 = sn (shift3 c (s) (- (2 * s)) 0) 1" "2 * sn (halve (shift3 c (s) (- (2 * s)) 0)) 2 = sn (shift3 c (s) (- (2 * s)) 0) 2"
      using e0 by (simp_all add: sn_halve)
    have v1: "sn (shift3 c (s) (2 * s) 0) 0 = rd c 0 + s" "sn (shift3 c (s) (2 * s) 0) 1 = rd c 1 + 2 * s" "sn (shift3 c (s) (2 * s) 0) 2 = rd c 2"
      using sb rg r by (simp_all add: sn_shift3)
    have e1: "even (sn (shift3 c (s) (2 * s) 0) 0)" "even (sn (shift3 c (s) (2 * s) 0) 1)" "even (sn (shift3 c (s) (2 * s) 0) 2)"
      using ev v1 by simp_all
    have h1: "2 * sn (halve (shift3 c (s) (2 * s) 0)) 0 = sn (shift3 c (s) (2 * s) 0) 0" "2 * sn (halve (shift3 c (s) (2 * s) 0)) 1 = sn (shift3 c (s) (2 * s) 0) 1" "2 * sn (halve (shift3 c (s) (2 * s) 0)) 2 = sn (shift3 c (s) (2 * s) 0) 2"
      using e1 by (simp_all add: sn_halve)
    have v2: "sn (shift3 c (- s) 0 (- (2 * s))) 0 = rd c 0 - s" "sn (shift3 c (- s) 0 (- (2 * s))) 1 = rd c 1" "sn (shift3 c (- s) 0 (- (2 * s))) 2 = rd c 2 - (2 * s)"
      using sb rg r by (simp_all add: sn_shift3)
    have e2: "even (sn (shift3 c (- s) 0 (- (2 * s))) 0)" "even (sn (shift3 c (- s) 0 (- (2 * s))) 1)" "even (sn (shift3 c (- s) 0 (- (2 * s))) 2)"
      using ev v2 by simp_all
    have h2: "2 * sn (halve (shift3 c (- s) 0 (- (2 * s)))) 0 = sn (shift3 c (- s) 0 (- (2 * s))) 0" "2 * sn (halve (shift3 c (- s) 0 (- (2 * s)))) 1 = sn (shift3 c (- s) 0 (- (2 * s))) 1" "2 * sn (halve (shift3 c (- s) 0 (- (2 * s)))) 2 = sn (shift3 c (- s) 0 (- (2 * s))) 2"
      using e2 by (simp_all add: sn_halve)
    have v3: "sn (shift3 c (- s) 0 (2 * s)) 0 = rd c 0 - s" "sn (shift3 c (- s) 0 (2 * s)) 1 = rd c 1" "sn (shift3 c (- s) 0 (2 * s)) 2 = rd c 2 + 2 * s"
      using sb rg r by (simp_all add: sn_shift3)
    have e3: "even (sn (shift3 c (- s) 0 (2 * s)) 0)" "even (sn (shift3 c (- s) 0 (2 * s)) 1)" "even (sn (shift3 c (- s) 0 (2 * s)) 2)"
      using ev v3 by simp_all
    have h3: "2 * sn (halve (shift3 c (- s) 0 (2 * s))) 0 = sn (shift3 c (- s) 0 (2 * s)) 0" "2 * sn (halve (shift3 c (- s) 0 (2 * s))) 1 = sn (shift3 c (- s) 0 (2 * s)) 1" "2 * sn (halve (shift3 c (- s) 0 (2 * s))) 2 = sn (shift3 c (- s) 0 (2 * s)) 2"
      using e3 by (simp_all add: sn_halve)
    have sums: "node_sum (map halve ?g) 0 = 2 * rd c 0" "node_sum (map halve ?g) 1 = 2 * rd c 1"
      "node_sum (map halve ?g) 2 = 2 * rd c 2"
      using h0 h1 h2 h3 v0 v1 v2 v3 by (simp_all add: node_sum_def)
    have "exact_nodes c ?g"
      unfolding exact_nodes_def using e0 e1 e2 e3 h0 h1 h2 h3 sums by simp
    with g show ?thesis
      by (simp add: centroidToNodeLoci_def)
  qed
  from up down show ?thesis
    by blast
qed

lemma node_loci_axis1:
  assumes d: "centroidHalfAxisSize c = Some (1, s)"
    and ev: "even (rd c 1 + s)" "even (rd c 1 - s)" "even (rd c 2)" "even (rd c 0)"
    and sb: "0 < s" "s \<le> 16384" "s \<le> rd c 1"
    and rg: "rd c 0 + 2 * s \<le> 32767" "rd c 1 + 2 * s \<le> 32767" "rd c 2 + 2 * s \<le> 32767"
  shows "\<exists>g. centroidToNodeLoci_doubled c = Inr g \<and>
           centroidToNodeLoci c = Inr (map halve g) \<and> exact_nodes c g"
proof -
  note r = rd_range [of c 0] rd_range [of c 1] rd_range [of c 2]
  have up: ?thesis if t: "rd c 1 AND push_bit 1 s = rd c 0 AND push_bit 1 s"
  proof -
    let ?g = "[shift3 c 0 (- s) (- (2 * s)),
      shift3 c 0 (- s) (2 * s),
      shift3 c (2 * s) (s) 0,
      shift3 c (- (2 * s)) (s) 0]"
    have g: "centroidToNodeLoci_doubled c = Inr ?g"
      using t by (simp add: centroidToNodeLoci_doubled_def d Let_def plusAssignShort_eq pa_simps
          push_bit_eq_mult mult.commute)
    have v0: "sn (shift3 c 0 (- s) (- (2 * s))) 0 = rd c 0" "sn (shift3 c 0 (- s) (- (2 * s))) 1 = rd c 1 - s" "sn (shift3 c 0 (- s) (- (2 * s))) 2 = rd c 2 - (2 * s)"
      using sb rg r by (simp_all add: sn_shift3)
    have e0: "even (sn (shift3 c 0 (- s) (- (2 * s))) 0)" "even (sn (shift3 c 0 (- s) (- (2 * s))) 1)" "even (sn (shift3 c 0 (- s) (- (2 * s))) 2)"
      using ev v0 by simp_all
    have h0: "2 * sn (halve (shift3 c 0 (- s) (- (2 * s)))) 0 = sn (shift3 c 0 (- s) (- (2 * s))) 0" "2 * sn (halve (shift3 c 0 (- s) (- (2 * s)))) 1 = sn (shift3 c 0 (- s) (- (2 * s))) 1" "2 * sn (halve (shift3 c 0 (- s) (- (2 * s)))) 2 = sn (shift3 c 0 (- s) (- (2 * s))) 2"
      using e0 by (simp_all add: sn_halve)
    have v1: "sn (shift3 c 0 (- s) (2 * s)) 0 = rd c 0" "sn (shift3 c 0 (- s) (2 * s)) 1 = rd c 1 - s" "sn (shift3 c 0 (- s) (2 * s)) 2 = rd c 2 + 2 * s"
      using sb rg r by (simp_all add: sn_shift3)
    have e1: "even (sn (shift3 c 0 (- s) (2 * s)) 0)" "even (sn (shift3 c 0 (- s) (2 * s)) 1)" "even (sn (shift3 c 0 (- s) (2 * s)) 2)"
      using ev v1 by simp_all
    have h1: "2 * sn (halve (shift3 c 0 (- s) (2 * s))) 0 = sn (shift3 c 0 (- s) (2 * s)) 0" "2 * sn (halve (shift3 c 0 (- s) (2 * s))) 1 = sn (shift3 c 0 (- s) (2 * s)) 1" "2 * sn (halve (shift3 c 0 (- s) (2 * s))) 2 = sn (shift3 c 0 (- s) (2 * s)) 2"
      using e1 by (simp_all add: sn_halve)
    have v2: "sn (shift3 c (2 * s) (s) 0) 0 = rd c 0 + 2 * s" "sn (shift3 c (2 * s) (s) 0) 1 = rd c 1 + s" "sn (shift3 c (2 * s) (s) 0) 2 = rd c 2"
      using sb rg r by (simp_all add: sn_shift3)
    have e2: "even (sn (shift3 c (2 * s) (s) 0) 0)" "even (sn (shift3 c (2 * s) (s) 0) 1)" "even (sn (shift3 c (2 * s) (s) 0) 2)"
      using ev v2 by simp_all
    have h2: "2 * sn (halve (shift3 c (2 * s) (s) 0)) 0 = sn (shift3 c (2 * s) (s) 0) 0" "2 * sn (halve (shift3 c (2 * s) (s) 0)) 1 = sn (shift3 c (2 * s) (s) 0) 1" "2 * sn (halve (shift3 c (2 * s) (s) 0)) 2 = sn (shift3 c (2 * s) (s) 0) 2"
      using e2 by (simp_all add: sn_halve)
    have v3: "sn (shift3 c (- (2 * s)) (s) 0) 0 = rd c 0 - (2 * s)" "sn (shift3 c (- (2 * s)) (s) 0) 1 = rd c 1 + s" "sn (shift3 c (- (2 * s)) (s) 0) 2 = rd c 2"
      using sb rg r by (simp_all add: sn_shift3)
    have e3: "even (sn (shift3 c (- (2 * s)) (s) 0) 0)" "even (sn (shift3 c (- (2 * s)) (s) 0) 1)" "even (sn (shift3 c (- (2 * s)) (s) 0) 2)"
      using ev v3 by simp_all
    have h3: "2 * sn (halve (shift3 c (- (2 * s)) (s) 0)) 0 = sn (shift3 c (- (2 * s)) (s) 0) 0" "2 * sn (halve (shift3 c (- (2 * s)) (s) 0)) 1 = sn (shift3 c (- (2 * s)) (s) 0) 1" "2 * sn (halve (shift3 c (- (2 * s)) (s) 0)) 2 = sn (shift3 c (- (2 * s)) (s) 0) 2"
      using e3 by (simp_all add: sn_halve)
    have sums: "node_sum (map halve ?g) 0 = 2 * rd c 0" "node_sum (map halve ?g) 1 = 2 * rd c 1"
      "node_sum (map halve ?g) 2 = 2 * rd c 2"
      using h0 h1 h2 h3 v0 v1 v2 v3 by (simp_all add: node_sum_def)
    have "exact_nodes c ?g"
      unfolding exact_nodes_def using e0 e1 e2 e3 h0 h1 h2 h3 sums by simp
    with g show ?thesis
      by (simp add: centroidToNodeLoci_def)
  qed
  have down: ?thesis if t: "\<not> rd c 1 AND push_bit 1 s = rd c 0 AND push_bit 1 s"
  proof -
    let ?g = "[shift3 c 0 (s) (- (2 * s)),
      shift3 c 0 (s) (2 * s),
      shift3 c (- (2 * s)) (- s) 0,
      shift3 c (2 * s) (- s) 0]"
    have g: "centroidToNodeLoci_doubled c = Inr ?g"
      using t by (simp add: centroidToNodeLoci_doubled_def d Let_def plusAssignShort_eq pa_simps
          push_bit_eq_mult mult.commute)
    have v0: "sn (shift3 c 0 (s) (- (2 * s))) 0 = rd c 0" "sn (shift3 c 0 (s) (- (2 * s))) 1 = rd c 1 + s" "sn (shift3 c 0 (s) (- (2 * s))) 2 = rd c 2 - (2 * s)"
      using sb rg r by (simp_all add: sn_shift3)
    have e0: "even (sn (shift3 c 0 (s) (- (2 * s))) 0)" "even (sn (shift3 c 0 (s) (- (2 * s))) 1)" "even (sn (shift3 c 0 (s) (- (2 * s))) 2)"
      using ev v0 by simp_all
    have h0: "2 * sn (halve (shift3 c 0 (s) (- (2 * s)))) 0 = sn (shift3 c 0 (s) (- (2 * s))) 0" "2 * sn (halve (shift3 c 0 (s) (- (2 * s)))) 1 = sn (shift3 c 0 (s) (- (2 * s))) 1" "2 * sn (halve (shift3 c 0 (s) (- (2 * s)))) 2 = sn (shift3 c 0 (s) (- (2 * s))) 2"
      using e0 by (simp_all add: sn_halve)
    have v1: "sn (shift3 c 0 (s) (2 * s)) 0 = rd c 0" "sn (shift3 c 0 (s) (2 * s)) 1 = rd c 1 + s" "sn (shift3 c 0 (s) (2 * s)) 2 = rd c 2 + 2 * s"
      using sb rg r by (simp_all add: sn_shift3)
    have e1: "even (sn (shift3 c 0 (s) (2 * s)) 0)" "even (sn (shift3 c 0 (s) (2 * s)) 1)" "even (sn (shift3 c 0 (s) (2 * s)) 2)"
      using ev v1 by simp_all
    have h1: "2 * sn (halve (shift3 c 0 (s) (2 * s))) 0 = sn (shift3 c 0 (s) (2 * s)) 0" "2 * sn (halve (shift3 c 0 (s) (2 * s))) 1 = sn (shift3 c 0 (s) (2 * s)) 1" "2 * sn (halve (shift3 c 0 (s) (2 * s))) 2 = sn (shift3 c 0 (s) (2 * s)) 2"
      using e1 by (simp_all add: sn_halve)
    have v2: "sn (shift3 c (- (2 * s)) (- s) 0) 0 = rd c 0 - (2 * s)" "sn (shift3 c (- (2 * s)) (- s) 0) 1 = rd c 1 - s" "sn (shift3 c (- (2 * s)) (- s) 0) 2 = rd c 2"
      using sb rg r by (simp_all add: sn_shift3)
    have e2: "even (sn (shift3 c (- (2 * s)) (- s) 0) 0)" "even (sn (shift3 c (- (2 * s)) (- s) 0) 1)" "even (sn (shift3 c (- (2 * s)) (- s) 0) 2)"
      using ev v2 by simp_all
    have h2: "2 * sn (halve (shift3 c (- (2 * s)) (- s) 0)) 0 = sn (shift3 c (- (2 * s)) (- s) 0) 0" "2 * sn (halve (shift3 c (- (2 * s)) (- s) 0)) 1 = sn (shift3 c (- (2 * s)) (- s) 0) 1" "2 * sn (halve (shift3 c (- (2 * s)) (- s) 0)) 2 = sn (shift3 c (- (2 * s)) (- s) 0) 2"
      using e2 by (simp_all add: sn_halve)
    have v3: "sn (shift3 c (2 * s) (- s) 0) 0 = rd c 0 + 2 * s" "sn (shift3 c (2 * s) (- s) 0) 1 = rd c 1 - s" "sn (shift3 c (2 * s) (- s) 0) 2 = rd c 2"
      using sb rg r by (simp_all add: sn_shift3)
    have e3: "even (sn (shift3 c (2 * s) (- s) 0) 0)" "even (sn (shift3 c (2 * s) (- s) 0) 1)" "even (sn (shift3 c (2 * s) (- s) 0) 2)"
      using ev v3 by simp_all
    have h3: "2 * sn (halve (shift3 c (2 * s) (- s) 0)) 0 = sn (shift3 c (2 * s) (- s) 0) 0" "2 * sn (halve (shift3 c (2 * s) (- s) 0)) 1 = sn (shift3 c (2 * s) (- s) 0) 1" "2 * sn (halve (shift3 c (2 * s) (- s) 0)) 2 = sn (shift3 c (2 * s) (- s) 0) 2"
      using e3 by (simp_all add: sn_halve)
    have sums: "node_sum (map halve ?g) 0 = 2 * rd c 0" "node_sum (map halve ?g) 1 = 2 * rd c 1"
      "node_sum (map halve ?g) 2 = 2 * rd c 2"
      using h0 h1 h2 h3 v0 v1 v2 v3 by (simp_all add: node_sum_def)
    have "exact_nodes c ?g"
      unfolding exact_nodes_def using e0 e1 e2 e3 h0 h1 h2 h3 sums by simp
    with g show ?thesis
      by (simp add: centroidToNodeLoci_def)
  qed
  from up down show ?thesis
    by blast
qed

lemma node_loci_axis2:
  assumes d: "centroidHalfAxisSize c = Some (2, s)"
    and ev: "even (rd c 2 + s)" "even (rd c 2 - s)" "even (rd c 0)" "even (rd c 1)"
    and sb: "0 < s" "s \<le> 16384" "s \<le> rd c 2"
    and rg: "rd c 0 + 2 * s \<le> 32767" "rd c 1 + 2 * s \<le> 32767" "rd c 2 + 2 * s \<le> 32767"
  shows "\<exists>g. centroidToNodeLoci_doubled c = Inr g \<and>
           centroidToNodeLoci c = Inr (map halve g) \<and> exact_nodes c g"
proof -
  note r = rd_range [of c 0] rd_range [of c 1] rd_range [of c 2]
  have up: ?thesis if t: "rd c 2 AND push_bit 1 s = rd c 1 AND push_bit 1 s"
  proof -
    let ?g = "[shift3 c (- (2 * s)) 0 (- s),
      shift3 c (2 * s) 0 (- s),
      shift3 c 0 (2 * s) (s),
      shift3 c 0 (- (2 * s)) (s)]"
    have g: "centroidToNodeLoci_doubled c = Inr ?g"
      using t by (simp add: centroidToNodeLoci_doubled_def d Let_def plusAssignShort_eq pa_simps
          push_bit_eq_mult mult.commute)
    have v0: "sn (shift3 c (- (2 * s)) 0 (- s)) 0 = rd c 0 - (2 * s)" "sn (shift3 c (- (2 * s)) 0 (- s)) 1 = rd c 1" "sn (shift3 c (- (2 * s)) 0 (- s)) 2 = rd c 2 - s"
      using sb rg r by (simp_all add: sn_shift3)
    have e0: "even (sn (shift3 c (- (2 * s)) 0 (- s)) 0)" "even (sn (shift3 c (- (2 * s)) 0 (- s)) 1)" "even (sn (shift3 c (- (2 * s)) 0 (- s)) 2)"
      using ev v0 by simp_all
    have h0: "2 * sn (halve (shift3 c (- (2 * s)) 0 (- s))) 0 = sn (shift3 c (- (2 * s)) 0 (- s)) 0" "2 * sn (halve (shift3 c (- (2 * s)) 0 (- s))) 1 = sn (shift3 c (- (2 * s)) 0 (- s)) 1" "2 * sn (halve (shift3 c (- (2 * s)) 0 (- s))) 2 = sn (shift3 c (- (2 * s)) 0 (- s)) 2"
      using e0 by (simp_all add: sn_halve)
    have v1: "sn (shift3 c (2 * s) 0 (- s)) 0 = rd c 0 + 2 * s" "sn (shift3 c (2 * s) 0 (- s)) 1 = rd c 1" "sn (shift3 c (2 * s) 0 (- s)) 2 = rd c 2 - s"
      using sb rg r by (simp_all add: sn_shift3)
    have e1: "even (sn (shift3 c (2 * s) 0 (- s)) 0)" "even (sn (shift3 c (2 * s) 0 (- s)) 1)" "even (sn (shift3 c (2 * s) 0 (- s)) 2)"
      using ev v1 by simp_all
    have h1: "2 * sn (halve (shift3 c (2 * s) 0 (- s))) 0 = sn (shift3 c (2 * s) 0 (- s)) 0" "2 * sn (halve (shift3 c (2 * s) 0 (- s))) 1 = sn (shift3 c (2 * s) 0 (- s)) 1" "2 * sn (halve (shift3 c (2 * s) 0 (- s))) 2 = sn (shift3 c (2 * s) 0 (- s)) 2"
      using e1 by (simp_all add: sn_halve)
    have v2: "sn (shift3 c 0 (2 * s) (s)) 0 = rd c 0" "sn (shift3 c 0 (2 * s) (s)) 1 = rd c 1 + 2 * s" "sn (shift3 c 0 (2 * s) (s)) 2 = rd c 2 + s"
      using sb rg r by (simp_all add: sn_shift3)
    have e2: "even (sn (shift3 c 0 (2 * s) (s)) 0)" "even (sn (shift3 c 0 (2 * s) (s)) 1)" "even (sn (shift3 c 0 (2 * s) (s)) 2)"
      using ev v2 by simp_all
    have h2: "2 * sn (halve (shift3 c 0 (2 * s) (s))) 0 = sn (shift3 c 0 (2 * s) (s)) 0" "2 * sn (halve (shift3 c 0 (2 * s) (s))) 1 = sn (shift3 c 0 (2 * s) (s)) 1" "2 * sn (halve (shift3 c 0 (2 * s) (s))) 2 = sn (shift3 c 0 (2 * s) (s)) 2"
      using e2 by (simp_all add: sn_halve)
    have v3: "sn (shift3 c 0 (- (2 * s)) (s)) 0 = rd c 0" "sn (shift3 c 0 (- (2 * s)) (s)) 1 = rd c 1 - (2 * s)" "sn (shift3 c 0 (- (2 * s)) (s)) 2 = rd c 2 + s"
      using sb rg r by (simp_all add: sn_shift3)
    have e3: "even (sn (shift3 c 0 (- (2 * s)) (s)) 0)" "even (sn (shift3 c 0 (- (2 * s)) (s)) 1)" "even (sn (shift3 c 0 (- (2 * s)) (s)) 2)"
      using ev v3 by simp_all
    have h3: "2 * sn (halve (shift3 c 0 (- (2 * s)) (s))) 0 = sn (shift3 c 0 (- (2 * s)) (s)) 0" "2 * sn (halve (shift3 c 0 (- (2 * s)) (s))) 1 = sn (shift3 c 0 (- (2 * s)) (s)) 1" "2 * sn (halve (shift3 c 0 (- (2 * s)) (s))) 2 = sn (shift3 c 0 (- (2 * s)) (s)) 2"
      using e3 by (simp_all add: sn_halve)
    have sums: "node_sum (map halve ?g) 0 = 2 * rd c 0" "node_sum (map halve ?g) 1 = 2 * rd c 1"
      "node_sum (map halve ?g) 2 = 2 * rd c 2"
      using h0 h1 h2 h3 v0 v1 v2 v3 by (simp_all add: node_sum_def)
    have "exact_nodes c ?g"
      unfolding exact_nodes_def using e0 e1 e2 e3 h0 h1 h2 h3 sums by simp
    with g show ?thesis
      by (simp add: centroidToNodeLoci_def)
  qed
  have down: ?thesis if t: "\<not> rd c 2 AND push_bit 1 s = rd c 1 AND push_bit 1 s"
  proof -
    let ?g = "[shift3 c (- (2 * s)) 0 (s),
      shift3 c (2 * s) 0 (s),
      shift3 c 0 (- (2 * s)) (- s),
      shift3 c 0 (2 * s) (- s)]"
    have g: "centroidToNodeLoci_doubled c = Inr ?g"
      using t by (simp add: centroidToNodeLoci_doubled_def d Let_def plusAssignShort_eq pa_simps
          push_bit_eq_mult mult.commute)
    have v0: "sn (shift3 c (- (2 * s)) 0 (s)) 0 = rd c 0 - (2 * s)" "sn (shift3 c (- (2 * s)) 0 (s)) 1 = rd c 1" "sn (shift3 c (- (2 * s)) 0 (s)) 2 = rd c 2 + s"
      using sb rg r by (simp_all add: sn_shift3)
    have e0: "even (sn (shift3 c (- (2 * s)) 0 (s)) 0)" "even (sn (shift3 c (- (2 * s)) 0 (s)) 1)" "even (sn (shift3 c (- (2 * s)) 0 (s)) 2)"
      using ev v0 by simp_all
    have h0: "2 * sn (halve (shift3 c (- (2 * s)) 0 (s))) 0 = sn (shift3 c (- (2 * s)) 0 (s)) 0" "2 * sn (halve (shift3 c (- (2 * s)) 0 (s))) 1 = sn (shift3 c (- (2 * s)) 0 (s)) 1" "2 * sn (halve (shift3 c (- (2 * s)) 0 (s))) 2 = sn (shift3 c (- (2 * s)) 0 (s)) 2"
      using e0 by (simp_all add: sn_halve)
    have v1: "sn (shift3 c (2 * s) 0 (s)) 0 = rd c 0 + 2 * s" "sn (shift3 c (2 * s) 0 (s)) 1 = rd c 1" "sn (shift3 c (2 * s) 0 (s)) 2 = rd c 2 + s"
      using sb rg r by (simp_all add: sn_shift3)
    have e1: "even (sn (shift3 c (2 * s) 0 (s)) 0)" "even (sn (shift3 c (2 * s) 0 (s)) 1)" "even (sn (shift3 c (2 * s) 0 (s)) 2)"
      using ev v1 by simp_all
    have h1: "2 * sn (halve (shift3 c (2 * s) 0 (s))) 0 = sn (shift3 c (2 * s) 0 (s)) 0" "2 * sn (halve (shift3 c (2 * s) 0 (s))) 1 = sn (shift3 c (2 * s) 0 (s)) 1" "2 * sn (halve (shift3 c (2 * s) 0 (s))) 2 = sn (shift3 c (2 * s) 0 (s)) 2"
      using e1 by (simp_all add: sn_halve)
    have v2: "sn (shift3 c 0 (- (2 * s)) (- s)) 0 = rd c 0" "sn (shift3 c 0 (- (2 * s)) (- s)) 1 = rd c 1 - (2 * s)" "sn (shift3 c 0 (- (2 * s)) (- s)) 2 = rd c 2 - s"
      using sb rg r by (simp_all add: sn_shift3)
    have e2: "even (sn (shift3 c 0 (- (2 * s)) (- s)) 0)" "even (sn (shift3 c 0 (- (2 * s)) (- s)) 1)" "even (sn (shift3 c 0 (- (2 * s)) (- s)) 2)"
      using ev v2 by simp_all
    have h2: "2 * sn (halve (shift3 c 0 (- (2 * s)) (- s))) 0 = sn (shift3 c 0 (- (2 * s)) (- s)) 0" "2 * sn (halve (shift3 c 0 (- (2 * s)) (- s))) 1 = sn (shift3 c 0 (- (2 * s)) (- s)) 1" "2 * sn (halve (shift3 c 0 (- (2 * s)) (- s))) 2 = sn (shift3 c 0 (- (2 * s)) (- s)) 2"
      using e2 by (simp_all add: sn_halve)
    have v3: "sn (shift3 c 0 (2 * s) (- s)) 0 = rd c 0" "sn (shift3 c 0 (2 * s) (- s)) 1 = rd c 1 + 2 * s" "sn (shift3 c 0 (2 * s) (- s)) 2 = rd c 2 - s"
      using sb rg r by (simp_all add: sn_shift3)
    have e3: "even (sn (shift3 c 0 (2 * s) (- s)) 0)" "even (sn (shift3 c 0 (2 * s) (- s)) 1)" "even (sn (shift3 c 0 (2 * s) (- s)) 2)"
      using ev v3 by simp_all
    have h3: "2 * sn (halve (shift3 c 0 (2 * s) (- s))) 0 = sn (shift3 c 0 (2 * s) (- s)) 0" "2 * sn (halve (shift3 c 0 (2 * s) (- s))) 1 = sn (shift3 c 0 (2 * s) (- s)) 1" "2 * sn (halve (shift3 c 0 (2 * s) (- s))) 2 = sn (shift3 c 0 (2 * s) (- s)) 2"
      using e3 by (simp_all add: sn_halve)
    have sums: "node_sum (map halve ?g) 0 = 2 * rd c 0" "node_sum (map halve ?g) 1 = 2 * rd c 1"
      "node_sum (map halve ?g) 2 = 2 * rd c 2"
      using h0 h1 h2 h3 v0 v1 v2 v3 by (simp_all add: node_sum_def)
    have "exact_nodes c ?g"
      unfolding exact_nodes_def using e0 e1 e2 e3 h0 h1 h2 h3 sums by simp
    with g show ?thesis
      by (simp add: centroidToNodeLoci_def)
  qed
  from up down show ?thesis
    by blast
qed

text \<open>
  C10, as the code has it. Let \<open>c\<close> be a valid centroid of size \<open>sz\<close> whose coordinates
  are at most \<open>32767 - 2 * sz\<close>, so that every entry of \<^verbatim>\<open>gridLoci\<close> fits a \<^verbatim>\<open>short\<close>.
  Then \<^verbatim>\<open>centroidToNodeLoci\<close> returns four nodes, every entry before the final halving is
  even, the halving is exact (twice the stored entry is the entry before it), and over
  the four nodes every coordinate sums to twice the centroid code: the average of the
  nodes is the code divided by 2.
\<close>

theorem centroidToNodeLoci_exact:
  assumes "valid_centroid c" and "centroidHalfAxisSize c = Some (hc, sz)"
    and "rd c 0 + 2 * sz \<le> 32767" and "rd c 1 + 2 * sz \<le> 32767"
    and "rd c 2 + 2 * sz \<le> 32767"
  shows "\<exists>g. centroidToNodeLoci_doubled c = Inr g \<and>
           centroidToNodeLoci c = Inr (map halve g) \<and> exact_nodes c g"
proof -
  note e = valid_even [OF assms(1,2)]
  note b = decode_size_bounds [OF assms(2)]
  from assms(2) have "hc = 0 \<or> hc = 1 \<or> hc = 2"
    by (rule decode_facts)
  then show ?thesis
  proof (elim disjE)
    assume h: "hc = 0"
    from e(1-4) have "even (rd c 0 + sz)" "even (rd c 0 - sz)" "even (rd c 1)" "even (rd c 2)"
      by (simp_all add: h Suc_Suc_0_eq_2)
    then show ?thesis
      using b(1) e(5) b(3) [unfolded h] assms(3-5)
      by (rule node_loci_axis0 [OF assms(2) [unfolded h]])
  next
    assume h: "hc = 1"
    from e(1-4) have "even (rd c 1 + sz)" "even (rd c 1 - sz)" "even (rd c 2)" "even (rd c 0)"
      by (simp_all add: h Suc_Suc_0_eq_2)
    then show ?thesis
      using b(1) e(5) b(3) [unfolded h] assms(3-5)
      by (rule node_loci_axis1 [OF assms(2) [unfolded h]])
  next
    assume h: "hc = 2"
    from e(1-4) have "even (rd c 2 + sz)" "even (rd c 2 - sz)" "even (rd c 0)" "even (rd c 1)"
      by (simp_all add: h Suc_Suc_0_eq_2)
    then show ?thesis
      using b(1) e(5) b(3) [unfolded h] assms(3-5)
      by (rule node_loci_axis2 [OF assms(2) [unfolded h]])
  qed
qed

theorem centroidToNodeLoci_exact_witness:
  "valid_centroid (1, 2, 0) \<and> centroidHalfAxisSize (1, 2, 0) = Some (0, 1) \<and>
   centroidToNodeLoci_doubled (1, 2, 0) = Inr [(0, 0, 0), (0, 4, 0), (2, 2, 2), (2, 2, -2)] \<and>
   centroidToNodeLoci (1, 2, 0) = Inr [(0, 0, 0), (0, 2, 0), (1, 1, 1), (1, 1, -1)] \<and>
   (\<exists>g. centroidToNodeLoci_doubled (1, 2, 0) = Inr g \<and>
      centroidToNodeLoci (1, 2, 0) = Inr (map halve g) \<and> exact_nodes (1, 2, 0) g)"
proof -
  have v: "valid_centroid (1, 2, 0)"
    by code_simp
  have d: "centroidHalfAxisSize (1, 2, 0) = Some (0, 1)"
    by code_simp
  have r: "rd (1, 2, 0) 0 + 2 * 1 \<le> 32767" "rd (1, 2, 0) 1 + 2 * 1 \<le> 32767"
    "rd (1, 2, 0) 2 + 2 * 1 \<le> 32767"
    by code_simp+
  have g: "centroidToNodeLoci_doubled (1, 2, 0) = Inr [(0, 0, 0), (0, 4, 0), (2, 2, 2), (2, 2, -2)]"
    by code_simp
  have n: "centroidToNodeLoci (1, 2, 0) = Inr [(0, 0, 0), (0, 2, 0), (1, 1, 1), (1, 1, -1)]"
    by code_simp
  from centroidToNodeLoci_exact [OF v d r] v d g n show ?thesis
    by simp
qed

text \<open>
  The claim as it is written, for every valid centroid, fails where an entry leaves the
  range of a \<^verbatim>\<open>short\<close>: for the valid centroid \<open>(0, 1, 32766)\<close> the entry
  \<open>32766 + 2\<close> is stored as \<open>-32768\<close>, the third coordinates of the four nodes are
  16382, -16384, 16383 and 16383, and their sum 32764 is not twice 32766.
\<close>

theorem centroidToNodeLoci_exact_counterexample:
  "valid_centroid (0, 1, 32766) \<and> centroidHalfAxisSize (0, 1, 32766) = Some (1, 1) \<and>
   map_sum id (map (\<lambda>g. (sn g 0, sn g 1, sn g 2))) (centroidToNodeLoci (0, 1, 32766)) =
     Inr [(0, 0, 16382), (0, 0, - 16384), (1, 1, 16383), (- 1, 1, 16383)] \<and>
   map_sum id (\<lambda>nodes. node_sum nodes 2) (centroidToNodeLoci (0, 1, 32766)) = Inr 32764 \<and>
   2 * rd (0, 1, 32766) 2 = 65532"
  by code_simp

section \<open>The promotion loops are bounded\<close>









section \<open>The results of the solid line path\<close>

lemma subscript_nonneg: "subscript xs i = Inr x \<Longrightarrow> 0 \<le> i"
  by (simp add: subscript_def split: if_splits)

lemma scanShared_nonneg:
  "scanShared asserts st nodeSet sizeNow ts = Inr (Some t) \<Longrightarrow> 0 \<le> t"
proof (induction ts)
  case Nil
  then show ?case by simp
next
  case (Cons a ts)
  then show ?case
    by (auto split: sum.splits if_splits dest: subscript_nonneg)
qed

lemma walk_result:
  "walk asserts st ops nodeSet fuel tetNow sizeNow face p = Some (Inr r) \<Longrightarrow> 0 \<le> tetNow \<Longrightarrow>
     r = - 1 \<or> 0 \<le> r"
proof (induction fuel arbitrary: tetNow sizeNow face p)
  case 0
  then show ?case by simp
next
  case (Suc fuel)
  show ?case
  proof (cases "lt1 ops p")
    case False
    with Suc.prems show ?thesis by (auto split: if_splits)
  next
    case True
    with Suc.prems(1) have
      "(\<exists>t sizeNow' face' p'. 0 \<le> t \<and>
          walk asserts st ops nodeSet fuel t sizeNow' face' p' = Some (Inr r)) \<or> r = - 1"
      by (auto simp add: Let_def split: sum.splits prod.splits option.splits if_splits
          dest: scanShared_nonneg)
    then show ?thesis
      using Suc.IH by blast
  qed
qed

text \<open>
  C7, the part the code does not do. The comment at the head of \<^verbatim>\<open>vertexSolidLinePath\<close>
  says that a virtual-noded junction that makes the search impossible returns \<open>-2\<close>.
  No path of the code returns it: in a store whose map holds tetrahedron indices (none
  negative), whenever \<^verbatim>\<open>vertexSolidLinePath\<close> returns a value, the value is \<open>-1\<close> or a
  tetrahedron index, never \<open>-2\<close>.
\<close>

theorem vertexSolidLinePath_never_returns_blocked:
  assumes "\<forall>kv\<in>set (tetHash st). 0 \<le> snd kv"
    and "vertexSolidLinePath asserts st ops tc vertex sizeNow0 fuel = Some (Inr r)"
  shows "r \<noteq> - 2 \<and> (r = - 1 \<or> 0 \<le> r)"
proof -
  have hash: "\<And>c t. t \<in> set (equal_range st c) \<Longrightarrow> 0 \<le> t"
    using assms(1) by (auto simp add: equal_range_def)
  have "r = - 1 \<or> 0 \<le> r"
  proof (cases "fst (vertexSolidLinePath_target asserts st tc)")
    case (Inl e)
    with assms(2) show ?thesis by (simp add: vertexSolidLinePath_def)
  next
    case (Inr targetTets)
    then have tt: "targetTets = equal_range st tc"
      by (auto simp add: vertexSolidLinePath_target_def Let_def split: prod.splits if_splits)
    show ?thesis
    proof (cases "length targetTets = 1")
      case True
      then have "hd targetTets \<in> set targetTets" by (cases targetTets) simp_all
      with tt hash have "0 \<le> hd targetTets" by blast
      with assms(2) Inr True show ?thesis by (simp add: vertexSolidLinePath_def)
    next
      case False
      with assms(2) Inr have
        "r = - 1 \<or>
         (\<exists>tetNow tn sizeNow face p. subscript (tetNodes st) tetNow = Inr tn \<and>
            walk asserts st ops [at4 tn 0, at4 tn 1, at4 tn 2, at4 tn 3] fuel tetNow sizeNow face p =
              Some (Inr r))"
        by (auto simp add: vertexSolidLinePath_def Let_def
            split: sum.splits prod.splits option.splits if_splits)
      then show ?thesis
      proof (elim disjE exE conjE)
        assume "r = - 1"
        then show ?thesis by simp
      next
        fix tetNow tn sizeNow face p
        assume s: "subscript (tetNodes st) tetNow = Inr tn"
          and w: "walk asserts st ops [at4 tn 0, at4 tn 1, at4 tn 2, at4 tn 3] fuel tetNow sizeNow
                    face p = Some (Inr r)"
        from subscript_nonneg [OF s] have "0 \<le> tetNow" .
        from walk_result [OF w this] show ?thesis .
      qed
    qed
  qed
  then show ?thesis by auto
qed

text \<open>
  At the junction store the walk leaves tetrahedron 0 through face 1, finds the adjacent
  centroid \<open>(2, 3, 0)\<close> stored twice with no tetrahedron that shares a node with the
  start, and returns \<open>-1\<close>, the value it also returns when the segment leaves the
  tessellation.
\<close>

theorem vertexSolidLinePath_never_returns_blocked_witness:
  "map snd (tetHash junction_store) = [0, 1, 2] \<and>
   equal_range junction_store (2, 3, 0) = [1, 2] \<and>
   vertexSolidLinePath False junction_store junction_ops (2, 3, 0) 0 0 10 = Some (Inr (- 1)) \<and>
   vertexSolidLinePath True junction_store junction_ops (2, 3, 0) 0 0 10 = Some (Inr (- 1)) \<and>
   (- 1 :: int) \<noteq> - 2"
proof -
  have h: "\<forall>kv\<in>set (tetHash junction_store). 0 \<le> snd kv"
    by code_simp
  have e: "equal_range junction_store (2, 3, 0) = [1, 2]"
    by code_simp
  have r: "vertexSolidLinePath False junction_store junction_ops (2, 3, 0) 0 0 10 = Some (Inr (- 1))"
    by code_simp
  have r': "vertexSolidLinePath True junction_store junction_ops (2, 3, 0) 0 0 10 = Some (Inr (- 1))"
    by code_simp
  have m: "map snd (tetHash junction_store) = [0, 1, 2]"
    by code_simp
  from vertexSolidLinePath_never_returns_blocked [OF h r] m e r r' show ?thesis
    by simp
qed

end
